(* ===== verification/Prelude.thy ===== *)
theory Prelude
  imports Main "HOL-Library.Word" "HOL-Library.AList" "HOL-Library.Multiset"
begin

text \<open>
  What the components of the development share: the machine integers of the source with
  the checked and saturating operations it calls on them, the outcome of a fallible Rust
  function (a value, an error, or a panic), loops with early return over such outcomes, and
  association lists standing for the maps of the source. The lemmas are collected in
  \<open>uint_simps\<close> (integers read as natural numbers), \<open>result_simps\<close> (outcomes) and
  \<open>alist_simps\<close> (maps).
\<close>

section \<open>Machine integers\<close>

type_synonym u8 = "8 word"
type_synonym u16 = "16 word"
type_synonym u32 = "32 word"
type_synonym u64 = "64 word"
type_synonym usize = "64 word"

named_theorems uint_simps
named_theorems result_simps
named_theorems alist_simps

definition checked_add :: "'a::len word \<Rightarrow> 'a word \<Rightarrow> 'a word option" where
  "checked_add a b = (if unat a + unat b < 2 ^ LENGTH('a) then Some (a + b) else None)"

definition checked_sub :: "'a::len word \<Rightarrow> 'a word \<Rightarrow> 'a word option" where
  "checked_sub a b = (if b \<le> a then Some (a - b) else None)"

definition checked_mul :: "'a::len word \<Rightarrow> 'a word \<Rightarrow> 'a word option" where
  "checked_mul a b = (if unat a * unat b < 2 ^ LENGTH('a) then Some (a * b) else None)"

definition checked_div :: "'a::len word \<Rightarrow> 'a word \<Rightarrow> 'a word option" where
  "checked_div a b = (if b = 0 then None else Some (a div b))"

definition saturating_add :: "'a::len word \<Rightarrow> 'a word \<Rightarrow> 'a word" where
  "saturating_add a b = (if unat a + unat b < 2 ^ LENGTH('a) then a + b else - 1)"

definition saturating_sub :: "'a::len word \<Rightarrow> 'a word \<Rightarrow> 'a word" where
  "saturating_sub a b = (if b \<le> a then a - b else 0)"

text \<open>\<open>usize::div_ceil\<close> on a count that fits the machine: the quotient, plus one when a
  remainder is left. A zero divisor panics in the source; callers test it first.\<close>

definition div_ceil :: "nat \<Rightarrow> nat \<Rightarrow> nat" where
  "div_ceil a b = (let d = a div b; r = a mod b in if r > 0 then d + 1 else d)"

lemma checked_add_Some_iff [uint_simps]:
  "checked_add a b = Some c \<longleftrightarrow> unat c = unat a + unat b"
proof
  assume "checked_add a b = Some c"
  then show "unat c = unat a + unat b"
    by (auto simp: checked_add_def unat_word_ariths split: if_splits)
next
  assume eq: "unat c = unat a + unat b"
  have "unat c < 2 ^ LENGTH('a)" by (rule unsigned_less)
  with eq have lt: "unat a + unat b < 2 ^ LENGTH('a)" by simp
  then have "unat (a + b) = unat c" using eq by (simp add: unat_word_ariths)
  then have "a + b = c" by (simp add: word_unat_eq_iff)
  with lt show "checked_add a b = Some c" by (simp add: checked_add_def)
qed

lemma checked_add_None_iff [uint_simps]:
  "checked_add (a :: 'a::len word) b = None \<longleftrightarrow> 2 ^ LENGTH('a) \<le> unat a + unat b"
  by (simp add: checked_add_def not_less)

lemma checked_sub_Some_iff [uint_simps]:
  "checked_sub a b = Some c \<longleftrightarrow> unat a = unat b + unat c"
proof
  assume "checked_sub a b = Some c"
  then have le: "b \<le> a" and c: "c = a - b" by (auto simp: checked_sub_def split: if_splits)
  from le have "unat (a - b) = unat a - unat b" by (rule unat_sub)
  with le c show "unat a = unat b + unat c" by (simp add: word_le_nat_alt)
next
  assume eq: "unat a = unat b + unat c"
  then have le: "b \<le> a" by (simp add: word_le_nat_alt)
  then have "unat (a - b) = unat c" using eq by (simp add: unat_sub)
  then have "a - b = c" by (simp add: word_unat_eq_iff)
  with le show "checked_sub a b = Some c" by (simp add: checked_sub_def)
qed

lemma checked_sub_None_iff [uint_simps]: "checked_sub a b = None \<longleftrightarrow> unat a < unat b"
  by (simp add: checked_sub_def word_le_nat_alt not_le)

lemma checked_mul_Some_iff [uint_simps]:
  "checked_mul a b = Some c \<longleftrightarrow> unat c = unat a * unat b"
proof
  assume "checked_mul a b = Some c"
  then show "unat c = unat a * unat b"
    by (auto simp: checked_mul_def unat_word_ariths split: if_splits)
next
  assume eq: "unat c = unat a * unat b"
  have "unat c < 2 ^ LENGTH('a)" by (rule unsigned_less)
  with eq have lt: "unat a * unat b < 2 ^ LENGTH('a)" by simp
  then have "unat (a * b) = unat c" using eq by (simp add: unat_word_ariths)
  then have "a * b = c" by (simp add: word_unat_eq_iff)
  with lt show "checked_mul a b = Some c" by (simp add: checked_mul_def)
qed

lemma checked_mul_None_iff [uint_simps]:
  "checked_mul (a :: 'a::len word) b = None \<longleftrightarrow> 2 ^ LENGTH('a) \<le> unat a * unat b"
  by (simp add: checked_mul_def not_less)

lemma checked_div_Some_iff [uint_simps]:
  "checked_div a b = Some c \<longleftrightarrow> unat b \<noteq> 0 \<and> unat c = unat a div unat b"
  by (auto simp: checked_div_def word_unat_eq_iff unat_div)

lemma checked_div_None_iff [uint_simps]: "checked_div a b = None \<longleftrightarrow> unat b = 0"
  by (simp add: checked_div_def unat_eq_0)

lemma unat_saturating_add [uint_simps]:
  "unat (saturating_add (a :: 'a::len word) b) = min (unat a + unat b) (2 ^ LENGTH('a) - 1)"
  by (auto simp: saturating_add_def unat_word_ariths unsigned_minus_1_eq_mask mask_eq_exp_minus_1)

lemma unat_saturating_sub [uint_simps]:
  "unat (saturating_sub a b) = unat a - unat b"
  by (auto simp: saturating_sub_def unat_sub word_le_nat_alt)

lemma unat_u64_less: "unat (w :: u64) < 2 ^ 64"
  using unsigned_less [of w] by simp

lemma unat_u32_as_u64 [simp]: "unat (ucast (w :: u32) :: u64) = unat w"
proof -
  have "unat w < 2 ^ 64" by (rule order.strict_trans2 [OF unsigned_less]) simp
  then show ?thesis by (simp add: unsigned_ucast_eq take_bit_nat_eq_self)
qed

lemma unat_of_nat_u64: "n < 2 ^ 64 \<Longrightarrow> unat (of_nat n :: u64) = n"
  by (simp add: unat_of_nat)

lemma div_ceil_ge_iff:
  assumes "0 < b"
  shows "q \<le> div_ceil a b \<longleftrightarrow> q * b < a + b"
proof (cases "a mod b = 0")
  case True
  then have a: "a = (a div b) * b" by (simp add: mod_eq_0_iff_dvd)
  have "q \<le> a div b \<longleftrightarrow> q < a div b + 1" by linarith
  also have "\<dots> \<longleftrightarrow> q * b < (a div b + 1) * b" using assms by (simp only: mult_less_cancel2 simp_thms)
  also have "(a div b + 1) * b = a + b" using a by (simp add: add_mult_distrib)
  finally show ?thesis using True by (simp add: div_ceil_def Let_def)
next
  case False
  have le: "(a div b + 1) * b < a + b"
  proof -
    have "(a div b) * b < a" using False div_mult_mod_eq [of a b] by linarith
    then show ?thesis by (simp add: add_mult_distrib)
  qed
  have gt: "a + b < (a div b + 2) * b"
    using dividend_less_times_div [OF assms, of a] by (simp add: algebra_simps)
  have "q \<le> a div b + 1 \<longleftrightarrow> q * b < a + b"
  proof
    assume "q \<le> a div b + 1"
    then have "q * b \<le> (a div b + 1) * b" by (rule mult_le_mono1)
    with le show "q * b < a + b" by linarith
  next
    assume "q * b < a + b"
    with gt have "q * b < (a div b + 2) * b" by linarith
    then have "q < a div b + 2" by (simp only: mult_less_cancel2)
    then show "q \<le> a div b + 1" by simp
  qed
  then show ?thesis using False by (simp add: div_ceil_def Let_def)
qed

lemma div_ceil_le:
  assumes "a \<le> k * b" and "0 < b"
  shows "div_ceil a b \<le> k"
proof (rule ccontr)
  assume "\<not> div_ceil a b \<le> k"
  then have "Suc k \<le> div_ceil a b" by simp
  then have "k * b < a" using div_ceil_ge_iff [of b "Suc k" a] assms(2) by simp
  with assms(1) show False by simp
qed

section \<open>Outcomes of fallible functions\<close>

text \<open>
  A Rust function that returns \<open>Result\<close> ends in a value, in an error, or in a panic
  (\<open>unwrap\<close>, \<open>expect\<close>, \<open>assert!\<close>, an index out of range). Keeping the panic apart
  from the errors makes absence of panics a statement of its own.
\<close>

datatype ('e, 'a) result = Ok 'a | Err 'e | Panic

primrec bind_result :: "('e, 'a) result \<Rightarrow> ('a \<Rightarrow> ('e, 'b) result) \<Rightarrow> ('e, 'b) result" where
  "bind_result (Ok x) f = f x"
| "bind_result (Err e) f = Err e"
| "bind_result Panic f = Panic"

primrec map_err :: "('e \<Rightarrow> 'f) \<Rightarrow> ('e, 'a) result \<Rightarrow> ('f, 'a) result" where
  "map_err g (Ok x) = Ok x"
| "map_err g (Err e) = Err (g e)"
| "map_err g Panic = Panic"

primrec ok_or :: "'e \<Rightarrow> 'a option \<Rightarrow> ('e, 'a) result" where
  "ok_or e (Some x) = Ok x"
| "ok_or e None = Err e"

text \<open>\<open>Option::expect\<close> and \<open>Option::unwrap\<close>.\<close>

primrec expect :: "'a option \<Rightarrow> ('e, 'a) result" where
  "expect (Some x) = Ok x"
| "expect None = Panic"

text \<open>\<open>assert!\<close>\<close>

definition assert_that :: "bool \<Rightarrow> ('e, unit) result" where
  "assert_that b = (if b then Ok () else Panic)"

text \<open>A \<open>for\<close> loop whose body threads a state and may return early with \<open>?\<close>.\<close>

fun fold_result :: "('s \<Rightarrow> 'x \<Rightarrow> ('e, 's) result) \<Rightarrow> 's \<Rightarrow> 'x list \<Rightarrow> ('e, 's) result" where
  "fold_result f s [] = Ok s"
| "fold_result f s (x # xs) = bind_result (f s x) (\<lambda>s'. fold_result f s' xs)"

lemma bind_result_cong [fundef_cong]:
  "m = m' \<Longrightarrow> (\<And>x. m' = Ok x \<Longrightarrow> f x = f' x) \<Longrightarrow> bind_result m f = bind_result m' f'"
  by (cases m) auto

lemma bind_result_Ok_iff [result_simps]:
  "bind_result m f = Ok y \<longleftrightarrow> (\<exists>x. m = Ok x \<and> f x = Ok y)"
  by (cases m) auto

lemma bind_result_Err_iff [result_simps]:
  "bind_result m f = Err e \<longleftrightarrow> m = Err e \<or> (\<exists>x. m = Ok x \<and> f x = Err e)"
  by (cases m) auto

lemma bind_result_Panic_iff [result_simps]:
  "bind_result m f = Panic \<longleftrightarrow> m = Panic \<or> (\<exists>x. m = Ok x \<and> f x = Panic)"
  by (cases m) auto

lemma map_err_Ok_iff [result_simps]: "map_err g m = Ok x \<longleftrightarrow> m = Ok x"
  by (cases m) auto

lemma ok_or_Ok_iff [result_simps]: "ok_or e v = Ok x \<longleftrightarrow> v = Some x"
  by (cases v) auto

lemma ok_or_Err_iff [result_simps]: "ok_or e v = Err e' \<longleftrightarrow> v = None \<and> e' = e"
  by (cases v) auto

lemma ok_or_not_Panic [simp]: "ok_or e v \<noteq> Panic"
  by (cases v) auto

lemma expect_Ok_iff [result_simps]: "expect v = Ok x \<longleftrightarrow> v = Some x"
  by (cases v) auto

lemma expect_Panic_iff [result_simps]: "expect v = Panic \<longleftrightarrow> v = None"
  by (cases v) auto

lemma expect_not_Err [simp]: "expect v \<noteq> Err e"
  by (cases v) auto

lemma assert_that_Ok_iff [result_simps]: "assert_that b = Ok u \<longleftrightarrow> b"
  by (simp add: assert_that_def)

lemma assert_that_Panic_iff [result_simps]: "assert_that b = Panic \<longleftrightarrow> \<not> b"
  by (simp add: assert_that_def)

lemma assert_that_not_Err [simp]: "assert_that b \<noteq> Err e"
  by (simp add: assert_that_def)

lemma fold_result_append:
  "fold_result f s (xs @ ys) = bind_result (fold_result f s xs) (\<lambda>s'. fold_result f s' ys)"
proof (induction xs arbitrary: s)
  case Nil
  then show ?case by simp
next
  case (Cons x xs)
  then show ?case by (cases "f s x") auto
qed

text \<open>An invariant of the loop body is an invariant of the loop.\<close>

lemma fold_result_invariant:
  assumes "fold_result f s xs = Ok t" and "I s"
    and "\<And>s x s'. x \<in> set xs \<Longrightarrow> I s \<Longrightarrow> f s x = Ok s' \<Longrightarrow> I s'"
  shows "I t"
  using assms
proof (induction xs arbitrary: s)
  case Nil
  then show ?case by simp
next
  case (Cons x xs)
  from Cons.prems(1) obtain s' where s': "f s x = Ok s'" "fold_result f s' xs = Ok t"
    by (auto simp: result_simps)
  have "I s'" by (rule Cons.prems(3) [OF _ Cons.prems(2) s'(1)]) simp
  with s'(2) show ?case by (rule Cons.IH) (rule Cons.prems(3), auto)
qed

text \<open>A loop whose body always succeeds under an invariant it keeps succeeds itself.\<close>

lemma fold_result_total:
  assumes "I s" and "\<And>s x. x \<in> set xs \<Longrightarrow> I s \<Longrightarrow> \<exists>s'. f s x = Ok s' \<and> I s'"
  shows "\<exists>t. fold_result f s xs = Ok t \<and> I t"
  using assms
proof (induction xs arbitrary: s)
  case Nil
  then show ?case by simp
next
  case (Cons x xs)
  from Cons.prems obtain s' where "f s x = Ok s'" "I s'" by force
  with Cons.IH [of s'] Cons.prems(2) show ?case by simp
qed

text \<open>A loop that pushes one result for each element.\<close>

lemma fold_result_collect:
  "fold_result (\<lambda>ret x. bind_result (f x) (\<lambda>y. Ok (ret @ [y]))) acc xs = Ok r \<longleftrightarrow>
     (\<exists>ys. r = acc @ ys \<and> list_all2 (\<lambda>x y. f x = Ok y) xs ys)"
proof (induction xs arbitrary: acc)
  case Nil
  then show ?case by auto
next
  case (Cons x xs)
  show ?case
    by (cases "f x") (auto simp: Cons.IH list_all2_Cons1)
qed

section \<open>Maps as association lists\<close>

text \<open>
  A \<open>HashMap\<close> is an association list with distinct keys: the library's \<open>AList.update\<close>
  and \<open>AList.delete\<close> insert and remove, \<open>map_of\<close> looks up, and the list's order is the
  (unspecified) iteration order. \<open>retain\<close> keeps the entries that satisfy a predicate.
\<close>

definition retain :: "('k \<Rightarrow> 'v \<Rightarrow> bool) \<Rightarrow> ('k \<times> 'v) list \<Rightarrow> ('k \<times> 'v) list" where
  "retain P m = filter (\<lambda>(k, v). P k v) m"

definition wf_map :: "('k \<times> 'v) list \<Rightarrow> bool" where
  "wf_map m \<longleftrightarrow> distinct (map fst m)"

lemma wf_map_Nil [simp]: "wf_map []"
  by (simp add: wf_map_def)

lemma wf_map_update [intro, simp]: "wf_map m \<Longrightarrow> wf_map (AList.update k v m)"
  by (simp add: wf_map_def distinct_update)

lemma wf_map_delete [intro, simp]: "wf_map m \<Longrightarrow> wf_map (AList.delete k m)"
  by (simp add: wf_map_def distinct_delete)

lemma distinct_map_filter_fst: "distinct (map fst m) \<Longrightarrow> distinct (map fst (filter P m))"
  by (induction m) auto

lemma wf_map_retain [intro, simp]: "wf_map m \<Longrightarrow> wf_map (retain P m)"
  by (simp add: wf_map_def retain_def distinct_map_filter_fst)

lemma map_of_update [alist_simps]: "map_of (AList.update k v m) = (map_of m)(k \<mapsto> v)"
  by (rule update_conv')

lemma map_of_delete [alist_simps]: "map_of (AList.delete k m) = (map_of m)(k := None)"
  by (rule delete_conv')

lemma map_of_retain [alist_simps]:
  assumes "wf_map m"
  shows "map_of (retain P m) k = (case map_of m k of None \<Rightarrow> None | Some v \<Rightarrow> if P k v then Some v else None)"
  using assms
proof (induction m)
  case Nil
  then show ?case by (simp add: retain_def)
next
  case (Cons x m)
  obtain a b where x: "x = (a, b)" by (cases x)
  from Cons.prems have wf: "wf_map m" and a: "a \<notin> fst ` set m"
    by (auto simp: wf_map_def x)
  show ?case
  proof (cases "k = a")
    case True
    have "map_of m a = None" using a by (simp add: map_of_eq_None_iff)
    moreover have "map_of (retain P m) a = None" using Cons.IH [OF wf] calculation True by simp
    ultimately show ?thesis using True by (simp add: x retain_def)
  next
    case False
    then show ?thesis using Cons.IH [OF wf] by (simp add: x retain_def)
  qed
qed

lemma map_of_eq_Some_iff_mem: "wf_map m \<Longrightarrow> map_of m k = Some v \<longleftrightarrow> (k, v) \<in> set m"
  by (simp add: wf_map_def)

end
