(* ===== verification/VoteTracker.thy ===== *)
theory VoteTracker
  imports Prelude
begin

text \<open>
  The vote tracker of the activation manager: the vote and runtime version types of
  \<open>botanix-storage/src/models/activation_manager.rs\<close>, the in-memory \<open>VoteWatcher\<close> of
  \<open>botanix-activation-manager/src/vote_tracker.rs\<close>, and, as the locale \<open>vote_ledger\<close>, the
  contract of the trait \<open>ActivationManagerReaderWriter\<close> that the manager relies on.
  Counts are natural numbers: the entries of the map are in memory, so a hundred times their
  number fits a \<open>usize\<close>.
\<close>

section \<open>Votes and runtime versions\<close>

datatype vote = Aye | Nay | Abstain

definition default_vote :: vote where
  "default_vote = Abstain"

datatype runtime_version = RuntimeVersion (major: u16) (minor: u16)

datatype ordering = Less | Equal | Greater

definition cmp_word :: "'a::len word \<Rightarrow> 'a word \<Rightarrow> ordering" where
  "cmp_word a b = (if a < b then Less else if a = b then Equal else Greater)"

text \<open>\<open>Ord for RuntimeVersion\<close>: major versions first, minor versions on a tie.\<close>

definition cmp_version :: "runtime_version \<Rightarrow> runtime_version \<Rightarrow> ordering" where
  "cmp_version v w = (case cmp_word (major v) (major w) of
       Equal \<Rightarrow> cmp_word (minor v) (minor w)
     | c \<Rightarrow> c)"

instantiation runtime_version :: linorder
begin

definition less_eq_runtime_version :: "runtime_version \<Rightarrow> runtime_version \<Rightarrow> bool" where
  "v \<le> w \<longleftrightarrow> cmp_version v w \<noteq> Greater"

definition less_runtime_version :: "runtime_version \<Rightarrow> runtime_version \<Rightarrow> bool" where
  "v < w \<longleftrightarrow> cmp_version v w = Less"

lemma less_eq_version_iff:
  "v \<le> w \<longleftrightarrow> major v < major w \<or> major v = major w \<and> minor v \<le> minor w"
  by (auto simp: less_eq_runtime_version_def cmp_version_def cmp_word_def split: if_splits)

lemma less_version_iff:
  "v < w \<longleftrightarrow> major v < major w \<or> major v = major w \<and> minor v < minor w"
  by (auto simp: less_runtime_version_def cmp_version_def cmp_word_def split: if_splits)

instance
proof
  fix u v w :: runtime_version
  show "v < w \<longleftrightarrow> v \<le> w \<and> \<not> w \<le> v"
    by (auto simp: less_eq_version_iff less_version_iff)
  show "v \<le> v" by (simp add: less_eq_version_iff)
  show "u \<le> v \<Longrightarrow> v \<le> w \<Longrightarrow> u \<le> w" by (auto simp: less_eq_version_iff)
  show "v \<le> w \<Longrightarrow> w \<le> v \<Longrightarrow> v = w"
    by (cases v; cases w) (auto simp: less_eq_version_iff)
  show "v \<le> w \<or> w \<le> v" by (auto simp: less_eq_version_iff)
qed

end

text \<open>\<open>Compress\<close> and \<open>Decompress\<close>: two little-endian 16-bit integers. A buffer shorter
  than four bytes is \<open>unreachable!\<close>.\<close>

definition le_bytes_u16 :: "u16 \<Rightarrow> u8 list" where
  "le_bytes_u16 w = [ucast w, ucast (drop_bit 8 w)]"

definition u16_from_le_bytes :: "u8 \<Rightarrow> u8 \<Rightarrow> u16" where
  "u16_from_le_bytes b0 b1 = or (ucast b0) (push_bit 8 (ucast b1))"

definition compress_version :: "runtime_version \<Rightarrow> u8 list" where
  "compress_version v = le_bytes_u16 (major v) @ le_bytes_u16 (minor v)"

definition decompress_version :: "u8 list \<Rightarrow> (unit, runtime_version) result" where
  "decompress_version v = (case v of
       b0 # b1 # b2 # b3 # _ \<Rightarrow>
         Ok (RuntimeVersion (u16_from_le_bytes b0 b1) (u16_from_le_bytes b2 b3))
     | _ \<Rightarrow> Panic)"

section \<open>The vote watcher\<close>

record vote_entry =
  ve_vote :: vote
  ve_is_compliant :: bool
  ve_botanix_height :: u64

type_synonym 'auth vote_watcher = "('auth \<times> vote_entry) list"

definition update_upgrading_vote ::
    "'auth vote_watcher \<Rightarrow> 'auth \<Rightarrow> vote \<Rightarrow> bool \<Rightarrow> u64 \<Rightarrow> 'auth vote_watcher" where
  "update_upgrading_vote votes auth v compliant height = (case map_of votes auth of
       Some e \<Rightarrow>
         if ve_botanix_height e \<ge> height then votes
         else AList.update auth (e\<lparr>ve_vote := v, ve_is_compliant := compliant,
                                   ve_botanix_height := height\<rparr>) votes
     | None \<Rightarrow>
         AList.update auth \<lparr>ve_vote = v, ve_is_compliant = compliant,
                            ve_botanix_height = height\<rparr> votes)"

definition get_aye_votes :: "'auth vote_watcher \<Rightarrow> nat \<times> nat" where
  "get_aye_votes votes = (length (filter (\<lambda>(_, e). ve_vote e = Aye) votes), length votes)"

definition get_nay_votes :: "'auth vote_watcher \<Rightarrow> nat \<times> nat" where
  "get_nay_votes votes = (length (filter (\<lambda>(_, e). ve_vote e = Nay) votes), length votes)"

definition get_abstained_votes :: "'auth vote_watcher \<Rightarrow> nat \<times> nat" where
  "get_abstained_votes votes =
     (length (filter (\<lambda>(_, e). ve_vote e = Abstain) votes), length votes)"

definition get_compliance_count :: "'auth vote_watcher \<Rightarrow> nat \<times> nat" where
  "get_compliance_count votes =
     (length (filter (\<lambda>(_, e). ve_is_compliant e) votes), length votes)"

text \<open>Both approval rates divide by the larger of the number of voters and the configured
  minimum; \<open>div_ceil\<close> panics when that is zero.\<close>

typedecl provider_error

definition get_upgrading_approval_rate_ayes ::
    "'auth vote_watcher \<Rightarrow> nat \<Rightarrow> (provider_error, nat \<times> nat) result" where
  "get_upgrading_approval_rate_ayes votes min_validator_count =
     (let total = max (length votes) min_validator_count;
          votes_received = length (filter (\<lambda>(_, e). ve_vote e = Aye) votes)
      in if total = 0 then Panic else Ok (div_ceil (votes_received * 100) total, total))"

definition get_upgrading_approval_rate_compliance ::
    "'auth vote_watcher \<Rightarrow> nat \<Rightarrow> (provider_error, nat \<times> nat) result" where
  "get_upgrading_approval_rate_compliance votes min_validator_count =
     (let total = max (length votes) min_validator_count;
          votes_received = length (filter (\<lambda>(_, e). ve_is_compliant e) votes)
      in if total = 0 then Panic else Ok (div_ceil (votes_received * 100) total, total))"

definition remove_upgrading_votes ::
    "'auth vote_watcher \<Rightarrow> u64 \<Rightarrow> nat \<times> 'auth vote_watcher" where
  "remove_upgrading_votes votes botanix_height =
     (let votes' = retain (\<lambda>_ e. ve_botanix_height e \<ge> botanix_height) votes
      in (length votes - length votes', votes'))"

section \<open>The contract of the trait\<close>

text \<open>
  What \<open>ActivationManagerReaderWriter\<close> promises its client, over the entry it holds for each
  validator (\<open>entry\<close>): a vote replaces an earlier one only when its height is greater, pruning
  removes exactly the votes below a height, and the counts never exceed the number of voters.
\<close>

locale vote_ledger =
  fixes invar :: "'s \<Rightarrow> bool"
    and entry :: "'s \<Rightarrow> 'auth \<Rightarrow> vote_entry option"
    and update :: "'s \<Rightarrow> 'auth \<Rightarrow> vote \<Rightarrow> bool \<Rightarrow> u64 \<Rightarrow> 's"
    and prune :: "'s \<Rightarrow> u64 \<Rightarrow> nat \<times> 's"
  assumes invar_update: "invar s \<Longrightarrow> invar (update s a v c h)"
    and invar_prune: "invar s \<Longrightarrow> invar (snd (prune s h))"
    and entry_update: "invar s \<Longrightarrow> entry (update s a v c h) b =
      (if a = b \<and> (\<forall>e. entry s a = Some e \<longrightarrow> ve_botanix_height e < h)
       then Some \<lparr>ve_vote = v, ve_is_compliant = c, ve_botanix_height = h\<rparr>
       else entry s b)"
    and entry_prune: "invar s \<Longrightarrow> entry (snd (prune s h)) b =
      (case entry s b of None \<Rightarrow> None
       | Some e \<Rightarrow> if h \<le> ve_botanix_height e then Some e else None)"
begin

text \<open>A vote at a height at least that of every vote it meets is the one kept.\<close>

lemma entry_update_latest:
  assumes "invar s" and "\<And>e. entry s a = Some e \<Longrightarrow> ve_botanix_height e < h"
  shows "entry (update s a v c h) a =
    Some \<lparr>ve_vote = v, ve_is_compliant = c, ve_botanix_height = h\<rparr>"
  using assms by (simp add: entry_update)

text \<open>Pruning above every height empties the ledger.\<close>

lemma prune_all:
  assumes "invar s" and "\<And>b e. entry s b = Some e \<Longrightarrow> ve_botanix_height e < h"
  shows "entry (snd (prune s h)) b = None"
proof (cases "entry s b")
  case None
  then show ?thesis using assms(1) by (simp add: entry_prune)
next
  case (Some e)
  then have "ve_botanix_height e < h" by (rule assms(2))
  with Some assms(1) show ?thesis by (simp add: entry_prune)
qed

text \<open>What is left after a vote at height \<open>h\<close> and a pruning below \<open>p\<close> lies in the window.\<close>

lemma update_prune_window:
  assumes "invar s" and "\<And>b e. entry s b = Some e \<Longrightarrow> ve_botanix_height e \<le> h"
    and "entry (snd (prune (update s a v c h) p)) b = Some e"
  shows "p \<le> ve_botanix_height e \<and> ve_botanix_height e \<le> h"
proof -
  from assms(3) have up: "entry (update s a v c h) b = Some e" and p: "p \<le> ve_botanix_height e"
    using invar_update [OF assms(1)] by (auto simp: entry_prune split: option.splits if_splits)
  from up have "ve_botanix_height e \<le> h"
    using assms(1,2) by (auto simp: entry_update split: if_splits)
  with p show ?thesis by simp
qed

end

section \<open>The watcher implements the contract\<close>

lemma wf_update_upgrading_vote: "wf_map w \<Longrightarrow> wf_map (update_upgrading_vote w a v c h)"
  by (simp add: update_upgrading_vote_def split: option.split)

lemma wf_remove_upgrading_votes: "wf_map w \<Longrightarrow> wf_map (snd (remove_upgrading_votes w h))"
  by (simp add: remove_upgrading_votes_def Let_def)

lemma map_of_update_upgrading_vote:
  "map_of (update_upgrading_vote w a v c h) b =
     (if a = b \<and> (\<forall>e. map_of w a = Some e \<longrightarrow> ve_botanix_height e < h)
      then Some \<lparr>ve_vote = v, ve_is_compliant = c, ve_botanix_height = h\<rparr>
      else map_of w b)"
  by (auto simp: update_upgrading_vote_def alist_simps not_le split: option.split)

lemma map_of_remove_upgrading_votes:
  "wf_map w \<Longrightarrow> map_of (snd (remove_upgrading_votes w h)) b =
     (case map_of w b of None \<Rightarrow> None
      | Some e \<Rightarrow> if h \<le> ve_botanix_height e then Some e else None)"
  by (simp add: remove_upgrading_votes_def Let_def alist_simps)

interpretation watcher: vote_ledger wf_map map_of update_upgrading_vote remove_upgrading_votes
  by unfold_locales
    (simp_all only: wf_update_upgrading_vote wf_remove_upgrading_votes
       map_of_update_upgrading_vote map_of_remove_upgrading_votes)

section \<open>Counts and rates\<close>

definition ayes_of :: "'auth vote_watcher \<Rightarrow> nat" where
  "ayes_of w = fst (get_aye_votes w)"

definition compliant_of :: "'auth vote_watcher \<Rightarrow> nat" where
  "compliant_of w = fst (get_compliance_count w)"

lemma ayes_le_length: "ayes_of w \<le> length w"
  by (simp add: ayes_of_def get_aye_votes_def)

lemma compliant_le_length: "compliant_of w \<le> length w"
  by (simp add: compliant_of_def get_compliance_count_def)

text \<open>The rates read as inequalities between counts: a rate of \<open>q\<close> percent is reached
  exactly when the votes exceed \<open>q - 1\<close> percent of the total.\<close>

lemma aye_rate_Ok:
  assumes "get_upgrading_approval_rate_ayes w m = Ok (q, t)"
  shows "t = max (length w) m" and "0 < t" and "q = div_ceil (ayes_of w * 100) t"
  using assms
  by (auto simp: get_upgrading_approval_rate_ayes_def ayes_of_def get_aye_votes_def Let_def
      less_max_iff_disj split: if_splits)

lemma compliance_rate_Ok:
  assumes "get_upgrading_approval_rate_compliance w m = Ok (q, t)"
  shows "t = max (length w) m" and "0 < t" and "q = div_ceil (compliant_of w * 100) t"
  using assms
  by (auto simp: get_upgrading_approval_rate_compliance_def compliant_of_def
      get_compliance_count_def Let_def less_max_iff_disj split: if_splits)

lemma rates_total:
  assumes "0 < m"
  shows "get_upgrading_approval_rate_ayes w m =
      Ok (div_ceil (ayes_of w * 100) (max (length w) m), max (length w) m)"
    and "get_upgrading_approval_rate_compliance w m =
      Ok (div_ceil (compliant_of w * 100) (max (length w) m), max (length w) m)"
  using assms
  by (simp_all add: get_upgrading_approval_rate_ayes_def ayes_of_def get_aye_votes_def
      get_upgrading_approval_rate_compliance_def compliant_of_def get_compliance_count_def Let_def)

lemma rate_at_most_100:
  assumes "k \<le> length w" and "0 < m"
  shows "div_ceil (k * 100) (max (length w) m) \<le> 100"
proof (rule div_ceil_le)
  have "k \<le> max (length w) m" using assms(1) by simp
  then show "k * 100 \<le> 100 * max (length w) m" by simp
  show "0 < max (length w) m" using assms(2) by simp
qed

lemma votes_partition:
  "fst (get_aye_votes w) + fst (get_nay_votes w) + fst (get_abstained_votes w) = length w"
proof (induction w)
  case Nil
  then show ?case
    by (simp add: get_aye_votes_def get_nay_votes_def get_abstained_votes_def)
next
  case (Cons x w)
  obtain a e where x: "x = (a, e)" by (cases x)
  show ?case
    using Cons by (cases "ve_vote e")
      (simp_all add: x get_aye_votes_def get_nay_votes_def get_abstained_votes_def)
qed

lemma u16_le_bytes_roundtrip: "u16_from_le_bytes (ucast w) (ucast (drop_bit 8 w)) = w"
  unfolding u16_from_le_bytes_def
  by (rule bit_word_eqI) (auto simp: bit_simps)

section \<open>Properties\<close>

text \<open>
  (C39) The stored form of a runtime version reads back: decompressing the four bytes that
  \<open>compress\<close> writes, whatever follows them in the buffer, gives the version.
\<close>

theorem version_roundtrip: "decompress_version (compress_version v @ rest) = Ok v"
  by (cases v)
    (simp add: compress_version_def decompress_version_def le_bytes_u16_def u16_le_bytes_roundtrip)

text \<open>
  The approval rate rounds up, so the quorum of 67 percent can be met by less than two thirds
  of the validators: 35 ayes of 53 validators are reported as a rate of 67.
\<close>

theorem rate_67_below_two_thirds:
  "get_upgrading_approval_rate_ayes
     (map (\<lambda>i. (i, \<lparr>ve_vote = (if i < 35 then Aye else Nay), ve_is_compliant = True,
                      ve_botanix_height = 1\<rparr>)) [0..<53]) 3 = Ok (67, 53) \<and>
   3 * (35::nat) < 2 * 53"
  by (simp add: get_upgrading_approval_rate_ayes_def div_ceil_def Let_def upt_rec)

end
