(* ===== verification/ActivationManager.thy ===== *)
theory ActivationManager
  imports VoteTracker
begin

text \<open>
  The activation manager (\<open>botanix-activation-manager/src/manager.rs\<close> and \<open>builder.rs\<close>): the
  three ABCI hooks that decide which runtime version a block may carry, the polling and
  forcing operations, and the builders. The manager's locks are dropped: every operation is a
  function on the state, and the operations that write return the new state. The assertions of
  the source, the debug ones included, are kept as panics. The lemmas show that no operation
  panics, that versions only grow, which blocks are accepted, proposed and finalized, and that
  the votes counted are the most recent ones inside the retention window.
\<close>

section \<open>State and decisions\<close>

definition MIN_QUORUM :: nat where "MIN_QUORUM = 67"
definition MIN_VALIDATOR_COUNT :: nat where "MIN_VALIDATOR_COUNT = 3"
definition VOTE_RETENTION_PERIOD :: u64 where "VOTE_RETENTION_PERIOD = 518400"
definition usize_MAX :: nat where "usize_MAX = 2 ^ 64 - 1"

record network_upgrade_payload =
  np_version :: runtime_version
  np_vote :: vote
  np_is_compliant :: bool

record network_upgrade =
  nu_version :: runtime_version
  nu_quorum :: nat
  nu_min_validator_count :: nat
  nu_target_height :: u64
  nu_our_vote :: vote
  nu_is_compliant :: bool

record condition_list =
  comp_req :: bool
  aye_approval_req :: bool
  comp_approval_req :: bool
  block_height_req :: bool

record polling =
  po_ayes :: nat
  po_nays :: nat
  po_abstained :: nat
  po_compliant :: nat
  po_total :: nat

record on_prepare_proposal_decision =
  pd_version :: runtime_version
  pd_vote :: "network_upgrade_payload option"
  pd_conditions :: "condition_list option"

datatype on_process_proposal_decision =
    Process runtime_version "condition_list option"
  | RejectBlock runtime_version "condition_list option"

datatype on_finalize_block_decision =
    Finalize runtime_version
  | RejectBlockDeadEnd runtime_version

record 'auth activation_manager =
  client :: "'auth vote_watcher"
  vote_retention_period :: u64
  active_version :: runtime_version
  upgrade :: "network_upgrade option"

definition all_passing :: "condition_list \<Rightarrow> bool" where
  "all_passing c \<longleftrightarrow>
     comp_req c \<and> aye_approval_req c \<and> comp_approval_req c \<and> block_height_req c"

section \<open>Operations\<close>

definition validate_conditions ::
    "'auth activation_manager \<Rightarrow> network_upgrade \<Rightarrow> u64 \<Rightarrow> (provider_error, condition_list) result" where
  "validate_conditions m u block_height =
     bind_result (get_upgrading_approval_rate_ayes (client m) (nu_min_validator_count u))
       (\<lambda>(aye_approval, total_votes).
     bind_result (get_upgrading_approval_rate_compliance (client m) (nu_min_validator_count u))
       (\<lambda>(comp_approval, t2).
     bind_result (assert_that (total_votes = t2)) (\<lambda>_.
     bind_result (assert_that (total_votes \<ge> nu_min_validator_count u)) (\<lambda>_.
       Ok \<lparr>comp_req = nu_is_compliant u,
           aye_approval_req = (aye_approval \<ge> nu_quorum u),
           comp_approval_req = (comp_approval \<ge> nu_quorum u),
           block_height_req = (block_height \<ge> nu_target_height u)\<rparr>))))"

definition on_prepare_proposal ::
    "'auth activation_manager \<Rightarrow> u64 \<Rightarrow> (provider_error, on_prepare_proposal_decision) result" where
  "on_prepare_proposal m block_height = (case upgrade m of
       Some u \<Rightarrow>
         bind_result (assert_that (nu_quorum u \<ge> MIN_QUORUM)) (\<lambda>_.
         let our_vote = Some \<lparr>np_version = nu_version u, np_vote = nu_our_vote u,
                              np_is_compliant = nu_is_compliant u\<rparr>
         in bind_result (validate_conditions m u block_height) (\<lambda>c.
           if all_passing c
           then Ok \<lparr>pd_version = nu_version u, pd_vote = our_vote, pd_conditions = Some c\<rparr>
           else Ok \<lparr>pd_version = active_version m, pd_vote = our_vote, pd_conditions = Some c\<rparr>))
     | None \<Rightarrow>
         Ok \<lparr>pd_version = active_version m, pd_vote = None, pd_conditions = None\<rparr>)"

definition on_process_proposal ::
    "'auth activation_manager \<Rightarrow> u64 \<Rightarrow> runtime_version \<Rightarrow>
     (provider_error, on_process_proposal_decision) result" where
  "on_process_proposal m block_height block_version =
     (let check_active = (\<lambda>conditions.
        if block_version = active_version m then Ok (Process (active_version m) conditions)
        else Ok (RejectBlock block_version conditions))
      in case upgrade m of
        Some u \<Rightarrow>
          bind_result (validate_conditions m u block_height) (\<lambda>c.
            if all_passing c \<and> block_version = nu_version u
            then Ok (Process (nu_version u) (Some c))
            else check_active (Some c))
      | None \<Rightarrow> check_active None)"

definition abstained_vote :: "network_upgrade \<Rightarrow> network_upgrade_payload" where
  "abstained_vote u = \<lparr>np_version = nu_version u, np_vote = Abstain, np_is_compliant = False\<rparr>"

definition track_vote ::
    "'auth activation_manager \<Rightarrow> u64 \<Rightarrow> 'auth \<Rightarrow> network_upgrade_payload option \<Rightarrow>
     'auth activation_manager" where
  "track_vote m block_height addr v = (case upgrade m of
       None \<Rightarrow> m
     | Some u \<Rightarrow>
         let payload = (case v of
               Some p \<Rightarrow> if np_version p = nu_version u then p else abstained_vote u
             | None \<Rightarrow> abstained_vote u);
             votes = update_upgrading_vote (client m) addr (np_vote payload)
                       (np_is_compliant payload) block_height;
             prune_below = saturating_sub block_height (vote_retention_period m);
             (_, votes') = remove_upgrading_votes votes prune_below
         in m\<lparr>client := votes'\<rparr>)"

definition on_finalize_block ::
    "'auth activation_manager \<Rightarrow> runtime_version \<Rightarrow> u64 \<Rightarrow> 'auth \<Rightarrow>
     network_upgrade_payload option \<Rightarrow> on_finalize_block_decision \<times> 'auth activation_manager" where
  "on_finalize_block m block_version block_height proposer_address proposer_vote =
     (let m = track_vote m block_height proposer_address proposer_vote
      in if block_version \<le> active_version m then (Finalize block_version, m)
         else case upgrade m of
           Some u \<Rightarrow>
             let (_, votes) = remove_upgrading_votes (client m) (saturating_add block_height 1);
                 m = m\<lparr>client := votes\<rparr>
             in if block_version \<noteq> nu_version u then (RejectBlockDeadEnd block_version, m)
                else if \<not> nu_is_compliant u
                then (RejectBlockDeadEnd block_version, m\<lparr>upgrade := None\<rparr>)
                else (Finalize (nu_version u),
                      m\<lparr>active_version := nu_version u, upgrade := None\<rparr>)
         | None \<Rightarrow> (RejectBlockDeadEnd block_version, m))"

definition get_upgrade_polling ::
    "'auth activation_manager \<Rightarrow> (provider_error, (runtime_version \<times> polling) option) result" where
  "get_upgrade_polling m = (case upgrade m of
       None \<Rightarrow> Ok None
     | Some u \<Rightarrow>
         let (ayes, total) = get_aye_votes (client m);
             (nays, t2) = get_nay_votes (client m);
             (abstained, t3) = get_abstained_votes (client m);
             (compliant, t4) = get_compliance_count (client m)
         in bind_result (assert_that (total = t2 \<and> total = t3 \<and> total = t4)) (\<lambda>_.
            bind_result (assert_that (ayes + nays + abstained = total)) (\<lambda>_.
              Ok (Some (nu_version u,
                \<lparr>po_ayes = ayes, po_nays = nays, po_abstained = abstained,
                 po_compliant = compliant, po_total = total\<rparr>)))))"

definition force_upgrade_checked ::
    "'auth activation_manager \<Rightarrow> runtime_version \<Rightarrow> bool \<times> 'auth activation_manager" where
  "force_upgrade_checked m version = (case upgrade m of
       None \<Rightarrow> (False, m)
     | Some u \<Rightarrow>
         if nu_version u \<noteq> version then (False, m)
         else if \<not> nu_is_compliant u then (False, m)
         else (True, m\<lparr>upgrade := None, active_version := version\<rparr>))"

section \<open>Builders\<close>

record 'auth activation_manager_builder =
  b_client :: "'auth vote_watcher"
  b_active_version :: runtime_version
  b_vote_retention_period :: u64
  b_upgrade :: "network_upgrade option"

definition new_builder :: "'auth vote_watcher \<Rightarrow> runtime_version \<Rightarrow> 'auth activation_manager_builder" where
  "new_builder c version = \<lparr>b_client = c, b_active_version = version,
     b_vote_retention_period = VOTE_RETENTION_PERIOD, b_upgrade = None\<rparr>"

definition with_vote_retention_period ::
    "'auth activation_manager_builder \<Rightarrow> u64 \<Rightarrow> 'auth activation_manager_builder" where
  "with_vote_retention_period b period = b\<lparr>b_vote_retention_period := period\<rparr>"

definition finalize_builder :: "'auth activation_manager_builder \<Rightarrow> 'auth activation_manager" where
  "finalize_builder b = \<lparr>client = b_client b, vote_retention_period = b_vote_retention_period b,
     active_version = b_active_version b, upgrade = b_upgrade b\<rparr>"

definition build_ignore_nework_upgrade ::
    "'auth activation_manager_builder \<Rightarrow> (provider_error, 'auth activation_manager) result" where
  "build_ignore_nework_upgrade b =
     bind_result (assert_that (b_upgrade b = None)) (\<lambda>_. Ok (finalize_builder b))"

definition build_signal_network_upgrade ::
    "'auth activation_manager_builder \<Rightarrow> runtime_version \<Rightarrow> vote \<Rightarrow>
     (provider_error, 'auth activation_manager) result" where
  "build_signal_network_upgrade b upgrade_version our_vote =
     bind_result (assert_that (b_active_version b < upgrade_version)) (\<lambda>_.
       Ok (finalize_builder (b\<lparr>b_upgrade := Some
         \<lparr>nu_version = upgrade_version, nu_quorum = usize_MAX,
          nu_min_validator_count = usize_MAX, nu_target_height = - 1,
          nu_our_vote = our_vote, nu_is_compliant = False\<rparr>\<rparr>)))"

definition build_COMPLIANT_network_upgrade ::
    "'auth activation_manager_builder \<Rightarrow> runtime_version \<Rightarrow> nat \<Rightarrow> nat \<Rightarrow> u64 \<Rightarrow> vote option \<Rightarrow>
     (provider_error, 'auth activation_manager) result" where
  "build_COMPLIANT_network_upgrade b upgrade_version quorum min_validator_count target_height our_vote =
     bind_result (assert_that (b_active_version b < upgrade_version)) (\<lambda>_.
     bind_result (assert_that (quorum \<ge> MIN_QUORUM)) (\<lambda>_.
     bind_result (assert_that (min_validator_count \<ge> MIN_VALIDATOR_COUNT)) (\<lambda>_.
       Ok (finalize_builder (b\<lparr>b_upgrade := Some
         \<lparr>nu_version = upgrade_version, nu_quorum = quorum,
          nu_min_validator_count = min_validator_count, nu_target_height = target_height,
          nu_our_vote = (case our_vote of Some v \<Rightarrow> v | None \<Rightarrow> Aye), nu_is_compliant = True\<rparr>\<rparr>)))))"

section \<open>Runs of the manager\<close>

text \<open>Only finalizing a block and forcing an upgrade write the state.\<close>

inductive mgr_step :: "'auth activation_manager \<Rightarrow> 'auth activation_manager \<Rightarrow> bool" where
  step_finalize: "on_finalize_block m version height proposer v = (d, m') \<Longrightarrow> mgr_step m m'"
| step_force: "force_upgrade_checked m version = (b, m') \<Longrightarrow> mgr_step m m'"

inductive built :: "'auth activation_manager \<Rightarrow> bool" where
  built_ignore: "wf_map c \<Longrightarrow> build_ignore_nework_upgrade
     (with_vote_retention_period (new_builder c version) period) = Ok m \<Longrightarrow> built m"
| built_signal: "wf_map c \<Longrightarrow> build_signal_network_upgrade
     (with_vote_retention_period (new_builder c version) period) v our_vote = Ok m \<Longrightarrow> built m"
| built_compliant: "wf_map c \<Longrightarrow> build_COMPLIANT_network_upgrade
     (with_vote_retention_period (new_builder c version) period) v q n h our_vote = Ok m \<Longrightarrow> built m"

inductive reachable_mgr :: "'auth activation_manager \<Rightarrow> bool" where
  reach_built: "built m \<Longrightarrow> reachable_mgr m"
| reach_step: "reachable_mgr m \<Longrightarrow> mgr_step m m' \<Longrightarrow> reachable_mgr m'"

text \<open>What every reachable manager satisfies: one entry per validator, and a pending upgrade is
  newer than the active version and was configured with at least the minimum quorum.\<close>

definition upgrade_ok :: "runtime_version \<Rightarrow> network_upgrade \<Rightarrow> bool" where
  "upgrade_ok version u \<longleftrightarrow> version < nu_version u \<and> MIN_QUORUM \<le> nu_quorum u \<and>
     MIN_VALIDATOR_COUNT \<le> nu_min_validator_count u"

definition mgr_inv :: "'auth activation_manager \<Rightarrow> bool" where
  "mgr_inv m \<longleftrightarrow> wf_map (client m) \<and> pred_option (upgrade_ok (active_version m)) (upgrade m)"

definition total_of :: "'auth vote_watcher \<Rightarrow> network_upgrade \<Rightarrow> nat" where
  "total_of w u = max (length w) (nu_min_validator_count u)"

text \<open>When an upgrade may activate: the node is compliant, both counts exceed the quorum and
  the target height is reached.\<close>

definition may_activate :: "'auth vote_watcher \<Rightarrow> network_upgrade \<Rightarrow> u64 \<Rightarrow> bool" where
  "may_activate w u h \<longleftrightarrow> nu_is_compliant u \<and> nu_target_height u \<le> h \<and>
     nu_quorum u * total_of w u < ayes_of w * 100 + total_of w u \<and>
     nu_quorum u * total_of w u < compliant_of w * 100 + total_of w u"

text \<open>A finalized block as the hook sees it, a run of such blocks, and the entry the last block
  of a validator asks for: its vote when it names the tracked upgrade, an abstention otherwise.\<close>

type_synonym 'auth finalized_block =
  "runtime_version \<times> u64 \<times> 'auth \<times> network_upgrade_payload option"

fun finalize_all :: "'auth activation_manager \<Rightarrow> 'auth finalized_block list \<Rightarrow> 'auth activation_manager" where
  "finalize_all m [] = m"
| "finalize_all m ((version, height, a, p) # bs) =
     finalize_all (snd (on_finalize_block m version height a p)) bs"

definition block_height_of :: "'auth finalized_block \<Rightarrow> u64" where
  "block_height_of b = fst (snd b)"

definition cast_entry :: "network_upgrade \<Rightarrow> u64 \<Rightarrow> network_upgrade_payload option \<Rightarrow> vote_entry" where
  "cast_entry u height p = (case p of
       Some q \<Rightarrow> if np_version q = nu_version u
                 then \<lparr>ve_vote = np_vote q, ve_is_compliant = np_is_compliant q, ve_botanix_height = height\<rparr>
                 else \<lparr>ve_vote = Abstain, ve_is_compliant = False, ve_botanix_height = height\<rparr>
     | None \<Rightarrow> \<lparr>ve_vote = Abstain, ve_is_compliant = False, ve_botanix_height = height\<rparr>)"

fun last_vote :: "network_upgrade \<Rightarrow> 'auth finalized_block list \<Rightarrow> 'auth \<Rightarrow> vote_entry option" where
  "last_vote u [] a = None"
| "last_vote u ((version, height, b, p) # bs) a = (case last_vote u bs a of
       Some e \<Rightarrow> Some e
     | None \<Rightarrow> if a = b then Some (cast_entry u height p) else None)"

definition window_start :: "u64 \<Rightarrow> 'auth finalized_block list \<Rightarrow> u64" where
  "window_start period bs = (if bs = [] then 0 else saturating_sub (block_height_of (last bs)) period)"

definition in_window :: "u64 \<Rightarrow> vote_entry option \<Rightarrow> vote_entry option" where
  "in_window start e = (case e of None \<Rightarrow> None
     | Some e \<Rightarrow> if start \<le> ve_botanix_height e then Some e else None)"

text \<open>The blocks since the last one that was newer than the active version \<open>v\<close>, whether the tracked upgrade
  was decided in a run, and the vote of a validator that counts after it.\<close>

definition voting_blocks :: "runtime_version \<Rightarrow> 'auth finalized_block list \<Rightarrow> 'auth finalized_block list" where
  "voting_blocks v bs = rev (takeWhile (\<lambda>b. fst b \<le> v) (rev bs))"

definition decided :: "network_upgrade \<Rightarrow> runtime_version \<Rightarrow> 'auth finalized_block list \<Rightarrow> bool" where
  "decided u v bs \<longleftrightarrow> list_ex (\<lambda>b. v < fst b \<and> fst b = nu_version u) bs"

definition counted_vote ::
    "'auth activation_manager \<Rightarrow> network_upgrade \<Rightarrow> 'auth finalized_block list \<Rightarrow> 'auth \<Rightarrow> vote_entry option" where
  "counted_vote m u bs a = (let vs = voting_blocks (active_version m) bs in
     if decided u (active_version m) bs then None
     else in_window (window_start (vote_retention_period m) vs) (case last_vote u vs a of
         Some e \<Rightarrow> Some e
       | None \<Rightarrow> if vs = bs then map_of (client m) a else None))"

text \<open>A concrete manager: four validators, three of them in favour, an upgrade of version 1.0
  to 2.0 due at height 100.\<close>

definition sample_votes :: "nat vote_watcher" where
  "sample_votes =
     [(0, \<lparr>ve_vote = Aye, ve_is_compliant = True, ve_botanix_height = 96\<rparr>),
      (1, \<lparr>ve_vote = Aye, ve_is_compliant = True, ve_botanix_height = 97\<rparr>),
      (2, \<lparr>ve_vote = Nay, ve_is_compliant = False, ve_botanix_height = 98\<rparr>),
      (3, \<lparr>ve_vote = Aye, ve_is_compliant = True, ve_botanix_height = 99\<rparr>)]"

definition sample_upgrade :: network_upgrade where
  "sample_upgrade = \<lparr>nu_version = RuntimeVersion 2 0, nu_quorum = 67, nu_min_validator_count = 3,
     nu_target_height = 100, nu_our_vote = Aye, nu_is_compliant = True\<rparr>"

definition sample_manager :: "nat activation_manager" where
  "sample_manager = \<lparr>client = sample_votes, vote_retention_period = 50,
     active_version = RuntimeVersion 1 0, upgrade = Some sample_upgrade\<rparr>"

section \<open>Lemmas\<close>

lemmas builder_defs = build_ignore_nework_upgrade_def build_signal_network_upgrade_def
  build_COMPLIANT_network_upgrade_def finalize_builder_def with_vote_retention_period_def
  new_builder_def

lemma built_inv: "built m \<Longrightarrow> mgr_inv m"
  by (induction rule: built.induct)
    (auto simp: builder_defs result_simps mgr_inv_def upgrade_ok_def usize_MAX_def
      MIN_QUORUM_def MIN_VALIDATOR_COUNT_def)

lemma track_vote_fields [simp]:
  "active_version (track_vote m h a v) = active_version m"
  "upgrade (track_vote m h a v) = upgrade m"
  "vote_retention_period (track_vote m h a v) = vote_retention_period m"
  by (simp_all add: track_vote_def Let_def split: option.split prod.split)

lemma track_vote_wf: "wf_map (client m) \<Longrightarrow> wf_map (client (track_vote m h a v))"
  by (simp add: track_vote_def Let_def case_prod_beta wf_update_upgrading_vote
      wf_remove_upgrading_votes split: option.split)

lemma finalize_cases:
  assumes "on_finalize_block m version h a v = (d, m')"
  obtains (old) "version \<le> active_version m" "d = Finalize version" "m' = track_vote m h a v"
  | (unknown) "active_version m < version" "upgrade m = None"
      "d = RejectBlockDeadEnd version" "m' = track_vote m h a v"
  | (mismatch) u c where "active_version m < version" "upgrade m = Some u" "version \<noteq> nu_version u"
      "d = RejectBlockDeadEnd version" "m' = (track_vote m h a v)\<lparr>client := c\<rparr>"
      "c = snd (remove_upgrading_votes (client (track_vote m h a v)) (saturating_add h 1))"
  | (refused) u c where "active_version m < version" "upgrade m = Some u" "version = nu_version u"
      "\<not> nu_is_compliant u" "d = RejectBlockDeadEnd version"
      "m' = (track_vote m h a v)\<lparr>client := c, upgrade := None\<rparr>"
      "c = snd (remove_upgrading_votes (client (track_vote m h a v)) (saturating_add h 1))"
  | (activated) u c where "active_version m < version" "upgrade m = Some u" "version = nu_version u"
      "nu_is_compliant u" "d = Finalize version"
      "m' = (track_vote m h a v)\<lparr>client := c, active_version := version, upgrade := None\<rparr>"
      "c = snd (remove_upgrading_votes (client (track_vote m h a v)) (saturating_add h 1))"
proof (cases "version \<le> active_version m")
  case True
  with assms old show ?thesis by (simp add: on_finalize_block_def Let_def)
next
  case False
  then have lt: "active_version m < version" by simp
  show ?thesis
  proof (cases "upgrade m")
    case None
    with assms lt False unknown show ?thesis
      by (simp add: on_finalize_block_def Let_def)
  next
    case (Some u)
    note eval = assms [unfolded on_finalize_block_def Let_def case_prod_beta]
    consider "version \<noteq> nu_version u" | "version = nu_version u" "\<not> nu_is_compliant u"
      | "version = nu_version u" "nu_is_compliant u" by blast
    then show ?thesis
      by cases (use eval lt False Some mismatch refused activated in simp_all)
  qed
qed

lemma force_cases:
  assumes "force_upgrade_checked m version = (b, m')"
  obtains (kept) "\<not> b" "m' = m"
  | (forced) u where "b" "upgrade m = Some u" "nu_version u = version" "nu_is_compliant u"
      "m' = m\<lparr>upgrade := None, active_version := version\<rparr>"
  using assms by (auto simp: force_upgrade_checked_def split: if_splits option.splits)

lemma mgr_step_inv:
  assumes "mgr_step m m'" and "mgr_inv m"
  shows "mgr_inv m'"
  using assms
proof (induction rule: mgr_step.induct)
  case (step_finalize m version height proposer v d m')
  have wf: "wf_map (client (track_vote m height proposer v))"
    using step_finalize.prems by (simp add: mgr_inv_def track_vote_wf)
  from step_finalize.hyps show ?case
    by (cases rule: finalize_cases)
      (use step_finalize.prems wf wf_remove_upgrading_votes [OF wf] in \<open>simp_all add: mgr_inv_def\<close>)
next
  case (step_force m version b m')
  from step_force.hyps show ?case
    by (cases rule: force_cases) (use step_force.prems in \<open>simp_all add: mgr_inv_def\<close>)
qed

lemma reachable_inv: "reachable_mgr m \<Longrightarrow> mgr_inv m"
  by (induction rule: reachable_mgr.induct) (auto intro: built_inv mgr_step_inv)

lemma mgr_step_version_mono:
  assumes "mgr_step m m'" and "mgr_inv m"
  shows "active_version m \<le> active_version m'"
  using assms
proof (induction rule: mgr_step.induct)
  case (step_finalize m version height proposer v d m')
  from step_finalize.hyps show ?case
    by (cases rule: finalize_cases) auto
next
  case (step_force m version b m')
  from step_force.hyps show ?case
    by (cases rule: force_cases) (use step_force.prems in \<open>auto simp: mgr_inv_def upgrade_ok_def\<close>)
qed

lemma mgr_step_upgrade: "mgr_step m m' \<Longrightarrow> upgrade m' = upgrade m \<or> upgrade m' = None"
proof (induction rule: mgr_step.induct)
  case (step_finalize m version height proposer v d m')
  then show ?case by (cases rule: finalize_cases) auto
next
  case (step_force m version b m')
  then show ?case by (cases rule: force_cases) auto
qed

lemma mgr_step_no_compliance:
  assumes "mgr_step m m'" and "pred_option (\<lambda>u. \<not> nu_is_compliant u) (upgrade m)"
  shows "active_version m' = active_version m"
  using assms
proof (induction rule: mgr_step.induct)
  case (step_finalize m version height proposer v d m')
  from step_finalize.hyps show ?case
    by (cases rule: finalize_cases) (use step_finalize.prems in auto)
next
  case (step_force m version b m')
  from step_force.hyps show ?case
    by (cases rule: force_cases) (use step_force.prems in auto)
qed

text \<open>The conditions of an upgrade, as inequalities between the votes counted.\<close>

lemma validate_conditions_Ok:
  assumes "upgrade_ok v u"
  shows "validate_conditions m u h = Ok
    \<lparr>comp_req = nu_is_compliant u,
     aye_approval_req = (nu_quorum u * total_of (client m) u
        < ayes_of (client m) * 100 + total_of (client m) u),
     comp_approval_req = (nu_quorum u * total_of (client m) u
        < compliant_of (client m) * 100 + total_of (client m) u),
     block_height_req = (nu_target_height u \<le> h)\<rparr>"
proof -
  from assms have m: "0 < nu_min_validator_count u"
    by (simp add: upgrade_ok_def MIN_VALIDATOR_COUNT_def)
  have t: "0 < max (length (client m)) (nu_min_validator_count u)" using m by simp
  show ?thesis
    by (simp add: validate_conditions_def rates_total [OF m] assert_that_def
        div_ceil_ge_iff [OF t] total_of_def)
qed

lemma all_passing_conditions:
  "all_passing \<lparr>comp_req = nu_is_compliant u,
     aye_approval_req = (nu_quorum u * total_of w u < ayes_of w * 100 + total_of w u),
     comp_approval_req = (nu_quorum u * total_of w u < compliant_of w * 100 + total_of w u),
     block_height_req = (nu_target_height u \<le> h)\<rparr> \<longleftrightarrow> may_activate w u h"
  by (auto simp: all_passing_def may_activate_def)

lemma process_Ok:
  assumes "mgr_inv m"
  shows "\<exists>c. on_process_proposal m h v = Ok
    (if v = active_version m \<or> (\<exists>u. upgrade m = Some u \<and> v = nu_version u \<and> may_activate (client m) u h)
     then Process v c else RejectBlock v c)"
proof (cases "upgrade m")
  case None
  then show ?thesis by (auto simp: on_process_proposal_def Let_def)
next
  case (Some u)
  with assms have "upgrade_ok (active_version m) u" by (simp add: mgr_inv_def)
  note c = validate_conditions_Ok [OF this, of m h]
  show ?thesis
    using Some by (auto simp: on_process_proposal_def Let_def c all_passing_conditions)
qed

lemma prepare_Ok:
  assumes "mgr_inv m"
  shows "\<exists>c. on_prepare_proposal m h = Ok
    \<lparr>pd_version = (case upgrade m of None \<Rightarrow> active_version m
       | Some u \<Rightarrow> if may_activate (client m) u h then nu_version u else active_version m),
     pd_vote = map_option (\<lambda>u. \<lparr>np_version = nu_version u, np_vote = nu_our_vote u,
                                np_is_compliant = nu_is_compliant u\<rparr>) (upgrade m),
     pd_conditions = c\<rparr>"
proof (cases "upgrade m")
  case None
  then show ?thesis by (auto simp: on_prepare_proposal_def)
next
  case (Some u)
  with assms have ok: "upgrade_ok (active_version m) u" by (simp add: mgr_inv_def)
  note c = validate_conditions_Ok [OF this, of m h]
  from ok have "MIN_QUORUM \<le> nu_quorum u" by (simp add: upgrade_ok_def)
  then show ?thesis
    using Some by (auto simp: on_prepare_proposal_def Let_def c all_passing_conditions assert_that_def)
qed

lemma polling_Ok:
  "\<exists>p. get_upgrade_polling m = Ok p"
proof (cases "upgrade m")
  case None
  then show ?thesis by (simp add: get_upgrade_polling_def)
next
  case (Some u)
  have "length (filter (\<lambda>(_, e). ve_vote e = Aye) (client m)) +
      length (filter (\<lambda>(_, e). ve_vote e = Nay) (client m)) +
      length (filter (\<lambda>(_, e). ve_vote e = Abstain) (client m)) = length (client m)"
    using votes_partition [of "client m"]
    by (simp add: get_aye_votes_def get_nay_votes_def get_abstained_votes_def)
  then show ?thesis
    using Some
    by (simp add: get_upgrade_polling_def get_aye_votes_def get_nay_votes_def
        get_abstained_votes_def get_compliance_count_def assert_that_def)
qed

subsection \<open>The votes a run of blocks leaves\<close>

lemma finalize_all_append: "finalize_all m (bs @ cs) = finalize_all (finalize_all m bs) cs"
  by (induction m bs rule: finalize_all.induct) auto

lemma last_vote_snoc:
  "last_vote u (bs @ [(version, height, b, p)]) a =
     (if a = b then Some (cast_entry u height p) else last_vote u bs a)"
  by (induction u bs a rule: last_vote.induct) auto

lemma last_vote_height:
  "last_vote u bs a = Some e \<Longrightarrow> ve_botanix_height e \<in> block_height_of ` set bs"
proof (induction u bs a rule: last_vote.induct)
  case (1 u a)
  then show ?case by simp
next
  case (2 u version height b p bs a)
  then show ?case
    by (auto simp: cast_entry_def block_height_of_def split: option.splits if_splits)
qed

lemma finalize_old_version:
  assumes "version \<le> active_version m"
  shows "on_finalize_block m version h a p = (Finalize version, track_vote m h a p)"
  using assms by (simp add: on_finalize_block_def Let_def)

lemma track_vote_entries:
  assumes "upgrade m = Some u" and "wf_map (client m)"
    and "\<And>e. map_of (client m) a = Some e \<Longrightarrow> ve_botanix_height e < h"
  shows "map_of (client (track_vote m h a p)) b =
    in_window (saturating_sub h (vote_retention_period m))
      (if b = a then Some (cast_entry u h p) else map_of (client m) b)"
proof -
  have upd: "map_of (update_upgrading_vote (client m) a v c h) b =
      (if a = b then Some \<lparr>ve_vote = v, ve_is_compliant = c, ve_botanix_height = h\<rparr>
       else map_of (client m) b)" for v c
    using assms(3) by (auto simp: map_of_update_upgrading_vote)
  show ?thesis
    using assms(1)
    by (auto simp: track_vote_def Let_def case_prod_beta in_window_def cast_entry_def abstained_vote_def
        map_of_remove_upgrading_votes [OF wf_update_upgrading_vote [OF assms(2)]] upd
        split: option.split)
qed

lemma saturating_sub_mono: "a \<le> b \<Longrightarrow> saturating_sub a c \<le> saturating_sub b c"
  by (simp add: word_le_nat_alt unat_saturating_sub)

lemma in_window_in_window: "s \<le> t \<Longrightarrow> in_window t (in_window s e) = in_window t e"
  by (auto simp: in_window_def split: option.split)

lemma voting_blocks_snoc:
  "voting_blocks v (bs @ [x]) = (if fst x \<le> v then voting_blocks v bs @ [x] else [])"
  by (simp add: voting_blocks_def)

lemma set_voting_blocks: "set (voting_blocks v bs) \<subseteq> set bs"
  using set_takeWhileD by (fastforce simp: voting_blocks_def)

lemma counted_vote_height:
  assumes "counted_vote m u bs a = Some e"
  shows "ve_botanix_height e \<in> block_height_of ` set bs \<or> map_of (client m) a = Some e"
proof -
  from assms have "last_vote u (voting_blocks (active_version m) bs) a = Some e \<or> map_of (client m) a = Some e"
    by (auto simp: counted_vote_def Let_def in_window_def split: if_splits option.splits)
  with last_vote_height [of u _ a e] set_voting_blocks [of "active_version m" bs] show ?thesis by blast
qed

text \<open>The next block, by its version.\<close>

lemma counted_vote_old:
  assumes "\<not> decided u (active_version m) bs" and "version \<le> active_version m"
    and "\<forall>g \<in> block_height_of ` set bs. g < h"
  shows "counted_vote m u (bs @ [(version, h, b, p)]) a =
    in_window (saturating_sub h (vote_retention_period m))
      (if a = b then Some (cast_entry u h p) else counted_vote m u bs a)"
proof -
  let ?R = "vote_retention_period m" and ?vs = "voting_blocks (active_version m) bs"
  have start: "window_start ?R ?vs \<le> saturating_sub h ?R"
  proof (cases "?vs = []")
    case False
    then have "block_height_of (last ?vs) \<in> block_height_of ` set bs"
      using last_in_set set_voting_blocks [of "active_version m" bs] by blast
    with assms(3) have "block_height_of (last ?vs) \<le> h" by (intro less_imp_le) (rule bspec)
    with False show ?thesis by (simp add: window_start_def saturating_sub_mono)
  qed (simp add: window_start_def)
  have "\<not> decided u (active_version m) (bs @ [(version, h, b, p)])" using assms(1,2) by (auto simp: decided_def)
  moreover have "window_start ?R (?vs @ [(version, h, b, p)]) = saturating_sub h ?R"
    by (simp add: window_start_def block_height_of_def)
  ultimately show ?thesis
    using assms(1,2) by (simp add: counted_vote_def Let_def voting_blocks_snoc last_vote_snoc in_window_in_window [OF start])
qed

lemma counted_vote_newer:
  assumes "decided u (active_version m) bs \<or> \<not> version \<le> active_version m"
  shows "counted_vote m u (bs @ [(version, h, b, p)]) a = None"
proof -
  from assms have "decided u (active_version m) (bs @ [(version, h, b, p)]) \<or>
      voting_blocks (active_version m) (bs @ [(version, h, b, p)]) = []"
    by (auto simp: decided_def voting_blocks_snoc)
  then show ?thesis by (auto simp: counted_vote_def Let_def in_window_def)
qed

lemma pruned_all:
  assumes "wf_map w" and "\<And>e. map_of w a = Some e \<Longrightarrow> ve_botanix_height e \<le> h" and "h \<noteq> - 1"
  shows "map_of (snd (remove_upgrading_votes w (saturating_add h 1))) a = None"
proof -
  have "unat (- 1 :: u64) = 2 ^ 64 - 1" by (simp add: unsigned_minus_1_eq_mask mask_eq_exp_minus_1)
  with assms(3) have "unat h \<noteq> 2 ^ 64 - 1" by (metis unsigned_word_eqI)
  with unat_u64_less [of h] have "h < saturating_add h 1"
    by (simp add: word_less_nat_alt unat_saturating_add)
  with assms(2) show ?thesis by (fastforce simp: map_of_remove_upgrading_votes [OF assms(1)] split: option.split)
qed

lemma finalize_all_ledger:
  assumes "upgrade m = Some u" and "wf_map (client m)"
    and "list_all (\<lambda>(_, e). list_all (\<lambda>b. ve_botanix_height e < block_height_of b) bs) (client m)"
    and "list_all (\<lambda>b. block_height_of b \<noteq> - 1) bs" and "sorted_wrt (<) (map block_height_of bs)"
  shows "wf_map (client (finalize_all m bs)) \<and>
    vote_retention_period (finalize_all m bs) = vote_retention_period m \<and>
    (\<forall>a. map_of (client (finalize_all m bs)) a = counted_vote m u bs a) \<and>
    (if decided u (active_version m) bs then upgrade (finalize_all m bs) = None
     else upgrade (finalize_all m bs) = Some u \<and> active_version (finalize_all m bs) = active_version m)"
  using assms(3-5)
proof (induction bs rule: rev_induct)
  case Nil
  then show ?case
    using assms(1,2) by (simp add: counted_vote_def voting_blocks_def decided_def window_start_def in_window_def
        split: option.split)
next
  case (snoc x bs)
  obtain version h b p where x: "x = (version, h, b, p)" by (cases x)
  let ?m = "finalize_all m bs" and ?v = "active_version m"
  from snoc.prems have IH: "wf_map (client ?m)" "vote_retention_period ?m = vote_retention_period m"
    "\<And>a. map_of (client ?m) a = counted_vote m u bs a"
    "if decided u ?v bs then upgrade ?m = None else upgrade ?m = Some u \<and> active_version ?m = ?v"
    and less: "\<forall>g \<in> block_height_of ` set bs. g < h" and max: "h \<noteq> - 1"
    using snoc.IH by (simp_all add: sorted_wrt_append x block_height_of_def list_all_iff case_prod_beta)
  have lt: "ve_botanix_height e < h" if "map_of (client ?m) a = Some e" for a e
  proof -
    from that have "ve_botanix_height e \<in> block_height_of ` set bs \<or> map_of (client m) a = Some e"
      using counted_vote_height [of m u bs a e] IH(3) by simp
    with less snoc.prems(1) show ?thesis by (auto simp: x block_height_of_def list_all_iff dest!: map_of_SomeD)
  qed
  have step: "finalize_all m (bs @ [x]) = snd (on_finalize_block ?m version h b p)"
    by (simp add: finalize_all_append x)
  consider "decided u ?v bs" | "\<not> decided u ?v bs" "version \<le> ?v" | "\<not> decided u ?v bs" "\<not> version \<le> ?v" by blast
  then show ?case
  proof cases
    case 1
    with IH(4) have none: "upgrade ?m = None" by simp
    then have "snd (on_finalize_block ?m version h b p) = ?m"
      by (simp add: on_finalize_block_def track_vote_def Let_def)
    moreover have "counted_vote m u bs a = None" for a using 1 by (simp add: counted_vote_def)
    moreover have "decided u ?v (bs @ [x])" using 1 by (simp add: decided_def)
    ultimately show ?thesis
      using IH none counted_vote_newer [OF disjI1, OF 1] unfolding step unfolding x by simp
  next
    case 2
    with IH(4) have m: "upgrade ?m = Some u" "active_version ?m = ?v" by simp_all
    then have eq: "snd (on_finalize_block ?m version h b p) = track_vote ?m h b p"
      using 2(2) by (simp add: finalize_old_version)
    have "\<not> decided u ?v (bs @ [x])" using 2 by (auto simp: decided_def x)
    with m IH show ?thesis
      using track_vote_entries [OF m(1) IH(1) lt] counted_vote_old [OF 2 less]
      unfolding step eq unfolding x by (simp add: track_vote_wf)
  next
    case 3
    with IH(4) have m: "upgrade ?m = Some u" "active_version ?m = ?v" by simp_all
    let ?t = "track_vote ?m h b p"
    have wf: "wf_map (client ?t)" using IH(1) by (rule track_vote_wf)
    have "ve_botanix_height e \<le> h" if "map_of (client ?t) a = Some e" for a e
      using that lt [of a e]
      by (auto simp: track_vote_entries [OF m(1) IH(1) lt] in_window_def cast_entry_def less_imp_le split: if_splits option.splits)
    then have none: "map_of (snd (remove_upgrading_votes (client ?t) (saturating_add h 1))) a = None" for a
      by (intro pruned_all [OF wf _ max]) blast
    have "decided u ?v (bs @ [x]) \<longleftrightarrow> version = nu_version u"
      using 3 by (auto simp: decided_def x not_le)
    then show ?thesis
      using 3 m IH(2) none wf_remove_upgrading_votes [OF wf] counted_vote_newer [OF disjI2, OF 3(2)]
      unfolding step unfolding x by (auto simp: on_finalize_block_def Let_def case_prod_beta)
  qed
qed

lemma sample_reachable: "reachable_mgr sample_manager"
proof (rule reach_built, rule built_compliant)
  show "wf_map sample_votes" by (simp add: wf_map_def sample_votes_def)
  show "build_COMPLIANT_network_upgrade (with_vote_retention_period
      (new_builder sample_votes (RuntimeVersion 1 0)) 50) (RuntimeVersion 2 0) 67 3 100 (Some Aye) =
      Ok sample_manager"
    by (simp add: builder_defs new_builder_def less_version_iff sample_manager_def sample_upgrade_def
        MIN_QUORUM_def MIN_VALIDATOR_COUNT_def result_simps)
qed

lemmas sample_defs = sample_manager_def sample_upgrade_def sample_votes_def

lemma sample_process:
  "on_process_proposal sample_manager 100 (RuntimeVersion 2 0) =
     Ok (Process (RuntimeVersion 2 0) (Some \<lparr>comp_req = True, aye_approval_req = True,
       comp_approval_req = True, block_height_req = True\<rparr>))"
  by (simp add: on_process_proposal_def validate_conditions_def sample_defs all_passing_def
      get_upgrading_approval_rate_ayes_def get_upgrading_approval_rate_compliance_def
      assert_that_def div_ceil_def result_simps)

lemma sample_prepare: "\<exists>d. on_prepare_proposal sample_manager 100 = Ok d \<and> pd_version d = RuntimeVersion 2 0"
  by (simp add: on_prepare_proposal_def validate_conditions_def sample_defs all_passing_def
      get_upgrading_approval_rate_ayes_def get_upgrading_approval_rate_compliance_def
      assert_that_def div_ceil_def result_simps MIN_QUORUM_def)

subsection \<open>Properties\<close>

text \<open>
  (C2) A block that carries another version than the active one is accepted only with a
  supermajority behind it. In every reachable state, if \<open>on_process_proposal\<close> accepts such a
  block, then it carries the version of the tracked upgrade, the local node is compliant, the
  target height is reached, and both the validators that voted Aye and the compliant ones
  exceed 66 percent of the voters, counted as at least three.
\<close>

theorem upgrade_needs_supermajority:
  assumes "reachable_mgr m" and "on_process_proposal m h v = Ok (Process w c)"
    and "v \<noteq> active_version m"
  shows "\<exists>u. upgrade m = Some u \<and> v = nu_version u \<and> nu_is_compliant u \<and> nu_target_height u \<le> h \<and>
    66 * max (length (client m)) 3 < 100 * ayes_of (client m) \<and>
    66 * max (length (client m)) 3 < 100 * compliant_of (client m)"
proof -
  from assms(1) have inv: "mgr_inv m" by (rule reachable_inv)
  from process_Ok [OF inv, of h v] assms(2,3) obtain u
    where u: "upgrade m = Some u" "v = nu_version u" and act: "may_activate (client m) u h"
    by (auto split: if_splits)
  from inv u(1) have ok: "67 \<le> nu_quorum u" "3 \<le> nu_min_validator_count u"
    by (simp_all add: mgr_inv_def upgrade_ok_def MIN_QUORUM_def MIN_VALIDATOR_COUNT_def)
  let ?t = "total_of (client m) u"
  have t: "max (length (client m)) 3 \<le> ?t" using ok(2) by (simp add: total_of_def)
  have q: "67 * ?t \<le> nu_quorum u * ?t" using ok(1) by (rule mult_le_mono1)
  have "66 * max (length (client m)) 3 < 100 * n" if "nu_quorum u * ?t < n * 100 + ?t" for n
    using that q t by linarith
  with act u show ?thesis by (simp add: may_activate_def)
qed

theorem upgrade_needs_supermajority_witness:
  "reachable_mgr sample_manager \<and>
   (\<exists>u. upgrade sample_manager = Some u \<and> RuntimeVersion 2 0 = nu_version u \<and> nu_is_compliant u \<and>
     nu_target_height u \<le> 100 \<and>
     66 * max (length (client sample_manager)) 3 < 100 * ayes_of (client sample_manager) \<and>
     66 * max (length (client sample_manager)) 3 < 100 * compliant_of (client sample_manager))"
  using upgrade_needs_supermajority [OF sample_reachable sample_process] sample_reachable
  by (simp add: sample_manager_def)

text \<open>
  (C22) The three ABCI hooks and the polling call never panic and never fail: in every reachable
  state the assertions of the source hold, the debug ones included, and the divisor of the
  approval rates is positive.
\<close>

theorem hooks_never_panic:
  assumes "reachable_mgr m"
  shows "(\<exists>d. on_prepare_proposal m h = Ok d) \<and> (\<exists>d. on_process_proposal m h v = Ok d) \<and>
    (\<exists>p. get_upgrade_polling m = Ok p)"
  using prepare_Ok [of m h] process_Ok [of m h v] polling_Ok [of m] reachable_inv [OF assms]
  by blast

theorem hooks_never_panic_witness:
  "(\<exists>d. on_prepare_proposal sample_manager 7 = Ok d) \<and>
   (\<exists>d. on_process_proposal sample_manager 7 (RuntimeVersion 3 1) = Ok d) \<and>
   (\<exists>p. get_upgrade_polling sample_manager = Ok p)"
  by (rule hooks_never_panic [OF sample_reachable])

text \<open>
  (C23) A proposal is acceptable to its proposer: the version that \<open>on_prepare_proposal\<close> chooses in
  a reachable state is accepted by \<open>on_process_proposal\<close> at the same height in every reachable
  state with the same votes, the same active version and the same upgrade.
\<close>

theorem prepared_version_is_processed:
  assumes "reachable_mgr m" and "reachable_mgr n" and "on_prepare_proposal m h = Ok d"
    and "client n = client m" and "active_version n = active_version m" and "upgrade n = upgrade m"
  shows "\<exists>c. on_process_proposal n h (pd_version d) = Ok (Process (pd_version d) c)"
proof -
  from prepare_Ok [OF reachable_inv [OF assms(1)], of h] assms(3)
  have "pd_version d = active_version m \<or>
      (\<exists>u. upgrade m = Some u \<and> pd_version d = nu_version u \<and> may_activate (client m) u h)"
    by (auto split: option.splits if_splits)
  then show ?thesis
    using process_Ok [OF reachable_inv [OF assms(2)], of h "pd_version d"] assms(4-6) by auto
qed

theorem prepared_version_is_processed_witness:
  "\<exists>c. on_process_proposal sample_manager 100 (RuntimeVersion 2 0) = Ok (Process (RuntimeVersion 2 0) c)"
  using sample_prepare prepared_version_is_processed [OF sample_reachable sample_reachable _ refl refl refl]
  by metis

text \<open>
  (C24) Runtime versions never go back: along any sequence of finalized blocks and forced
  upgrades from a reachable state, the active version only grows.
\<close>

theorem active_version_monotone:
  assumes "reachable_mgr m" and "mgr_step\<^sup>*\<^sup>* m m'"
  shows "active_version m \<le> active_version m'"
proof -
  from assms(2) have "reachable_mgr m' \<and> active_version m \<le> active_version m'"
  proof (induction rule: rtranclp_induct)
    case base
    then show ?case using assms(1) by simp
  next
    case (step y z)
    then have "active_version y \<le> active_version z"
      by (blast intro: mgr_step_version_mono reachable_inv)
    with step show ?case by (auto intro: reachable_mgr.reach_step)
  qed
  then show ?thesis by simp
qed

theorem active_version_monotone_witness:
  "active_version sample_manager \<le>
     active_version (snd (on_finalize_block sample_manager (RuntimeVersion 2 0) 100 1 None))"
  by (rule active_version_monotone [OF sample_reachable],
      rule r_into_rtranclp, rule step_finalize, rule surjective_pairing)

text \<open>
  (C25) What finalizing a block decides: the block is finalized exactly when its version is not
  newer than the active one, or is that of a tracked upgrade the node complies with; every other
  block is a dead end, also one that the network has finalized and a node meets while it catches up.
  The active version becomes the greater of the two on a finalized block and is kept on a dead end,
  and an upgrade that was activated is no longer pending.
\<close>

theorem finalize_decision:
  "case on_finalize_block m v h a p of (d, m') \<Rightarrow>
    (if v \<le> active_version m \<or> (\<exists>u. upgrade m = Some u \<and> nu_version u = v \<and> nu_is_compliant u)
     then d = Finalize v \<and> active_version m' = max (active_version m) v
     else d = RejectBlockDeadEnd v \<and> active_version m' = active_version m) \<and>
    (if v \<le> active_version m then upgrade m' = upgrade m
     else \<forall>u. upgrade m' = Some u \<longleftrightarrow> upgrade m = Some u \<and> nu_version u \<noteq> v)"
proof (cases "on_finalize_block m v h a p")
  case (Pair d m')
  then show ?thesis
    by (cases rule: finalize_cases) (use Pair in \<open>auto simp: max_def\<close>)
qed

text \<open>
  (C26) A node that only signals never upgrades: from a manager built by
  \<open>build_signal_network_upgrade\<close>, whatever blocks are finalized and whatever upgrade is forced,
  the active version stays the one it was built with, and only blocks of that version are
  accepted.
\<close>

theorem signal_only_never_upgrades:
  assumes "wf_map c"
    and "build_signal_network_upgrade (with_vote_retention_period (new_builder c version) period)
           up our_vote = Ok m"
    and "mgr_step\<^sup>*\<^sup>* m m'"
  shows "active_version m' = version \<and>
    ((\<exists>c. on_process_proposal m' h v = Ok (Process v c)) \<longleftrightarrow> v = version)"
proof -
  let ?P = "\<lambda>n. reachable_mgr n \<and> active_version n = version \<and>
    pred_option (\<lambda>u. \<not> nu_is_compliant u) (upgrade n)"
  have "?P m"
    using assms(1,2) built_signal [OF assms(1,2), THEN reach_built]
    by (auto simp: builder_defs result_simps)
  with assms(3) have "?P m'"
  proof (induction rule: rtranclp_induct)
    case (step y z)
    then show ?case
      using mgr_step_upgrade [of y z] mgr_step_no_compliance [of y z]
      by (auto intro: reachable_mgr.reach_step)
  qed
  then have no: "\<not> may_activate (client m') u h" if "upgrade m' = Some u" for u
    using that by (simp add: may_activate_def)
  with \<open>?P m'\<close> show ?thesis
    using process_Ok [of m' h v, OF reachable_inv] no by (auto split: if_splits)
qed

theorem signal_only_never_upgrades_witness:
  "\<exists>m. build_signal_network_upgrade (with_vote_retention_period
       (new_builder sample_votes (RuntimeVersion 1 0)) 50) (RuntimeVersion 2 0) Aye = Ok m \<and>
     active_version (snd (force_upgrade_checked m (RuntimeVersion 2 0))) = RuntimeVersion 1 0 \<and>
     ((\<exists>c. on_process_proposal (snd (force_upgrade_checked m (RuntimeVersion 2 0))) 100 (RuntimeVersion 2 0) =
        Ok (Process (RuntimeVersion 2 0) c)) \<longleftrightarrow> RuntimeVersion 2 0 = RuntimeVersion 1 0)"
proof -
  obtain m where m: "build_signal_network_upgrade (with_vote_retention_period
      (new_builder sample_votes (RuntimeVersion 1 0)) 50) (RuntimeVersion 2 0) Aye = Ok m"
    by (simp add: builder_defs new_builder_def less_version_iff result_simps)
  have wf: "wf_map sample_votes" by (simp add: wf_map_def sample_votes_def)
  have "mgr_step\<^sup>*\<^sup>* m (snd (force_upgrade_checked m (RuntimeVersion 2 0)))"
    by (rule r_into_rtranclp, rule step_force, rule surjective_pairing)
  from signal_only_never_upgrades [OF wf m this] m
  show ?thesis by blast
qed

text \<open>
  (C11) The votes a node counts are the latest ones inside the retention window. A node that tracks an
  upgrade finalizes a run of blocks at increasing heights below the largest one, whatever their
  versions, above the heights of the votes it already has. When the run holds a block of the
  upgrade's version that is newer than the active one, no vote is left. Otherwise the node holds, for
  each validator, the vote of the last block the validator proposed since the last block newer than
  the active version (an abstention when the block carried no vote for this upgrade), or the vote
  it had before the run when there was neither such a block nor a newer one, provided the vote is
  no older than the retention period counted from the newest block; and nothing else.
\<close>

theorem counted_votes_are_latest_in_window:
  assumes "upgrade m = Some u" and "wf_map (client m)"
    and "list_all (\<lambda>(_, e). list_all (\<lambda>b. ve_botanix_height e < block_height_of b) bs) (client m)"
    and "list_all (\<lambda>b. block_height_of b \<noteq> - 1) bs" and "sorted_wrt (<) (map block_height_of bs)"
  shows "map_of (client (finalize_all m bs)) a = counted_vote m u bs a"
  using finalize_all_ledger [OF assms] by simp

theorem counted_votes_are_latest_in_window_witness:
  "map_of (client (finalize_all sample_manager
     [(RuntimeVersion 1 0, 105, 8, None), (RuntimeVersion 3 0, 106, 9, None),
      (RuntimeVersion 1 0, 107, 8, Some \<lparr>np_version = RuntimeVersion 2 0, np_vote = Aye, np_is_compliant = True\<rparr>),
      (RuntimeVersion 1 0, 108, 9, None)])) 8 =
   Some \<lparr>ve_vote = Aye, ve_is_compliant = True, ve_botanix_height = 107\<rparr>"
proof -
  let ?bs = "[(RuntimeVersion 1 0, 105, 8, None), (RuntimeVersion 3 0, 106, 9, None),
      (RuntimeVersion 1 0, 107, 8, Some \<lparr>np_version = RuntimeVersion 2 0, np_vote = Aye, np_is_compliant = True\<rparr>),
      (RuntimeVersion 1 0, 108, 9, None)] :: nat finalized_block list"
  have "counted_vote sample_manager sample_upgrade ?bs 8 =
      Some \<lparr>ve_vote = Aye, ve_is_compliant = True, ve_botanix_height = 107\<rparr>"
    by (simp add: counted_vote_def voting_blocks_def decided_def window_start_def in_window_def cast_entry_def
        block_height_of_def sample_manager_def sample_upgrade_def saturating_sub_def less_version_iff less_eq_version_iff)
  moreover have "upgrade sample_manager = Some sample_upgrade" "wf_map (client sample_manager)"
    "list_all (\<lambda>(_, e). list_all (\<lambda>b. ve_botanix_height e < block_height_of b) ?bs) (client sample_manager)"
    by (simp_all add: sample_defs wf_map_def block_height_of_def)
  ultimately show ?thesis
    using counted_votes_are_latest_in_window [of sample_manager sample_upgrade ?bs 8]
    by (simp add: block_height_of_def)
qed

end
