(* ===== verification/BitcoinTypes.thy ===== *)
theory BitcoinTypes
  imports Prelude
begin

text \<open>
  The data of the \<open>bitcoin\<close> crate that the components exchange, with the fields the crate
  documents: block headers, outpoints, outputs, inputs and transactions. Hashes are 256-bit
  words. The hash functions themselves (\<open>Header::block_hash\<close>, \<open>Transaction::compute_txid\<close>)
  belong to the crate and are parameters of the definitions that call them.
\<close>

type_synonym block_hash = "256 word"
type_synonym txid = "256 word"
type_synonym amount = u64
type_synonym script = "u8 list"

record header =
  hd_version :: u32
  prev_blockhash :: block_hash
  hd_merkle_root :: "256 word"
  hd_time :: u32
  hd_bits :: u32
  hd_nonce :: u32

record out_point =
  op_txid :: txid
  op_vout :: u32

record tx_out =
  txo_value :: amount
  script_pubkey :: script

record tx_in =
  previous_output :: out_point
  script_sig :: script
  sequence :: u32
  tx_witness :: "u8 list list"

record transaction =
  tx_version :: u32
  lock_time :: u32
  tx_input :: "tx_in list"
  tx_output :: "tx_out list"

end
