(* ===== verification/CheckpointChain.thy ===== *)
theory CheckpointChain
  imports BitcoinTypes
begin

text \<open>
  The window of Bitcoin checkpoints (\<open>botanix-bitcoin-checkpoint/src/chain.rs\<close>,
  \<open>checkpoint.rs\<close>, \<open>error.rs\<close>). The deque behind the \<open>ArcSwap\<close> is a list, oldest first; an
  operation that stores a new deque returns the new chain. The locale \<open>bounded_chain\<close> is what
  the synchronizer relies on: a push appends a linked element and keeps the newest ones, and
  refuses an element that is not linked.
\<close>

section \<open>Checkpoints and errors\<close>

record bitcoin_checkpoint =
  cp_header :: header
  cp_height :: u32
  cp_hash :: block_hash

definition new_checkpoint :: "(header \<Rightarrow> block_hash) \<Rightarrow> header \<Rightarrow> u32 \<Rightarrow> bitcoin_checkpoint" where
  "new_checkpoint block_hash hdr height =
     \<lparr>cp_header = hdr, cp_height = height, cp_hash = block_hash hdr\<rparr>"

datatype 'e checkpoint_error =
    StaleBlockAdded (expected_prev: block_hash) (received_prev: block_hash)
  | SyncRpcError 'e string
  | ZeroStrongConfirmationDepth
  | WeakCheckpointsCountTooBig usize usize
  | ChainParamsTooLarge usize usize usize

section \<open>The chain\<close>

record checkpoints_chain =
  strong_confirmation_depth :: usize
  checkpoints :: "bitcoin_checkpoint list"
  window_from :: usize
  window_to :: usize
  confirmation_window_size :: usize

definition try_new :: "usize \<Rightarrow> usize \<Rightarrow> usize \<Rightarrow> ('e checkpoint_error, checkpoints_chain) result" where
  "try_new strong historical weak =
     (if strong = 0 then Err ZeroStrongConfirmationDepth
      else if weak \<ge> strong then Err (WeakCheckpointsCountTooBig weak strong)
      else
        let confirmations_from = strong - weak in
        bind_result (ok_or (ChainParamsTooLarge strong historical weak)
            (checked_add strong historical)) (\<lambda>confirmations_to.
        bind_result (ok_or (ChainParamsTooLarge strong historical weak)
            (Option.bind (checked_sub confirmations_to confirmations_from) (\<lambda>v. checked_add v 1)))
          (\<lambda>window_size.
        Ok \<lparr>strong_confirmation_depth = strong, checkpoints = [],
            window_from = confirmations_from, window_to = confirmations_to,
            confirmation_window_size = window_size\<rparr>)))"

definition push_checkpoint ::
    "checkpoints_chain \<Rightarrow> bitcoin_checkpoint \<Rightarrow> ('e checkpoint_error, checkpoints_chain) result" where
  "push_checkpoint ch cp =
     (let stored = checkpoints ch in
      if stored \<noteq> [] \<and> prev_blockhash (cp_header cp) \<noteq> cp_hash (last stored)
      then Err (StaleBlockAdded (cp_hash (last stored)) (prev_blockhash (cp_header cp)))
      else
        let new_checkpoints = (if length stored = unat (confirmation_window_size ch)
                               then tl stored else stored)
        in Ok (ch\<lparr>checkpoints := new_checkpoints @ [cp]\<rparr>))"

definition contains_by_hash :: "checkpoints_chain \<Rightarrow> block_hash \<Rightarrow> bool" where
  "contains_by_hash ch h \<longleftrightarrow> list_ex (\<lambda>cp. cp_hash cp = h) (checkpoints ch)"

definition get_by_confirmation_depth :: "checkpoints_chain \<Rightarrow> usize \<Rightarrow> bitcoin_checkpoint option" where
  "get_by_confirmation_depth ch depth =
     (if \<not> (window_from ch \<le> depth \<and> depth \<le> window_to ch) then None
      else if checkpoints ch = [] then None
      else
        let lowest_confirmation_depth = window_from ch;
            index_from_back = unat (depth - lowest_confirmation_depth)
        in if index_from_back \<ge> length (checkpoints ch) then None
           else
             let index = length (checkpoints ch) - 1 - index_from_back
             in if index < length (checkpoints ch) then Some (checkpoints ch ! index) else None)"

definition strong_checkpoint :: "checkpoints_chain \<Rightarrow> bitcoin_checkpoint option" where
  "strong_checkpoint ch = get_by_confirmation_depth ch (strong_confirmation_depth ch)"

definition size_limit :: "checkpoints_chain \<Rightarrow> usize" where
  "size_limit ch = confirmation_window_size ch"

definition chain_len :: "checkpoints_chain \<Rightarrow> nat" where
  "chain_len ch = length (checkpoints ch)"

definition chain_is_empty :: "checkpoints_chain \<Rightarrow> bool" where
  "chain_is_empty ch \<longleftrightarrow> checkpoints ch = []"

definition clear_chain :: "checkpoints_chain \<Rightarrow> checkpoints_chain" where
  "clear_chain ch = ch\<lparr>checkpoints := []\<rparr>"

definition recent_height :: "checkpoints_chain \<Rightarrow> u32 option" where
  "recent_height ch = (if checkpoints ch = [] then None else Some (cp_height (last (checkpoints ch))))"

definition lowest_confirmation_depth :: "checkpoints_chain \<Rightarrow> usize" where
  "lowest_confirmation_depth ch = window_from ch"

text \<open>The lines \<open>Display\<close> prints: the confirmations of each checkpoint and the checkpoint. The
  unsigned subtraction of the lengths panics when it would be negative.\<close>

definition display_chain ::
    "checkpoints_chain \<Rightarrow> (unit, (nat \<times> bitcoin_checkpoint) list) result" where
  "display_chain ch =
     (if checkpoints ch = [] then Ok []
      else if unat (confirmation_window_size ch) < length (checkpoints ch) then Panic
      else
        let shift = unat (confirmation_window_size ch) - length (checkpoints ch)
        in Ok (map (\<lambda>(i, cp). (unat (window_to ch) - (i + shift), cp))
                   (enumerate 0 (checkpoints ch))))"

section \<open>Invariant and contract\<close>

inductive reachable_chain :: "checkpoints_chain \<Rightarrow> bool" where
  chain_new: "(try_new strong historical weak :: (unit checkpoint_error, _) result) = Ok ch \<Longrightarrow>
     reachable_chain ch"
| chain_push: "reachable_chain ch \<Longrightarrow>
     (push_checkpoint ch cp :: (unit checkpoint_error, _) result) = Ok ch' \<Longrightarrow> reachable_chain ch'"
| chain_clear: "reachable_chain ch \<Longrightarrow> reachable_chain (clear_chain ch)"

text \<open>A concrete Bitcoin chain: the hash of the block at height \<open>h\<close> is \<open>h + 1\<close>.\<close>

definition sample_hash :: "header \<Rightarrow> block_hash" where
  "sample_hash hdr = prev_blockhash hdr + 1"

definition sample_block :: "nat \<Rightarrow> header" where
  "sample_block h = \<lparr>hd_version = 2, prev_blockhash = of_nat h, hd_merkle_root = 0, hd_time = 0,
     hd_bits = 0, hd_nonce = 0\<rparr>"

definition sample_chain :: checkpoints_chain where
  "sample_chain = \<lparr>strong_confirmation_depth = 6,
     checkpoints = map (\<lambda>h. new_checkpoint sample_hash (sample_block h) (of_nat h)) [41, 42],
     window_from = 4, window_to = 8, confirmation_window_size = 5\<rparr>"

text \<open>The newest \<open>n\<close> elements of a list.\<close>

definition last_n :: "nat \<Rightarrow> 'a list \<Rightarrow> 'a list" where
  "last_n n xs = drop (length xs - n) xs"

fun linked :: "bitcoin_checkpoint list \<Rightarrow> bool" where
  "linked [] = True"
| "linked [_] = True"
| "linked (a # b # cs) \<longleftrightarrow> prev_blockhash (cp_header b) = cp_hash a \<and> linked (b # cs)"

definition chain_inv :: "checkpoints_chain \<Rightarrow> bool" where
  "chain_inv ch \<longleftrightarrow>
     0 < unat (window_from ch) \<and>
     unat (window_from ch) \<le> unat (strong_confirmation_depth ch) \<and>
     unat (strong_confirmation_depth ch) \<le> unat (window_to ch) \<and>
     unat (confirmation_window_size ch) = unat (window_to ch) - unat (window_from ch) + 1 \<and>
     length (checkpoints ch) \<le> unat (confirmation_window_size ch) \<and>
     linked (checkpoints ch)"

lemma last_n_step: "0 < n \<Longrightarrow> last_n n (last_n n xs @ ys) = last_n n (xs @ ys)"
  by (cases "n \<le> length xs") (auto simp: last_n_def add.commute)

lemma last_last_n: "0 < n \<Longrightarrow> xs \<noteq> [] \<Longrightarrow> last (last_n n xs) = last xs \<and> last_n n xs \<noteq> []"
  by (cases "length xs") (auto simp: last_n_def last_drop)

locale bounded_chain =
  fixes invar :: "'s \<Rightarrow> bool"
    and items :: "'s \<Rightarrow> 'c list"
    and cap :: "'s \<Rightarrow> nat"
    and links :: "'c \<Rightarrow> 'c \<Rightarrow> bool"
    and push :: "'s \<Rightarrow> 'c \<Rightarrow> ('e, 's) result"
  assumes cap_pos: "invar s \<Longrightarrow> 0 < cap s"
    and items_bounded: "invar s \<Longrightarrow> length (items s) \<le> cap s"
    and push_linked: "invar s \<Longrightarrow> items s = [] \<or> links (last (items s)) c \<Longrightarrow>
      \<exists>s'. push s c = Ok s' \<and> invar s' \<and> cap s' = cap s \<and> items s' = last_n (cap s) (items s @ [c])"
    and push_unlinked: "invar s \<Longrightarrow> items s \<noteq> [] \<Longrightarrow> \<not> links (last (items s)) c \<Longrightarrow>
      \<exists>e. push s c = Err e"
begin

fun links_from :: "'c list \<Rightarrow> 'c list \<Rightarrow> bool" where
  "links_from xs [] = True"
| "links_from xs (c # cs) \<longleftrightarrow> (xs = [] \<or> links (last xs) c) \<and> links_from [c] cs"

lemma links_from_last: "xs \<noteq> [] \<Longrightarrow> links_from xs cs = links_from [last xs] cs"
  by (cases cs) auto

text \<open>Pushing a linked run keeps the newest elements of the two runs together.\<close>

lemma push_all:
  assumes "invar s" and "links_from (items s) cs"
  shows "\<exists>s'. fold_result push s cs = Ok s' \<and> invar s' \<and> cap s' = cap s \<and>
    items s' = last_n (cap s) (items s @ cs)"
  using assms
proof (induction cs arbitrary: s)
  case Nil
  then show ?case using items_bounded by (simp add: last_n_def)
next
  case (Cons c cs)
  note pos = cap_pos [OF Cons.prems(1)]
  from Cons.prems(2) have "items s = [] \<or> links (last (items s)) c" by simp
  from push_linked [OF Cons.prems(1) this] obtain s1 where s1: "push s c = Ok s1" "invar s1"
    "cap s1 = cap s" "items s1 = last_n (cap s) (items s @ [c])"
    by blast
  have c: "last (items s1) = c" "items s1 \<noteq> []"
    using last_last_n [OF pos, of "items s @ [c]"] by (simp_all add: s1(4))
  have "links_from (items s1) cs"
    using Cons.prems(2) by (simp add: links_from_last [OF c(2)] c(1))
  from Cons.IH [OF s1(2) this] show ?case
    by (simp add: s1(1,3,4) last_n_step [OF pos])
qed

text \<open>However a run of pushes ends, only refused elements stop it.\<close>

lemma push_Ok:
  assumes "invar s" and "push s c = Ok s'"
  shows "invar s' \<and> cap s' = cap s \<and> items s' = last_n (cap s) (items s @ [c])"
proof (cases "items s = [] \<or> links (last (items s)) c")
  case True
  from push_linked [OF assms(1) True] assms(2) show ?thesis by auto
next
  case False
  with push_unlinked [OF assms(1), of c] assms(2) show ?thesis by auto
qed

lemma push_all_invar:
  assumes "invar s" and "fold_result push s cs = Ok s'"
  shows "invar s' \<and> cap s' = cap s \<and> items s' = last_n (cap s) (items s @ cs)"
  using assms
proof (induction cs arbitrary: s)
  case Nil
  then show ?case using items_bounded by (simp add: last_n_def)
next
  case (Cons c cs)
  then obtain s1 where s1: "push s c = Ok s1" "fold_result push s1 cs = Ok s'"
    by (auto simp: result_simps)
  from push_Ok [OF Cons.prems(1) s1(1)]
  have it: "items s1 = last_n (cap s) (items s @ [c])" and inv: "invar s1" "cap s1 = cap s"
    by simp_all
  show ?case
    using Cons.IH [OF inv(1) s1(2)] it inv(2)
    by (simp add: last_n_step cap_pos [OF Cons.prems(1)])
qed

end

section \<open>The chain implements the contract\<close>

lemma linked_append:
  "linked (xs @ [c]) \<longleftrightarrow> linked xs \<and> (xs = [] \<or> prev_blockhash (cp_header c) = cp_hash (last xs))"
  by (induction xs rule: linked.induct) auto

lemma linked_drop: "linked xs \<Longrightarrow> linked (drop n xs)"
proof (induction n arbitrary: xs)
  case (Suc n)
  then show ?case by (cases xs rule: linked.cases) auto
qed simp

lemma push_checkpoint_linked:
  assumes "chain_inv ch"
    and "checkpoints ch = [] \<or> prev_blockhash (cp_header c) = cp_hash (last (checkpoints ch))"
  shows "\<exists>ch'. (push_checkpoint ch c :: ('e checkpoint_error, _) result) = Ok ch' \<and> chain_inv ch' \<and>
    unat (size_limit ch') = unat (size_limit ch) \<and>
    checkpoints ch' = last_n (unat (size_limit ch)) (checkpoints ch @ [c])"
proof -
  let ?new = "last_n (unat (size_limit ch)) (checkpoints ch @ [c])"
  have kept: "(if length (checkpoints ch) = unat (confirmation_window_size ch)
      then tl (checkpoints ch) else checkpoints ch) @ [c] = ?new"
    using assms(1) by (cases "checkpoints ch") (auto simp: last_n_def chain_inv_def size_limit_def)
  have "linked (checkpoints ch @ [c])"
    using assms by (auto simp: linked_append chain_inv_def)
  then have "linked ?new" unfolding last_n_def by (rule linked_drop)
  moreover have "length ?new \<le> unat (size_limit ch)"
    by (simp add: last_n_def)
  ultimately have "chain_inv (ch\<lparr>checkpoints := ?new\<rparr>)"
    using assms(1) by (simp add: chain_inv_def size_limit_def)
  moreover have "(push_checkpoint ch c :: ('e checkpoint_error, _) result) = Ok (ch\<lparr>checkpoints := ?new\<rparr>)"
    using assms(2) unfolding push_checkpoint_def Let_def kept by auto
  ultimately show ?thesis by (simp add: size_limit_def)
qed

interpretation window: bounded_chain chain_inv checkpoints "\<lambda>ch. unat (size_limit ch)"
    "\<lambda>a b. prev_blockhash (cp_header b) = cp_hash a" push_checkpoint
proof
  fix s c
  assume "chain_inv s"
  then show "0 < unat (size_limit s)" "length (checkpoints s) \<le> unat (size_limit s)"
    by (simp_all add: chain_inv_def size_limit_def)
next
  fix s :: checkpoints_chain and c :: bitcoin_checkpoint
  assume "chain_inv s" "checkpoints s = [] \<or> prev_blockhash (cp_header c) = cp_hash (last (checkpoints s))"
  then show "\<exists>s'. push_checkpoint s c = Ok s' \<and> chain_inv s' \<and> unat (size_limit s') = unat (size_limit s) \<and>
      checkpoints s' = last_n (unat (size_limit s)) (checkpoints s @ [c])"
    by (rule push_checkpoint_linked)
next
  fix s :: checkpoints_chain and c :: bitcoin_checkpoint
  assume "chain_inv s" "checkpoints s \<noteq> []" "prev_blockhash (cp_header c) \<noteq> cp_hash (last (checkpoints s))"
  then show "\<exists>e. push_checkpoint s c = Err e"
    by (simp add: push_checkpoint_def)
qed

lemma get_by_depth_iff:
  assumes "chain_inv ch"
  shows "get_by_confirmation_depth ch d = Some cp \<longleftrightarrow>
    window_from ch \<le> d \<and> unat d - unat (window_from ch) < length (checkpoints ch) \<and>
    cp = rev (checkpoints ch) ! (unat d - unat (window_from ch))"
proof (cases "window_from ch \<le> d \<and> unat d - unat (window_from ch) < length (checkpoints ch)")
  case True
  then have "unat (d - window_from ch) = unat d - unat (window_from ch)" by (simp add: unat_sub)
  moreover from True assms have "d \<le> window_to ch"
    by (auto simp: chain_inv_def word_le_nat_alt)
  ultimately show ?thesis
    using True by (auto simp: get_by_confirmation_depth_def Let_def rev_nth)
next
  case False
  then show ?thesis
    by (auto simp: get_by_confirmation_depth_def Let_def unat_sub word_le_nat_alt split: if_splits)
qed

lemma chain_inv_clear: "chain_inv ch \<Longrightarrow> chain_inv (clear_chain ch)"
  by (simp add: chain_inv_def clear_chain_def)

lemma try_new_Ok:
  assumes "0 < unat strong" and "unat weak < unat strong" and "unat strong + unat historical < 2 ^ 64"
  shows "\<exists>ch. try_new strong historical weak = Ok ch \<and> chain_inv ch \<and> checkpoints ch = [] \<and>
    unat (window_from ch) = unat strong - unat weak \<and>
    unat (window_to ch) = unat strong + unat historical \<and> strong_confirmation_depth ch = strong \<and>
    unat (size_limit ch) = unat weak + unat historical + 1"
proof -
  have lt: "weak < strong" using assms(2) by (simp add: word_less_nat_alt)
  then have from_nat: "unat (strong - weak) = unat strong - unat weak"
    by (simp add: unat_sub less_imp_le)
  have to_nat: "unat (strong + historical) = unat strong + unat historical"
    using assms(3) by (simp add: unat_word_ariths)
  have add: "checked_add strong historical = Some (strong + historical)"
    using to_nat by (simp add: uint_simps)
  obtain v where v: "unat v = unat weak + unat historical"
    and sub: "checked_sub (strong + historical) (strong - weak) = Some v"
  proof
    show "unat (weak + historical) = unat weak + unat historical"
      using assms(2,3) by (simp add: unat_word_ariths)
    then show "checked_sub (strong + historical) (strong - weak) = Some (weak + historical)"
      using from_nat to_nat assms(2) by (simp add: uint_simps)
  qed
  have size: "unat (v + 1) = unat weak + unat historical + 1"
    using v assms(2,3) by (simp add: unat_word_ariths)
  then have one: "checked_add v 1 = Some (v + 1)" using v by (simp add: uint_simps)
  from assms(1) lt have "strong \<noteq> 0" "\<not> strong \<le> weak" by auto
  then show ?thesis
    using assms from_nat to_nat size
    by (simp add: try_new_def add sub one chain_inv_def size_limit_def)
qed

lemma try_new_Ok_iff:
  "(\<exists>ch. try_new strong historical weak = Ok ch) \<longleftrightarrow>
     0 < unat strong \<and> unat weak < unat strong \<and> unat strong + unat historical < 2 ^ 64"
proof
  assume "\<exists>ch. try_new strong historical weak = Ok ch"
  then show "0 < unat strong \<and> unat weak < unat strong \<and> unat strong + unat historical < 2 ^ 64"
    by (auto simp: try_new_def Let_def result_simps checked_add_def word_le_nat_alt unat_gt_0
        split: if_splits)
qed (use try_new_Ok in blast)

lemma reachable_chain_inv: "reachable_chain ch \<Longrightarrow> chain_inv ch"
proof (induction rule: reachable_chain.induct)
  case (chain_new strong historical weak ch)
  with try_new_Ok_iff [of strong historical weak] try_new_Ok [of strong weak historical]
  show ?case by auto
next
  case (chain_push ch cp ch')
  then show ?case using window.push_Ok by blast
next
  case (chain_clear ch)
  then show ?case by (simp add: chain_inv_clear)
qed

lemmas sample_chain_defs = sample_chain_def sample_block_def sample_hash_def new_checkpoint_def

lemma sample_chain_reachable: "reachable_chain sample_chain"
proof -
  let ?e = "sample_chain\<lparr>checkpoints := []\<rparr>"
    and ?one = "sample_chain\<lparr>checkpoints := [hd (checkpoints sample_chain)]\<rparr>"
  have "(try_new 6 2 2 :: (unit checkpoint_error, _) result) = Ok ?e"
    by (simp add: try_new_def checked_add_def checked_sub_def sample_chain_defs)
  then have "reachable_chain ?e" by (rule chain_new)
  moreover have "(push_checkpoint ?e (hd (checkpoints sample_chain)) :: (unit checkpoint_error, _) result)
      = Ok ?one"
    by (simp add: push_checkpoint_def sample_chain_defs)
  ultimately have "reachable_chain ?one" by (rule chain_push)
  moreover have "(push_checkpoint ?one (last (checkpoints sample_chain)) :: (unit checkpoint_error, _) result)
      = Ok sample_chain"
    by (simp add: push_checkpoint_def sample_chain_defs)
  ultimately show ?thesis by (rule chain_push)
qed

section \<open>Properties\<close>

text \<open>
  Which configurations are accepted: \<open>try_new\<close> succeeds exactly when the strong depth is
  positive, the weak count is below it, and the highest depth fits the machine word; the size
  computation that follows can then not overflow.
\<close>

theorem try_new_accepts:
  "(\<exists>ch. (try_new strong historical weak :: ('e checkpoint_error, _) result) = Ok ch \<and>
      unat (window_from ch) = unat strong - unat weak \<and>
      unat (window_to ch) = unat strong + unat historical \<and>
      unat (size_limit ch) = unat weak + unat historical + 1) \<longleftrightarrow>
   0 < unat strong \<and> unat weak < unat strong \<and> unat strong + unat historical < 2 ^ 64"
  using try_new_Ok [of strong weak historical] try_new_Ok_iff [of strong historical weak] by blast

text \<open>
  (C28) In every chain built by \<open>try_new\<close>, \<open>push\<close> and \<open>clear\<close>, each stored checkpoint names the
  hash of the one before it, the number of checkpoints never exceeds the size limit, and the
  strong depth lies inside the window.
\<close>

theorem reachable_chain_linked:
  assumes "reachable_chain ch"
  shows "linked (checkpoints ch) \<and> chain_len ch \<le> unat (size_limit ch) \<and>
    window_from ch \<le> strong_confirmation_depth ch \<and> strong_confirmation_depth ch \<le> window_to ch"
  using reachable_chain_inv [OF assms]
  by (simp add: chain_inv_def chain_len_def size_limit_def word_le_nat_alt)

theorem reachable_chain_linked_witness:
  "linked (checkpoints sample_chain) \<and> chain_len sample_chain \<le> unat (size_limit sample_chain) \<and>
    window_from sample_chain \<le> strong_confirmation_depth sample_chain \<and>
    strong_confirmation_depth sample_chain \<le> window_to sample_chain"
  by (rule reachable_chain_linked [OF sample_chain_reachable])

text \<open>
  (C34) The printed chain agrees with the lookups: in a reachable chain printing does not panic,
  every checkpoint is printed once and in order, and the number printed beside it is a depth at
  which \<open>get_by_confirmation_depth\<close> returns it.
\<close>

theorem display_agrees_with_lookup:
  assumes "reachable_chain ch"
  shows "\<exists>ls. display_chain ch = Ok ls \<and> map snd ls = checkpoints ch \<and>
    list_all (\<lambda>(d, cp). get_by_confirmation_depth ch (of_nat d) = Some cp) ls"
proof (cases "checkpoints ch = []")
  case True
  then show ?thesis by (simp add: display_chain_def)
next
  case False
  let ?s = "unat (confirmation_window_size ch)" and ?n = "length (checkpoints ch)"
  note inv = reachable_chain_inv [OF assms]
  then have n: "?n \<le> ?s" and s: "?s = unat (window_to ch) - unat (window_from ch) + 1"
    and le: "unat (window_from ch) \<le> unat (window_to ch)"
    by (simp_all add: chain_inv_def)
  have to: "unat (window_to ch) < 2 ^ 64" by (rule unat_u64_less)
  have "get_by_confirmation_depth ch (of_nat (unat (window_to ch) - (i + (?s - ?n)))) =
      Some (checkpoints ch ! i)" if "i < ?n" for i
  proof -
    let ?d = "unat (window_to ch) - (i + (?s - ?n))"
    have d: "unat (of_nat ?d :: usize) = ?d" using to by (simp add: unat_of_nat)
    have i: "?d - unat (window_from ch) = ?n - 1 - i" "unat (window_from ch) \<le> ?d"
      using that n s le by auto
    show ?thesis
      unfolding get_by_depth_iff [OF inv] d word_le_nat_alt i(1)
      using i(2) that by (simp add: rev_nth)
  qed
  with False n show ?thesis
    by (auto simp: display_chain_def Let_def list_all_iff in_set_enumerate_eq case_prod_beta comp_def)
qed

theorem display_agrees_with_lookup_witness:
  "\<exists>ls. display_chain sample_chain = Ok ls \<and> map snd ls = checkpoints sample_chain \<and>
    list_all (\<lambda>(d, cp). get_by_confirmation_depth sample_chain (of_nat d) = Some cp) ls"
  by (rule display_agrees_with_lookup [OF sample_chain_reachable])

end
