(* ===== verification/CheckpointSyncer.thy ===== *)
theory CheckpointSyncer
  imports CheckpointChain
begin

text \<open>
  The synchronizer of the checkpoint chain (\<open>botanix-bitcoin-checkpoint/src/syncer.rs\<close>). The
  Bitcoin node is a parameter: its answers may change from call to call, so each RPC is a
  function of the number of calls made so far (\<open>t\<close>), and every operation returns the new
  count. An operation that fails half way returns the state it leaves behind. The loop of
  \<open>sync\<close> is a step relation over the synchronizer and its channel of capacity one.
\<close>

section \<open>Operations\<close>

record 'e rpc =
  get_block_count :: "nat \<Rightarrow> ('e, u64) result"
  get_block_hash :: "nat \<Rightarrow> u64 \<Rightarrow> ('e, block_hash) result"
  get_block_header :: "nat \<Rightarrow> block_hash \<Rightarrow> ('e, header) result"

record synced_checkpoint_info =
  sc_height :: u32
  sc_hash :: block_hash

definition info_from :: "bitcoin_checkpoint \<Rightarrow> synced_checkpoint_info" where
  "info_from cp = \<lparr>sc_height = cp_height cp, sc_hash = cp_hash cp\<rparr>"

datatype sync_loop_control = WaitForNewBlock | Sync

record synchronizer =
  sy_chain :: checkpoints_chain
  last_synced_height :: "u64 option"

definition new_synchronizer :: "checkpoints_chain \<Rightarrow> synchronizer" where
  "new_synchronizer ch = \<lparr>sy_chain = ch,
     last_synced_height =
       map_option (\<lambda>height. ucast height + lowest_confirmation_depth ch) (recent_height ch)\<rparr>"

definition map_rpc_error :: "string \<Rightarrow> ('e, 'a) result \<Rightarrow> ('e checkpoint_error, 'a) result" where
  "map_rpc_error procedure_name r = map_err (\<lambda>e. SyncRpcError e procedure_name) r"

text \<open>The loop of \<open>sync_new_blocks\<close> over the heights to fetch.\<close>

fun sync_heights ::
    "'e rpc \<Rightarrow> (header \<Rightarrow> block_hash) \<Rightarrow> nat \<Rightarrow> checkpoints_chain \<Rightarrow> synced_checkpoint_info list \<Rightarrow>
     u64 list \<Rightarrow> ('e checkpoint_error, synced_checkpoint_info list) result \<times> checkpoints_chain \<times> nat" where
  "sync_heights rpc block_hash t ch synced [] = (Ok synced, ch, t)"
| "sync_heights rpc block_hash t ch synced (height # heights) =
     (case map_rpc_error ''get_block_hash'' (get_block_hash rpc t height) of
        Ok confirmed_hash \<Rightarrow>
          (case map_rpc_error ''get_block_header'' (get_block_header rpc (t + 1) confirmed_hash) of
             Ok hdr \<Rightarrow>
               (let cp = new_checkpoint block_hash hdr (ucast height)
                in case push_checkpoint ch cp of
                     Ok ch' \<Rightarrow> sync_heights rpc block_hash (t + 2) ch' (synced @ [info_from cp]) heights
                   | Err e \<Rightarrow> (Err e, ch, t + 2)
                   | Panic \<Rightarrow> (Panic, ch, t + 2))
           | Err e \<Rightarrow> (Err e, ch, t + 2)
           | Panic \<Rightarrow> (Panic, ch, t + 2))
      | Err e \<Rightarrow> (Err e, ch, t + 1)
      | Panic \<Rightarrow> (Panic, ch, t + 1))"

definition sync_new_blocks ::
    "'e rpc \<Rightarrow> (header \<Rightarrow> block_hash) \<Rightarrow> nat \<Rightarrow> synchronizer \<Rightarrow>
     ('e checkpoint_error, synced_checkpoint_info list) result \<times> synchronizer \<times> nat" where
  "sync_new_blocks rpc block_hash t s =
     (case map_rpc_error ''get_block_count'' (get_block_count rpc t) of
        Err e \<Rightarrow> (Err e, s, t + 1)
      | Panic \<Rightarrow> (Panic, s, t + 1)
      | Ok tip_height \<Rightarrow>
        let last_synced = (case last_synced_height s of Some h \<Rightarrow> h | None \<Rightarrow> 0) in
        if tip_height \<le> last_synced then (Ok [], s, t + 1)
        else
        let lowest = lowest_confirmation_depth (sy_chain s) in
        if tip_height < lowest then (Ok [], s\<lparr>last_synced_height := Some tip_height\<rparr>, t + 1)
        else
        let confirmed_available = tip_height + 1 - lowest;
            confirmed_already = saturating_sub (saturating_add last_synced 1) lowest;
            need_to_sync = saturating_sub confirmed_available confirmed_already in
        if need_to_sync = 0 then (Ok [], s\<lparr>last_synced_height := Some tip_height\<rparr>, t + 1)
        else
        let blocks_to_sync = min need_to_sync (size_limit (sy_chain s));
            top_confirmed_height = saturating_sub tip_height (lowest - 1);
            from_height = saturating_sub top_confirmed_height (blocks_to_sync - 1);
            to_height = top_confirmed_height in
        (case sync_heights rpc block_hash (t + 1) (sy_chain s) []
                (map of_nat [unat from_height ..< Suc (unat to_height)]) of
           (Ok synced, ch, t') \<Rightarrow>
             (Ok synced, s\<lparr>sy_chain := ch, last_synced_height := Some tip_height\<rparr>, t')
         | (r, ch, t') \<Rightarrow> (r, s\<lparr>sy_chain := ch\<rparr>, t')))"

definition handle_new_blocks_sync_result ::
    "('e checkpoint_error, synced_checkpoint_info list) result \<Rightarrow> synchronizer \<Rightarrow>
     sync_loop_control \<times> synchronizer" where
  "handle_new_blocks_sync_result r s = (case r of
       Ok synced \<Rightarrow> (WaitForNewBlock, s)
     | Err (StaleBlockAdded _ _) \<Rightarrow>
         (Sync, s\<lparr>sy_chain := clear_chain (sy_chain s), last_synced_height := None\<rparr>)
     | _ \<Rightarrow> (Sync, s))"

text \<open>One turn of the loop of \<open>sync\<close>: a synchronization and the handling of its outcome.\<close>

definition sync_turn ::
    "'e rpc \<Rightarrow> (header \<Rightarrow> block_hash) \<Rightarrow> nat \<Rightarrow> synchronizer \<Rightarrow>
     sync_loop_control \<times> synchronizer \<times> nat" where
  "sync_turn rpc block_hash t s =
     (case sync_new_blocks rpc block_hash t s of (r, s', t') \<Rightarrow>
        case handle_new_blocks_sync_result r s' of (c, s'') \<Rightarrow> (c, s'', t'))"

section \<open>The loop\<close>

text \<open>The messages of the block hash stream: \<open>true\<close> for a new block hash. The channel holds at
  most one trigger, so a trigger on a full channel is dropped.\<close>

record sync_loop =
  lp_syncer :: synchronizer
  lp_channel_full :: bool
  lp_clock :: nat

definition trigger_checkpoints_sync :: "sync_loop \<Rightarrow> sync_loop" where
  "trigger_checkpoints_sync l = l\<lparr>lp_channel_full := True\<rparr>"

definition handle_hash_block_stream_message :: "bool \<Rightarrow> sync_loop \<Rightarrow> sync_loop" where
  "handle_hash_block_stream_message is_hash_block l =
     (if is_hash_block then trigger_checkpoints_sync l else l)"

definition run_turn :: "'e rpc \<Rightarrow> (header \<Rightarrow> block_hash) \<Rightarrow> sync_loop \<Rightarrow> sync_loop" where
  "run_turn rpc block_hash l =
     (case sync_turn rpc block_hash (lp_clock l) (lp_syncer l) of (c, s, t) \<Rightarrow>
        let l' = l\<lparr>lp_syncer := s, lp_channel_full := False, lp_clock := t\<rparr>
        in case c of WaitForNewBlock \<Rightarrow> l' | Sync \<Rightarrow> trigger_checkpoints_sync l')"

inductive loop_step :: "'e rpc \<Rightarrow> (header \<Rightarrow> block_hash) \<Rightarrow> sync_loop \<Rightarrow> sync_loop \<Rightarrow> bool"
  for rpc block_hash where
  message: "loop_step rpc block_hash l (handle_hash_block_stream_message b l)"
| wait: "lp_clock l \<le> t \<Longrightarrow> loop_step rpc block_hash l (l\<lparr>lp_clock := t\<rparr>)"
| turn: "lp_channel_full l \<Longrightarrow> loop_step rpc block_hash l (run_turn rpc block_hash l)"

inductive reachable_loop :: "'e rpc \<Rightarrow> (header \<Rightarrow> block_hash) \<Rightarrow> sync_loop \<Rightarrow> bool"
  for rpc block_hash where
  loop_start: "reachable_chain ch \<Longrightarrow> reachable_loop rpc block_hash
     (trigger_checkpoints_sync \<lparr>lp_syncer = new_synchronizer ch, lp_channel_full = False, lp_clock = t\<rparr>)"
| loop_next: "reachable_loop rpc block_hash l \<Longrightarrow> loop_step rpc block_hash l l' \<Longrightarrow>
     reachable_loop rpc block_hash l'"

section \<open>A node that serves one chain\<close>

text \<open>From call \<open>t0\<close> on, the Bitcoin node reports the tip \<open>tip\<close> and serves the blocks \<open>blk\<close> up to
  it, each naming the hash of the one before.\<close>

definition serves ::
    "'e rpc \<Rightarrow> (header \<Rightarrow> block_hash) \<Rightarrow> (nat \<Rightarrow> header) \<Rightarrow> u64 \<Rightarrow> nat \<Rightarrow> bool" where
  "serves rpc block_hash blk tip t0 \<longleftrightarrow>
     (\<forall>t \<ge> t0. get_block_count rpc t = Ok tip \<and>
        (\<forall>h \<le> unat tip. get_block_hash rpc t (of_nat h) = Ok (block_hash (blk h)) \<and>
                        get_block_header rpc t (block_hash (blk h)) = Ok (blk h))) \<and>
     (\<forall>h < unat tip. prev_blockhash (blk (Suc h)) = block_hash (blk h))"

definition best :: "(header \<Rightarrow> block_hash) \<Rightarrow> (nat \<Rightarrow> header) \<Rightarrow> nat \<Rightarrow> bitcoin_checkpoint" where
  "best block_hash blk h = new_checkpoint block_hash (blk h) (ucast (of_nat h :: u64))"

text \<open>The number of blocks with at least \<open>lowest\<close> confirmations, the genesis block apart, and the
  checkpoints a chain of \<open>n\<close> slots should hold when there are \<open>c\<close> of them.\<close>

definition confirmed :: "nat \<Rightarrow> nat \<Rightarrow> nat" where
  "confirmed lowest tip = tip + 1 - lowest"

definition best_window ::
    "(header \<Rightarrow> block_hash) \<Rightarrow> (nat \<Rightarrow> header) \<Rightarrow> nat \<Rightarrow> nat \<Rightarrow> bitcoin_checkpoint list" where
  "best_window block_hash blk n c = last_n n (map (best block_hash blk) [1 ..< Suc c])"

definition synced_to :: "synchronizer \<Rightarrow> nat" where
  "synced_to s = (case last_synced_height s of Some h \<Rightarrow> unat h | None \<Rightarrow> 0)"

text \<open>A node that serves the sample chain.\<close>

definition sample_rpc :: "u64 \<Rightarrow> unit rpc" where
  "sample_rpc tip = \<lparr>get_block_count = (\<lambda>t. Ok tip),
     get_block_hash = (\<lambda>t h. Ok (sample_hash (sample_block (unat h)))),
     get_block_header = (\<lambda>t h. Ok (sample_block (unat (h - 1))))\<rparr>"

definition sample_loop :: sync_loop where
  "sample_loop = trigger_checkpoints_sync
     \<lparr>lp_syncer = new_synchronizer sample_chain, lp_channel_full = False, lp_clock = 0\<rparr>"

section \<open>Lemmas\<close>

lemma push_checkpoint_cases:
  fixes r :: "('e checkpoint_error, checkpoints_chain) result"
  assumes "push_checkpoint ch cp = r"
  obtains ch' where "r = Ok ch'" | a b where "r = Err (StaleBlockAdded a b)"
  using assms by (auto simp: push_checkpoint_def Let_def split: if_splits)

definition same_config :: "checkpoints_chain \<Rightarrow> checkpoints_chain \<Rightarrow> bool" where
  "same_config a b \<longleftrightarrow> window_from a = window_from b \<and> size_limit a = size_limit b \<and>
     strong_confirmation_depth a = strong_confirmation_depth b"

lemma push_same_config: "push_checkpoint ch cp = Ok ch' \<Longrightarrow> same_config ch ch'"
  by (auto simp: push_checkpoint_def Let_def same_config_def size_limit_def split: if_splits)

lemma sync_heights_inv:
  fixes rpc :: "'e rpc"
  assumes "sync_heights rpc bh t ch acc hs = (r, ch', t')" and "chain_inv ch"
  shows "chain_inv ch' \<and> same_config ch ch' \<and> t \<le> t'"
  using assms
proof (induction rpc bh t ch acc hs rule: sync_heights.induct)
  case (1 rpc bh t ch acc)
  then show ?case by (simp add: same_config_def)
next
  case (2 rpc bh t ch acc h hs)
  show ?case
  proof (cases "map_rpc_error ''get_block_hash'' (get_block_hash rpc t h)")
    case (Ok x)
    show ?thesis
    proof (cases "map_rpc_error ''get_block_header'' (get_block_header rpc (t + 1) x)")
      case o: (Ok hdr)
      let ?p = "push_checkpoint ch (new_checkpoint bh hdr (ucast h)) :: ('e checkpoint_error, _) result"
      consider (pushed) ch1 where "?p = Ok ch1" | (stale) a b where "?p = Err (StaleBlockAdded a b)"
        by (rule push_checkpoint_cases [OF refl])
      then show ?thesis
      proof cases
        case p: (pushed ch1)
        with 2(2) o Ok have r: "sync_heights rpc bh (t + 2) ch1
            (acc @ [info_from (new_checkpoint bh hdr (ucast h))]) hs = (r, ch', t')"
          by (simp add: Let_def)
        have "chain_inv ch1" using window.push_Ok [OF 2(3)] p by blast
        from 2(1) [OF Ok o refl p r this] push_same_config [OF p] show ?thesis
          by (auto simp: same_config_def)
      qed (use 2 o Ok in \<open>auto simp: same_config_def Let_def\<close>)
    qed (use 2 Ok in \<open>auto simp: same_config_def\<close>)
  qed (use 2 in \<open>auto simp: same_config_def\<close>)
qed

lemma serves_later: "serves rpc bh blk tip t0 \<Longrightarrow> t0 \<le> t \<Longrightarrow> serves rpc bh blk tip t"
  by (auto simp: serves_def)

text \<open>Against such a node the loop is a run of pushes of the served blocks.\<close>

lemma sync_heights_serves:
  fixes rpc :: "'e rpc"
  assumes "serves rpc bh blk tip t" and "\<forall>h \<in> set hs. h \<le> unat tip"
  shows "case fold_result push_checkpoint ch (map (best bh blk) hs) :: ('e checkpoint_error, _) result of
      Ok ch' \<Rightarrow> sync_heights rpc bh t ch acc (map of_nat hs) =
        (Ok (acc @ map (info_from \<circ> best bh blk) hs), ch', t + 2 * length hs)
    | Err e \<Rightarrow> \<exists>a b. fst (sync_heights rpc bh t ch acc (map of_nat hs)) = Err (StaleBlockAdded a b)
    | Panic \<Rightarrow> False"
  using assms
proof (induction hs arbitrary: t ch acc)
  case Nil
  then show ?case by simp
next
  case (Cons h hs)
  from Cons.prems have h: "get_block_hash rpc t (of_nat h) = Ok (bh (blk h))"
    "get_block_header rpc (t + 1) (bh (blk h)) = Ok (blk h)"
    by (simp_all add: serves_def)
  have later: "serves rpc bh blk tip (t + 2)" using Cons.prems(1) by (rule serves_later) simp
  let ?p = "push_checkpoint ch (best bh blk h) :: ('e checkpoint_error, _) result"
  consider (pushed) ch1 where "?p = Ok ch1" | (stale) a b where "?p = Err (StaleBlockAdded a b)"
    by (rule push_checkpoint_cases [OF refl])
  then show ?case
  proof cases
    case (pushed ch1)
    with Cons.IH [OF later, of ch1] Cons.prems(2) h show ?thesis
      by (auto simp: map_rpc_error_def Let_def best_def [symmetric] split: result.splits)
  next
    case (stale a b)
    with h show ?thesis by (simp add: map_rpc_error_def Let_def best_def [symmetric])
  qed
qed

text \<open>What a synchronization does when the node serves one chain, in natural numbers.\<close>

lemma sync_new_blocks_serves:
  fixes rpc :: "'e rpc"
  assumes srv: "serves rpc bh blk tip t" and inv: "chain_inv (sy_chain s)" and max: "tip \<noteq> - 1"
  defines "lowest \<equiv> unat (window_from (sy_chain s))"
  defines "c0 \<equiv> confirmed lowest (synced_to s)" and "c \<equiv> confirmed lowest (unat tip)"
  defines "n \<equiv> min (c - c0) (unat (size_limit (sy_chain s)))"
  shows "sync_new_blocks rpc bh t s =
    (if unat tip \<le> synced_to s then (Ok [], s, t + 1)
     else if c \<le> c0 then (Ok [], s\<lparr>last_synced_height := Some tip\<rparr>, t + 1)
     else case sync_heights rpc bh (t + 1) (sy_chain s) [] (map of_nat [Suc c - n ..< Suc c]) of
       (Ok synced, ch, t') \<Rightarrow> (Ok synced, s\<lparr>sy_chain := ch, last_synced_height := Some tip\<rparr>, t')
     | (r, ch, t') \<Rightarrow> (r, s\<lparr>sy_chain := ch\<rparr>, t'))"
proof -
  let ?last = "case last_synced_height s of Some h \<Rightarrow> h | None \<Rightarrow> 0" and ?l = "window_from (sy_chain s)"
  have last: "unat ?last = synced_to s" by (simp add: synced_to_def split: option.split)
  have count: "get_block_count rpc t = Ok tip" using srv by (simp add: serves_def)
  have l: "0 < lowest" using inv by (simp add: chain_inv_def lowest_def)
  show ?thesis
  proof (cases "unat tip \<le> synced_to s \<or> unat tip < lowest")
    case True
    then have skip: "tip \<le> ?last \<or> tip < ?l"
      using last by (simp add: word_le_nat_alt word_less_nat_alt lowest_def)
    have le: "unat tip \<le> synced_to s \<longleftrightarrow> tip \<le> ?last" by (simp add: last word_le_nat_alt)
    have "c \<le> c0" if "\<not> unat tip \<le> synced_to s"
      using True that by (simp add: c_def confirmed_def)
    with skip show ?thesis
      by (cases "tip \<le> ?last")
        (simp_all add: sync_new_blocks_def map_rpc_error_def count Let_def lowest_confirmation_depth_def le
          split del: if_split)
  next
    case False
    have tip1: "unat (tip + 1) = unat tip + 1"
      using max unatSuc [of tip] by (simp add: add.commute eq_neg_iff_add_eq_0)
    have avail: "unat (tip + 1 - ?l) = c"
      using False by (subst unat_sub) (simp_all add: word_le_nat_alt tip1 c_def confirmed_def lowest_def)
    have already: "unat (saturating_sub (saturating_add ?last 1) ?l) = c0"
      using False last unat_u64_less [of tip]
      by (simp add: uint_simps c0_def confirmed_def lowest_def min_def)
    have size: "0 < unat (size_limit (sy_chain s))" using inv by (simp add: chain_inv_def size_limit_def)
    define need where "need = saturating_sub (tip + 1 - ?l) (saturating_sub (saturating_add ?last 1) ?l)"
    have need: "unat need = c - c0" 
      unfolding need_def by (subst unat_saturating_sub) (simp only: avail already)
    define blocks where "blocks = min need (size_limit (sy_chain s))"
    have blocks: "unat blocks = n"
      by (auto simp: blocks_def n_def need [symmetric] min_def word_le_nat_alt)
    define top where "top = saturating_sub tip (?l - 1)"
    have "unat (?l - 1) = lowest - 1"
      using l by (subst unat_sub) (simp_all add: word_le_nat_alt lowest_def)
    then have top: "unat top = c"
      using False l by (simp add: top_def unat_saturating_sub c_def confirmed_def)
    have "from": "unat (saturating_sub top (blocks - 1)) = Suc c - n" if "c0 < c"
    proof -
      from that size have "0 < n" by (simp add: n_def)
      then have "unat (blocks - 1) = n - 1"
        using blocks by (subst unat_sub) (simp_all add: word_le_nat_alt)
      with \<open>0 < n\<close> show ?thesis by (simp add: unat_saturating_sub top)
    qed
    have need0: "need = 0 \<longleftrightarrow> c \<le> c0" using need by (simp add: word_unat_eq_iff)
    have neg: "\<not> tip \<le> ?last" "\<not> tip < ?l"
      using False last by (simp_all add: word_le_nat_alt word_less_nat_alt lowest_def)
    have "sync_new_blocks rpc bh t s =
      (if need = 0 then (Ok [], s\<lparr>last_synced_height := Some tip\<rparr>, t + 1)
       else case sync_heights rpc bh (t + 1) (sy_chain s) []
              (map of_nat [unat (saturating_sub top (blocks - 1)) ..< Suc (unat top)]) of
         (Ok synced, ch, t') \<Rightarrow> (Ok synced, s\<lparr>sy_chain := ch, last_synced_height := Some tip\<rparr>, t')
       | (r, ch, t') \<Rightarrow> (r, s\<lparr>sy_chain := ch\<rparr>, t'))"
      unfolding need_def blocks_def top_def sync_new_blocks_def map_rpc_error_def count Let_def
        lowest_confirmation_depth_def map_err.simps result.case
      by (simp only: neg if_False)
    note eq = this
    have tip: "\<not> unat tip \<le> synced_to s" using False by simp
    show ?thesis
    proof (cases "c \<le> c0")
      case True
      with eq need0 tip show ?thesis by (simp only: if_True if_False)
    next
      case c: False
      then have "unat (saturating_sub top (blocks - 1)) = Suc c - n" by (intro "from") simp
      with eq need0 tip c top show ?thesis by (simp only: if_False)
    qed
  qed
qed

lemma served_links:
  assumes "serves rpc bh blk tip t" and "b \<le> Suc (unat tip)" and "0 < a"
    and "xs = [] \<or> last xs = best bh blk (a - 1)"
  shows "window.links_from xs (map (best bh blk) [a ..< b])"
  using assms(2-4)
proof (induction "b - a" arbitrary: a xs)
  case 0
  then show ?case by simp
next
  case (Suc k)
  then have ab: "a < b" and k: "k = b - Suc a" by simp_all
  have "prev_blockhash (blk a) = bh (blk (a - 1))"
    using assms(1) Suc.prems(1,2) ab by (cases a) (simp_all add: serves_def)
  then have "xs = [] \<or> prev_blockhash (cp_header (best bh blk a)) = cp_hash (last xs)"
    using Suc.prems(3) by (auto simp: best_def new_checkpoint_def)
  moreover have "window.links_from [best bh blk a] (map (best bh blk) [Suc a ..< b])"
    using Suc.hyps(1) [OF k] Suc.prems(1) by simp
  ultimately show ?case using ab by (simp add: upt_conv_Cons)
qed

lemma best_window_0 [simp]: "best_window bh blk n 0 = []"
  by (simp add: best_window_def last_n_def)

lemma last_best_window: "0 < n \<Longrightarrow> 0 < c \<Longrightarrow>
    best_window bh blk n c \<noteq> [] \<and> last (best_window bh blk n c) = best bh blk c"
  using last_last_n [of n "map (best bh blk) [1 ..< Suc c]"] by (simp add: best_window_def)

lemma best_window_extend:
  assumes "0 < n" and "c0 \<le> c"
  shows "last_n n (best_window bh blk n c0 @ map (best bh blk) [Suc c0 ..< Suc c]) = best_window bh blk n c"
proof -
  have "[1 ..< Suc c] = [1 ..< Suc c0] @ [Suc c0 ..< Suc c]"
    using assms(2) upt_add_eq_append [of 1 "Suc c0" "c - c0"] by simp
  with assms(1) show ?thesis by (simp add: best_window_def last_n_step del: upt_Suc)
qed

lemma best_window_eq: "best_window bh blk n c = map (best bh blk) [Suc c - min c n ..< Suc c]"
  by (cases "c \<le> n")
    (simp_all add: best_window_def last_n_def drop_map drop_upt min_def Suc_diff_le del: upt_Suc)

lemma best_window_newest: "last_n n (map (best bh blk) [Suc c - min c n ..< Suc c]) = best_window bh blk n c"
  by (simp add: best_window_eq last_n_def del: upt_Suc)

lemma length_best_window: "length (best_window bh blk n c) = min c n"
  by (simp add: best_window_eq del: upt_Suc)

lemma rev_best_window_nth:
  assumes "i < min c n"
  shows "rev (best_window bh blk n c) ! i = best bh blk (c - i)"
proof -
  have "rev (best_window bh blk n c) ! i = best_window bh blk n c ! (min c n - Suc i)"
    using assms by (simp add: rev_nth length_best_window)
  also have "\<dots> = best bh blk ([Suc c - min c n ..< Suc c] ! (min c n - Suc i))"
    unfolding best_window_eq using assms by (subst nth_map) (auto simp del: upt_Suc)
  also have "[Suc c - min c n ..< Suc c] ! (min c n - Suc i) = c - i"
    using assms by (subst nth_upt) auto
  finally show ?thesis .
qed

text \<open>The lookups of a chain that holds the best window.\<close>

lemma best_window_lookup:
  assumes "chain_inv ch" and "checkpoints ch =
      best_window bh blk (unat (size_limit ch)) (confirmed (unat (window_from ch)) tip)"
    and "window_from ch \<le> d" and "d \<le> window_to ch" and "unat d \<le> tip"
  shows "get_by_confirmation_depth ch d = Some (best bh blk (tip + 1 - unat d))"
proof -
  let ?l = "unat (window_from ch)" and ?n = "unat (size_limit ch)"
  let ?c = "confirmed ?l tip" and ?i = "unat d - unat (window_from ch)"
  have d: "?l \<le> unat d" "unat d \<le> unat (window_to ch)" using assms(3,4) by (simp_all add: word_le_nat_alt)
  with assms(1,5) have i: "?i < ?n" "?i < ?c" "0 < ?n"
    by (auto simp: chain_inv_def size_limit_def confirmed_def)
  have len: "length (checkpoints ch) = min ?c ?n" by (simp add: assms(2) length_best_window)
  have "rev (checkpoints ch) ! ?i = best bh blk (?c - ?i)"
    unfolding assms(2) by (rule rev_best_window_nth) (use i in simp)
  moreover have "?c - ?i = tip + 1 - unat d" using d assms(5) by (simp add: confirmed_def)
  ultimately show ?thesis
    using assms(1,3) i len by (simp add: get_by_depth_iff)
qed

lemma run_of_pushes:
  fixes rpc :: "'e rpc"
  assumes "serves rpc bh blk tip t" and "chain_inv ch" and "0 < a" and "c \<le> unat tip"
    and "checkpoints ch = [] \<or> last (checkpoints ch) = best bh blk (a - 1)"
  shows "\<exists>synced ch' t'. sync_heights rpc bh t ch [] (map of_nat [a ..< Suc c]) = (Ok synced, ch', t') \<and>
    checkpoints ch' = last_n (unat (size_limit ch)) (checkpoints ch @ map (best bh blk) [a ..< Suc c])"
proof -
  let ?hs = "[a ..< Suc c]"
  have "window.links_from (checkpoints ch) (map (best bh blk) ?hs)"
    using assms by (intro served_links) auto
  from window.push_all [OF assms(2) this] obtain ch' where ch':
    "(fold_result push_checkpoint ch (map (best bh blk) ?hs) :: ('e checkpoint_error, _) result) = Ok ch'"
    "checkpoints ch' = last_n (unat (size_limit ch)) (checkpoints ch @ map (best bh blk) ?hs)"
    by blast
  have "\<forall>h \<in> set ?hs. h \<le> unat tip" using assms(4) by auto
  from sync_heights_serves [OF assms(1) this, of ch "[]"] ch' show ?thesis by auto
qed

lemma best_window_run:
  assumes "0 < n" and "cps = best_window bh blk n old" and "old < c" and "cps = [] \<or> c - old \<le> n"
  shows "cps = [] \<or> last cps = best bh blk (Suc c - min (c - old) n - 1)"
    and "last_n n (cps @ map (best bh blk) [Suc c - min (c - old) n ..< Suc c]) = best_window bh blk n c"
proof -
  have nonempty: "cps \<noteq> [] \<and> last cps = best bh blk old" if "0 < old"
    using last_best_window [OF assms(1) that] assms(2) by simp
  have k: "Suc c - min (c - old) n = Suc old" if "0 < old"
    using nonempty [OF that] assms(3,4) by auto
  show "cps = [] \<or> last cps = best bh blk (Suc c - min (c - old) n - 1)"
    using nonempty k assms(2) by (cases "old = 0") auto
  show "last_n n (cps @ map (best bh blk) [Suc c - min (c - old) n ..< Suc c]) = best_window bh blk n c"
  proof (cases "old = 0")
    case True
    then show ?thesis using best_window_newest [of n bh blk c] assms(2) by (simp del: upt_Suc)
  next
    case False
    with k assms(2,3) best_window_extend [OF assms(1), of old c bh blk] show ?thesis
      by (simp del: upt_Suc)
  qed
qed

definition holds_best_window ::
    "(header \<Rightarrow> block_hash) \<Rightarrow> (nat \<Rightarrow> header) \<Rightarrow> synchronizer \<Rightarrow> bool" where
  "holds_best_window bh blk s \<longleftrightarrow> checkpoints (sy_chain s) =
     best_window bh blk (unat (size_limit (sy_chain s)))
       (confirmed (unat (window_from (sy_chain s))) (synced_to s))"

lemma synced_to_updates [simp]:
  "synced_to (s\<lparr>last_synced_height := Some h\<rparr>) = unat h"
  "synced_to (s\<lparr>last_synced_height := None\<rparr>) = 0"
  "synced_to (s\<lparr>sy_chain := ch\<rparr>) = synced_to s"
  by (simp_all add: synced_to_def)

lemma sync_reaches_best_window:
  fixes rpc :: "'e rpc"
  assumes srv: "serves rpc bh blk tip t" and inv: "chain_inv (sy_chain s)" and max: "tip \<noteq> - 1"
    and best: "holds_best_window bh blk s" and le: "synced_to s \<le> unat tip"
    and gap: "checkpoints (sy_chain s) = [] \<or>
      unat tip - synced_to s \<le> unat (size_limit (sy_chain s))"
  shows "\<exists>synced s' t'. sync_new_blocks rpc bh t s = (Ok synced, s', t') \<and> chain_inv (sy_chain s') \<and>
    same_config (sy_chain s) (sy_chain s') \<and> synced_to s' = unat tip \<and> holds_best_window bh blk s'"
proof -
  let ?l = "unat (window_from (sy_chain s))" and ?n = "unat (size_limit (sy_chain s))"
  let ?old = "confirmed ?l (synced_to s)" and ?c = "confirmed ?l (unat tip)"
  note step = sync_new_blocks_serves [OF srv inv max]
  have pos: "0 < ?l" "0 < ?n" using inv by (simp_all add: chain_inv_def size_limit_def)
  have c: "?old \<le> ?c" "?c \<le> unat tip" using le pos by (simp_all add: confirmed_def)
  show ?thesis
  proof (cases "?c \<le> ?old")
    case old: True
    then have eq: "?old = ?c" using c(1) by simp
    show ?thesis
    proof (cases "unat tip \<le> synced_to s")
      case True
      then have "sync_new_blocks rpc bh t s = (Ok [], s, t + 1)" using step by (simp only: if_True)
      with True le inv best show ?thesis by (simp add: same_config_def)
    next
      case tip: False
      have "sync_new_blocks rpc bh t s = (Ok [], s\<lparr>last_synced_height := Some tip\<rparr>, t + 1)"
        unfolding step using tip old by (simp del: upt_Suc)
      with inv best eq show ?thesis by (simp add: same_config_def holds_best_window_def)
    qed
  next
    case False
    then have lt: "synced_to s < unat tip" using c by (auto simp: confirmed_def)
    let ?k = "min (?c - ?old) ?n"
    have "checkpoints (sy_chain s) = [] \<or> ?c - ?old \<le> ?n"
      using gap by (auto simp: confirmed_def)
    note run = best_window_run [OF pos(2) _ _ this, of bh blk]
    have last: "checkpoints (sy_chain s) = [] \<or> last (checkpoints (sy_chain s)) = best bh blk (Suc ?c - ?k - 1)"
      and new: "last_n ?n (checkpoints (sy_chain s) @ map (best bh blk) [Suc ?c - ?k ..< Suc ?c]) =
        best_window bh blk ?n ?c"
      using run best False by (simp_all add: holds_best_window_def del: upt_Suc)
    have "0 < Suc ?c - ?k" by auto
    from run_of_pushes [OF serves_later [OF srv] inv this c(2) last, of "t + 1"]
    obtain synced ch' t' where run: "sync_heights rpc bh (t + 1) (sy_chain s) []
        (map of_nat [Suc ?c - ?k ..< Suc ?c]) = (Ok synced, ch', t')"
      "checkpoints ch' = best_window bh blk ?n ?c"
      unfolding new by auto
    from sync_heights_inv [OF run(1) inv] have ch': "chain_inv ch'" "same_config (sy_chain s) ch'" by simp_all
    have "sync_new_blocks rpc bh t s =
        (Ok synced, s\<lparr>sy_chain := ch', last_synced_height := Some tip\<rparr>, t')"
      using step False lt run(1) by (simp del: upt_Suc)
    then show ?thesis
      using ch' run(2) by (simp add: holds_best_window_def same_config_def)
  qed
qed

text \<open>The three outcomes of a synchronization against a node that serves one chain.\<close>

lemma sync_serves_cases:
  fixes rpc :: "'e rpc"
  assumes "serves rpc bh blk tip t" and "chain_inv (sy_chain s)" and "tip \<noteq> - 1"
  obtains (idle) s' where "sync_new_blocks rpc bh t s = (Ok [], s', t + 1)"
  | (pushed) synced ch t' a c where
      "sync_new_blocks rpc bh t s = (Ok synced, s\<lparr>sy_chain := ch, last_synced_height := Some tip\<rparr>, t')"
      "chain_inv ch" "same_config (sy_chain s) ch"
      "c = confirmed (unat (window_from (sy_chain s))) (unat tip)" "0 < a" "a \<le> c"
      "checkpoints ch = last_n (unat (size_limit (sy_chain s)))
         (checkpoints (sy_chain s) @ map (best bh blk) [a ..< Suc c])"
  | (stale) x y ch t' where
      "sync_new_blocks rpc bh t s = (Err (StaleBlockAdded x y), s\<lparr>sy_chain := ch\<rparr>, t')"
      "chain_inv ch" "t \<le> t'"
proof -
  let ?l = "unat (window_from (sy_chain s))" and ?n = "unat (size_limit (sy_chain s))"
  let ?old = "confirmed ?l (synced_to s)" and ?c = "confirmed ?l (unat tip)"
  let ?a = "Suc ?c - min (?c - ?old) ?n"
  let ?fold = "fold_result push_checkpoint (sy_chain s) (map (best bh blk) [?a ..< Suc ?c])
    :: ('e checkpoint_error, _) result"
  obtain r ch t' where run: "sync_heights rpc bh (t + 1) (sy_chain s) []
      (map of_nat [?a ..< Suc ?c]) = (r, ch, t')"
    by (metis prod_cases3)
  note step = sync_new_blocks_serves [OF assms]
  note inv = sync_heights_inv [OF run assms(2)]
  have hs: "\<forall>h \<in> set [?a ..< Suc ?c]. h \<le> unat tip"
    using assms(2) by (auto simp: confirmed_def chain_inv_def)
  note fold = sync_heights_serves [OF serves_later [OF assms(1)] hs, of "t + 1" "sy_chain s" "[]"]
  consider "unat tip \<le> synced_to s \<or> ?c \<le> ?old"
    | ch1 where "\<not> unat tip \<le> synced_to s" "\<not> ?c \<le> ?old" "?fold = Ok ch1"
    | e where "\<not> unat tip \<le> synced_to s" "\<not> ?c \<le> ?old" "?fold = Err e"
    using fold by (cases ?fold) (auto simp del: upt_Suc)
  then show thesis
  proof cases
    case 1
    then have "\<exists>s'. sync_new_blocks rpc bh t s = (Ok [], s', t + 1)"
      unfolding step by (auto simp del: upt_Suc)
    with idle show thesis by blast
  next
    case (2 ch1)
    with fold run obtain synced where r: "r = Ok synced" "ch = ch1" by (auto simp del: upt_Suc)
    have eq: "sync_new_blocks rpc bh t s =
        (Ok synced, s\<lparr>sy_chain := ch, last_synced_height := Some tip\<rparr>, t')"
      unfolding step run r(1) using 2(1,2) by simp
    from 2 have "0 < min (?c - ?old) ?n" using assms(2) by (simp add: chain_inv_def size_limit_def)
    then have a: "0 < ?a" "?a \<le> ?c" by auto
    from window.push_all_invar [OF assms(2) 2(3)] r(2)
    have "checkpoints ch = last_n ?n (checkpoints (sy_chain s) @ map (best bh blk) [?a ..< Suc ?c])"
      by simp
    with pushed [OF eq _ _ refl a] inv show thesis by blast
  next
    case (3 e)
    with fold run obtain x y where r: "r = Err (StaleBlockAdded x y)" by (auto simp del: upt_Suc)
    have "sync_new_blocks rpc bh t s = (Err (StaleBlockAdded x y), s\<lparr>sy_chain := ch\<rparr>, t')"
      unfolding step run r using 3(1,2) by simp
    with stale inv show thesis by simp
  qed
qed

text \<open>Against a node that serves one chain, a turn that asks for another one has reset the
  chain, and the next turn rebuilds it.\<close>

lemma failed_turn_resets:
  fixes rpc :: "'e rpc"
  assumes "serves rpc bh blk tip t" and "chain_inv (sy_chain s)" and "tip \<noteq> - 1"
    and "sync_turn rpc bh t s = (Sync, s', t')"
  shows "checkpoints (sy_chain s') = [] \<and> last_synced_height s' = None \<and>
    chain_inv (sy_chain s') \<and> t \<le> t'"
  using assms(1-3)
proof (cases rule: sync_serves_cases)
  case (stale x y ch t1)
  with assms(4) have "s' = s\<lparr>sy_chain := clear_chain ch, last_synced_height := None\<rparr>" "t' = t1"
    by (auto simp: sync_turn_def handle_new_blocks_sync_result_def)
  with stale show ?thesis by (simp add: chain_inv_clear) (simp add: clear_chain_def)
qed (use assms(4) in \<open>simp_all add: sync_turn_def handle_new_blocks_sync_result_def\<close>)

lemma turn_after_reset:
  fixes rpc :: "'e rpc"
  assumes "serves rpc bh blk tip t" and "chain_inv (sy_chain s)" and "tip \<noteq> - 1"
    and "checkpoints (sy_chain s) = []" and "last_synced_height s = None"
  shows "\<exists>s' t'. sync_turn rpc bh t s = (WaitForNewBlock, s', t') \<and> chain_inv (sy_chain s') \<and>
    same_config (sy_chain s) (sy_chain s') \<and> synced_to s' = unat tip \<and> holds_best_window bh blk s'"
proof -
  have 0: "synced_to s = 0" using assms(5) by (simp add: synced_to_def)
  have "confirmed (unat (window_from (sy_chain s))) 0 = 0"
    using assms(2) by (simp add: confirmed_def chain_inv_def)
  then have "holds_best_window bh blk s" using assms(4) 0 by (simp add: holds_best_window_def)
  from sync_reaches_best_window [OF assms(1-3) this] assms(4) 0
  show ?thesis by (auto simp: sync_turn_def handle_new_blocks_sync_result_def)
qed

text \<open>Going back along the links from a block of the served chain stays on it.\<close>

lemma linked_nth:
  "linked xs \<Longrightarrow> Suc j < length xs \<Longrightarrow> prev_blockhash (cp_header (xs ! Suc j)) = cp_hash (xs ! j)"
proof (induction xs arbitrary: j rule: linked.induct)
  case (3 a b cs)
  then show ?case by (cases j) auto
qed auto

lemma linked_back:
  assumes "linked xs" and "list_all (\<lambda>cp. cp_hash cp = bh (cp_header cp)) xs"
    and "inj_on bh (cp_header ` set xs \<union> blk ` {..n})" and "c \<le> n"
    and "\<forall>h < n. prev_blockhash (blk (Suc h)) = bh (blk h)"
    and "xs \<noteq> []" and "cp_header (last xs) = blk c" and "i < length xs" and "i \<le> c"
  shows "cp_header (rev xs ! i) = blk (c - i)"
  using assms(8,9)
proof (induction i)
  case 0
  then show ?case using assms(6,7) by (simp add: hd_rev [symmetric] hd_conv_nth)
next
  case (Suc i)
  let ?j = "length xs - Suc (Suc i)"
  have j: "rev xs ! i = xs ! Suc ?j" "rev xs ! Suc i = xs ! ?j" "Suc ?j < length xs"
    using Suc.prems(1) by (simp_all add: rev_nth Suc_diff_Suc)
  have "bh (cp_header (xs ! ?j)) = cp_hash (xs ! ?j)"
    using assms(2) j(3) by (simp add: list_all_length)
  also have "\<dots> = prev_blockhash (blk (c - i))"
    using linked_nth [OF assms(1) j(3)] Suc j(1) by simp
  also have "c - i = Suc (c - Suc i)" using Suc.prems(2) by simp
  also have "prev_blockhash (blk (Suc (c - Suc i))) = bh (blk (c - Suc i))"
    using assms(4,5) Suc.prems(2) by simp
  finally have "cp_header (xs ! ?j) = blk (c - Suc i)"
    by (rule inj_onD [OF assms(3)]) (use j(3) assms(4) in auto)
  then show ?case by (simp only: j(2))
qed

lemma sync_turn_chain_inv:
  assumes "chain_inv (sy_chain s)" and "sync_turn rpc bh t s = (c, s', t')"
  shows "chain_inv (sy_chain s')"
proof -
  obtain r s1 t1 where run: "sync_new_blocks rpc bh t s = (r, s1, t1)" by (metis prod_cases3)
  then have "chain_inv (sy_chain s1)"
    using assms(1)
    by (auto simp: sync_new_blocks_def Let_def split: result.splits if_splits prod.splits
        dest: sync_heights_inv simp del: upt_Suc)
  with assms(2) run show ?thesis
    by (auto simp: sync_turn_def handle_new_blocks_sync_result_def chain_inv_clear
        split: result.splits checkpoint_error.splits)
qed

lemma reachable_loop_inv: "reachable_loop rpc bh l \<Longrightarrow> chain_inv (sy_chain (lp_syncer l))"
proof (induction rule: reachable_loop.induct)
  case (loop_start ch t)
  then show ?case
    by (simp add: trigger_checkpoints_sync_def new_synchronizer_def reachable_chain_inv)
next
  case (loop_next l l')
  from loop_next.hyps(2) loop_next.IH show ?case
  proof (induction rule: loop_step.induct)
    case (turn l)
    obtain c s t where run: "sync_turn rpc bh (lp_clock l) (lp_syncer l) = (c, s, t)" by (metis prod_cases3)
    from sync_turn_chain_inv [OF turn.prems run] run show ?case
      by (simp add: run_turn_def Let_def trigger_checkpoints_sync_def split: sync_loop_control.split)
  qed (simp_all add: handle_hash_block_stream_message_def trigger_checkpoints_sync_def)
qed

lemma sample_serves: "serves (sample_rpc tip) sample_hash sample_block tip t"
proof -
  have tip: "unat tip < 2 ^ 64" by (rule unat_u64_less)
  have h64: "unat (of_nat h :: u64) = h" and h256: "unat (of_nat h :: block_hash) = h" if "h \<le> unat tip" for h
    using that tip by (simp_all add: unat_of_nat)
  have "get_block_hash (sample_rpc tip) t (of_nat h) = Ok (sample_hash (sample_block h))"
    if "h \<le> unat tip" for h t
    by (simp only: sample_rpc_def rpc.simps h64 [OF that])
  moreover have "get_block_header (sample_rpc tip) t (sample_hash (sample_block h)) = Ok (sample_block h)"
    if "h \<le> unat tip" for h t
    using h256 [OF that] by (simp add: sample_rpc_def sample_hash_def sample_block_def)
  ultimately show ?thesis
    by (simp add: serves_def) (simp add: sample_rpc_def sample_hash_def sample_block_def)
qed

lemma sample_hash_inj: "inj_on sample_hash (range sample_block)"
  by (auto simp: inj_on_def sample_hash_def sample_block_def)

lemmas sync_eval = run_turn_def sync_turn_def sync_new_blocks_def handle_new_blocks_sync_result_def
  trigger_checkpoints_sync_def map_rpc_error_def saturating_sub_def saturating_add_def size_limit_def
  lowest_confirmation_depth_def recent_height_def new_synchronizer_def push_checkpoint_def
  get_by_confirmation_depth_def info_from_def sample_loop_def sample_rpc_def sample_chain_defs

lemmas sample_inv = reachable_chain_inv [OF sample_chain_reachable]

section \<open>Properties\<close>

text \<open>
  (C4) The checkpoint at a depth is the block with that many confirmations, as long as the node's chain
  only grows. A synchronizer that holds the right window for the height it has seen, against a node
  that serves one chain with a tip at least as high and not further ahead than the window is wide
  (or with an empty window), synchronizes without error; afterwards the lookup at every depth of
  the window that the chain reaches returns the block at height tip + 1 - depth of the node's chain,
  and the synchronizer again holds the right window, now for the height of the tip, so that the
  next synchronization starts from what this one needs.
\<close>

theorem sync_follows_best_chain:
  assumes "serves rpc bh blk tip t" and "chain_inv (sy_chain s)" and "tip \<noteq> - 1"
    and "holds_best_window bh blk s" and "synced_to s \<le> unat tip"
    and "checkpoints (sy_chain s) = [] \<or> unat tip - synced_to s \<le> unat (size_limit (sy_chain s))"
    and "window_from (sy_chain s) \<le> d" and "unat d < unat (window_from (sy_chain s)) + unat (size_limit (sy_chain s))"
    and "unat d \<le> unat tip"
  shows "\<exists>synced s' t'. sync_new_blocks rpc bh t s = (Ok synced, s', t') \<and>
    get_by_confirmation_depth (sy_chain s') d = Some (best bh blk (unat tip + 1 - unat d)) \<and>
    chain_inv (sy_chain s') \<and> same_config (sy_chain s) (sy_chain s') \<and>
    synced_to s' = unat tip \<and> holds_best_window bh blk s'"
proof -
  from sync_reaches_best_window [OF assms(1-6)] obtain synced s' t' where s':
    "sync_new_blocks rpc bh t s = (Ok synced, s', t')" "chain_inv (sy_chain s')"
    "same_config (sy_chain s) (sy_chain s')" "synced_to s' = unat tip" "holds_best_window bh blk s'"
    by blast
  have "window_from (sy_chain s') \<le> d" "d \<le> window_to (sy_chain s')"
    using assms(7,8) s'(2,3) by (auto simp: same_config_def chain_inv_def size_limit_def word_le_nat_alt)
  with best_window_lookup [OF s'(2) _ _ _ assms(9)] s'(4,5)
  have "get_by_confirmation_depth (sy_chain s') d = Some (best bh blk (unat tip + 1 - unat d))"
    by (simp add: holds_best_window_def)
  with s' show ?thesis by blast
qed

theorem sync_follows_best_chain_witness:
  "\<exists>synced s' t' synced2 s2 t2. sync_new_blocks (sample_rpc 45) sample_hash 0
     \<lparr>sy_chain = clear_chain sample_chain, last_synced_height = None\<rparr> = (Ok synced, s', t') \<and>
   get_by_confirmation_depth (sy_chain s') 6 = Some (best sample_hash sample_block 40) \<and>
   sync_new_blocks (sample_rpc 47) sample_hash 0 s' = (Ok synced2, s2, t2) \<and>
   get_by_confirmation_depth (sy_chain s2) 4 = Some (best sample_hash sample_block 44) \<and>
   get_by_confirmation_depth (sy_chain s2) 4 \<noteq> get_by_confirmation_depth (sy_chain s') 4"
proof -
  let ?s = "\<lparr>sy_chain = clear_chain sample_chain, last_synced_height = None\<rparr>"
  have ch: "window_from (sy_chain ?s) = 4" "size_limit (sy_chain ?s) = 5" "checkpoints (sy_chain ?s) = []"
    by (simp_all add: clear_chain_def sample_chain_def size_limit_def)
  have best: "holds_best_window sample_hash sample_block ?s"
    unfolding holds_best_window_def ch by (simp add: confirmed_def synced_to_def)
  have run: "\<exists>synced s' t'. sync_new_blocks (sample_rpc 45) sample_hash 0 ?s = (Ok synced, s', t') \<and>
      get_by_confirmation_depth (sy_chain s') d = Some (best sample_hash sample_block (46 - unat d)) \<and>
      chain_inv (sy_chain s') \<and> same_config (sy_chain ?s) (sy_chain s') \<and>
      synced_to s' = 45 \<and> holds_best_window sample_hash sample_block s'" if "4 \<le> d" "unat d < 9" for d
    using sync_follows_best_chain [OF sample_serves [of 45 0], of ?s d] best ch that
    by (simp add: chain_inv_clear sample_inv synced_to_def)
  from run [of 6] run [of 4] obtain synced s' t' where s':
    "sync_new_blocks (sample_rpc 45) sample_hash 0 ?s = (Ok synced, s', t')"
    "get_by_confirmation_depth (sy_chain s') 6 = Some (best sample_hash sample_block 40)"
    "get_by_confirmation_depth (sy_chain s') 4 = Some (best sample_hash sample_block 42)"
    "chain_inv (sy_chain s')" "same_config (sy_chain ?s) (sy_chain s')" "synced_to s' = 45"
    "holds_best_window sample_hash sample_block s'" by auto
  have ch': "window_from (sy_chain s') = 4" "size_limit (sy_chain s') = 5"
    using s'(5) ch by (simp_all add: same_config_def size_limit_def)
  obtain synced2 s2 t2 where s2: "sync_new_blocks (sample_rpc 47) sample_hash 0 s' = (Ok synced2, s2, t2)"
    "get_by_confirmation_depth (sy_chain s2) 4 = Some (best sample_hash sample_block 44)"
    using sync_follows_best_chain [OF sample_serves [of 47 0] s'(4) _ s'(7), of 4] ch' s'(6) by auto
  have "best sample_hash sample_block 44 \<noteq> best sample_hash sample_block 42"
    by (simp add: best_def new_checkpoint_def)
  with s' s2 show ?thesis by auto
qed

text \<open>
  (C9) A stale chain heals itself. In every reachable state of the loop with a pending trigger,
  if the node serves one chain from now on and the next turn of the loop leaves a trigger behind,
  then the turn after it leaves none, and the checkpoints are exactly the newest confirmed
  blocks of the node's chain, whatever was stored before.
\<close>

theorem stale_chain_heals:
  assumes "reachable_loop rpc bh l" and "serves rpc bh blk tip (lp_clock l)" and "tip \<noteq> - 1"
    and "lp_channel_full (run_turn rpc bh l)"
  shows "\<not> lp_channel_full (run_turn rpc bh (run_turn rpc bh l)) \<and>
    synced_to (lp_syncer (run_turn rpc bh (run_turn rpc bh l))) = unat tip \<and>
    holds_best_window bh blk (lp_syncer (run_turn rpc bh (run_turn rpc bh l)))"
proof -
  obtain c s t where run: "sync_turn rpc bh (lp_clock l) (lp_syncer l) = (c, s, t)" by (metis prod_cases3)
  with assms(4) have c: "c = Sync"
    by (cases c) (simp_all add: run_turn_def Let_def)
  with run have first: "lp_syncer (run_turn rpc bh l) = s" "lp_clock (run_turn rpc bh l) = t"
    by (simp_all add: run_turn_def Let_def trigger_checkpoints_sync_def)
  from failed_turn_resets [OF assms(2) reachable_loop_inv [OF assms(1)] assms(3)] run c
  have reset: "checkpoints (sy_chain s) = []" "last_synced_height s = None" "chain_inv (sy_chain s)"
    "lp_clock l \<le> t" by blast+
  from turn_after_reset [OF serves_later [OF assms(2) reset(4)] reset(3) assms(3) reset(1,2)]
  obtain s' t' where "sync_turn rpc bh t s = (WaitForNewBlock, s', t')" "synced_to s' = unat tip"
    "holds_best_window bh blk s'" by blast
  with first show ?thesis by (simp add: run_turn_def [of rpc bh "run_turn rpc bh l"])
qed

theorem stale_chain_heals_witness:
  "synced_to (lp_syncer (run_turn (sample_rpc 48) sample_hash (run_turn (sample_rpc 48) sample_hash sample_loop))) = 48 \<and>
   holds_best_window sample_hash sample_block
     (lp_syncer (run_turn (sample_rpc 48) sample_hash (run_turn (sample_rpc 48) sample_hash sample_loop)))"
proof -
  have "lp_channel_full (run_turn (sample_rpc 48) sample_hash sample_loop)"
    by (simp add: sync_eval upt_rec)
  moreover have "reachable_loop (sample_rpc 48) sample_hash sample_loop"
    unfolding sample_loop_def by (rule loop_start [OF sample_chain_reachable])
  ultimately show ?thesis
    using stale_chain_heals [OF _ sample_serves, of 48 sample_loop] by simp
qed

text \<open>
  (C13) No checkpoint off the best chain survives a synchronization that adds blocks. Whatever
  linked checkpoints were stored, if the hash function has no collision among the blocks
  involved and a synchronization against a node that serves one chain reports new checkpoints,
  then every checkpoint the chain returns at a depth is the node's block at height
  tip + 1 - depth.
\<close>

theorem synced_lookup_is_on_best_chain:
  assumes "serves rpc bh blk tip t" and "chain_inv (sy_chain s)" and "tip \<noteq> - 1"
    and "list_all (\<lambda>cp. cp_hash cp = bh (cp_header cp)) (checkpoints (sy_chain s))"
    and "inj_on bh (cp_header ` set (checkpoints (sy_chain s)) \<union> blk ` {..unat tip})"
    and "sync_new_blocks rpc bh t s = (Ok synced, s', t')" and "synced \<noteq> []"
    and "get_by_confirmation_depth (sy_chain s') d = Some cp" and "unat d \<le> unat tip + 1"
  shows "cp_header cp = blk (unat tip + 1 - unat d)"
  using assms(1-3)
proof (cases rule: sync_serves_cases)
  case (pushed syn ch t1 a c)
  let ?xs = "checkpoints ch"
  have ch: "sy_chain s' = ch" "0 < unat (window_from ch)" "window_from ch = window_from (sy_chain s)"
    using assms(6) pushed(1-3) by (auto simp: chain_inv_def same_config_def)
  have cn: "c \<le> unat tip" using pushed(4) ch(2,3) by (simp add: confirmed_def)
  have size: "0 < unat (size_limit (sy_chain s))"
    using assms(2) by (simp add: chain_inv_def size_limit_def)
  have "last ?xs = best bh blk c" "?xs \<noteq> []"
    using last_last_n [OF size, of "checkpoints (sy_chain s) @ map (best bh blk) [a ..< Suc c]"]
      pushed(6,7) by simp_all
  moreover have sub: "set ?xs \<subseteq> set (checkpoints (sy_chain s)) \<union> best bh blk ` {..c}"
    using set_drop_subset [of "length (checkpoints (sy_chain s) @ map (best bh blk) [a ..< Suc c]) -
      unat (size_limit (sy_chain s))" "checkpoints (sy_chain s) @ map (best bh blk) [a ..< Suc c]"]
    unfolding pushed(7) last_n_def by (auto simp del: upt_Suc)
  moreover have "list_all (\<lambda>cp. cp_hash cp = bh (cp_header cp)) ?xs"
    using sub assms(4) by (force simp: list_all_iff best_def new_checkpoint_def)
  moreover have "inj_on bh (cp_header ` set ?xs \<union> blk ` {..unat tip})"
    by (rule inj_on_subset [OF assms(5)]) (use sub cn in \<open>force simp: best_def new_checkpoint_def\<close>)
  moreover have "linked ?xs" "\<forall>h < unat tip. prev_blockhash (blk (Suc h)) = bh (blk h)"
    using pushed(2) assms(1) by (simp_all add: chain_inv_def serves_def)
  ultimately have walk: "cp_header (rev ?xs ! i) = blk (c - i)" if "i < length ?xs" "i \<le> c" for i
    using linked_back [OF _ _ _ cn] that by (simp add: best_def new_checkpoint_def)
  from assms(8) ch(1) get_by_depth_iff [OF pushed(2)]
  have d: "window_from ch \<le> d" "unat d - unat (window_from ch) < length ?xs"
    "cp = rev ?xs ! (unat d - unat (window_from ch))" by auto
  have "c - (unat d - unat (window_from ch)) = unat tip + 1 - unat d"
    "unat d - unat (window_from ch) \<le> c"
    using d(1) assms(9) pushed(4) ch(3) by (auto simp: confirmed_def word_le_nat_alt)
  with walk d show ?thesis by simp
qed (use assms(6,7) in auto)

theorem synced_lookup_is_on_best_chain_witness:
  "\<exists>synced s' t' cp. sync_new_blocks (sample_rpc 46) sample_hash 0
     \<lparr>sy_chain = sample_chain, last_synced_height = Some 45\<rparr> = (Ok synced, s', t') \<and> synced \<noteq> [] \<and>
   get_by_confirmation_depth (sy_chain s') 5 = Some cp \<and> cp_header cp = sample_block 42"
proof -
  let ?s = "\<lparr>sy_chain = sample_chain, last_synced_height = Some 45\<rparr>"
  let ?run = "sync_new_blocks (sample_rpc 46) sample_hash 0 ?s"
  have run: "fst ?run = Ok [\<lparr>sc_height = 43, sc_hash = 44\<rparr>] \<and>
      get_by_confirmation_depth (sy_chain (fst (snd ?run))) 5 = Some (checkpoints sample_chain ! 1)"
    by (simp add: sync_eval upt_rec)
  then obtain s' t' where r: "?run = (Ok [\<lparr>sc_height = 43, sc_hash = 44\<rparr>], s', t')"
    "get_by_confirmation_depth (sy_chain s') 5 = Some (checkpoints sample_chain ! 1)"
    by (cases ?run) auto
  have hash: "list_all (\<lambda>cp. cp_hash cp = sample_hash (cp_header cp)) (checkpoints (sy_chain ?s))"
    by (simp add: sample_chain_def new_checkpoint_def)
  have inj: "inj_on sample_hash (cp_header ` set (checkpoints (sy_chain ?s)) \<union> sample_block ` {..unat (46::u64)})"
    by (rule inj_on_subset [OF sample_hash_inj]) (auto simp: sample_chain_def new_checkpoint_def)
  from synced_lookup_is_on_best_chain [OF sample_serves _ _ hash inj r(1) _ r(2)] sample_inv
  have "cp_header (checkpoints sample_chain ! 1) = sample_block 42" by simp
  with r show ?thesis by blast
qed

text \<open>
  A synchronizer created over a chain that already holds checkpoints starts one block too
  late: when the block after the most recent checkpoint reaches the lowest confirmation depth,
  the synchronizer reports that there is nothing to do and adds no checkpoint.
\<close>

theorem new_synchronizer_misses_a_block:
  assumes "serves rpc bh blk tip t" and "chain_inv ch" and "recent_height ch = Some h"
    and "unat tip = unat h + unat (lowest_confirmation_depth ch)"
  shows "sync_new_blocks rpc bh t (new_synchronizer ch) = (Ok [], new_synchronizer ch, t + 1) \<and>
    confirmed (unat (lowest_confirmation_depth ch)) (unat tip) = unat h + 1"
proof -
  have "tip = ucast h + lowest_confirmation_depth ch"
    using assms(4) unat_u64_less [of tip]
    by (simp add: word_unat_eq_iff unat_word_ariths)
  moreover have "get_block_count rpc t = Ok tip" using assms(1) by (simp add: serves_def)
  ultimately show ?thesis
    using assms(3,4)
    by (simp add: sync_new_blocks_def new_synchronizer_def map_rpc_error_def confirmed_def)
qed

theorem new_synchronizer_misses_a_block_witness:
  "sync_new_blocks (sample_rpc 46) sample_hash 0 (new_synchronizer sample_chain) =
     (Ok [], new_synchronizer sample_chain, 1) \<and>
   confirmed (unat (lowest_confirmation_depth sample_chain)) 46 = 43"
proof -
  have "recent_height sample_chain = Some 42" "unat (lowest_confirmation_depth sample_chain) = 4"
    by (simp_all add: recent_height_def lowest_confirmation_depth_def sample_chain_def new_checkpoint_def)
  with new_synchronizer_misses_a_block [OF sample_serves [of 46 0] sample_inv] show ?thesis by simp
qed

end
