(* ===== verification/PegoutIdCodec.thy ===== *)
theory PegoutIdCodec
  imports BitcoinTypes
begin

text \<open>
  Pegout identifiers and outpoints as byte strings (\<open>btc-server/src/pegout_id.rs\<close> and the
  extension trait \<open>OutPointExt\<close> of \<open>util.rs\<close>). An array \<open>[u8; n]\<close> is a list of bytes of length
  \<open>n\<close>; \<open>pegout_id_ok\<close> says that the transaction id has its 32 bytes.
\<close>

section \<open>Integers as bytes\<close>

definition be_bytes_u32 :: "u32 \<Rightarrow> u8 list" where
  "be_bytes_u32 w = [ucast (drop_bit 24 w), ucast (drop_bit 16 w), ucast (drop_bit 8 w), ucast w]"

definition le_bytes_u32 :: "u32 \<Rightarrow> u8 list" where
  "le_bytes_u32 w = rev (be_bytes_u32 w)"

fun u32_from_be_bytes :: "u8 list \<Rightarrow> u32 option" where
  "u32_from_be_bytes [a, b, c, d] =
     Some (or (push_bit 24 (ucast a)) (or (push_bit 16 (ucast b)) (or (push_bit 8 (ucast c)) (ucast d))))"
| "u32_from_be_bytes _ = None"

definition u32_from_le_bytes :: "u8 list \<Rightarrow> u32 option" where
  "u32_from_le_bytes bs = u32_from_be_bytes (rev bs)"

lemma length_be_bytes_u32 [simp]: "length (be_bytes_u32 w) = 4"
  by (simp add: be_bytes_u32_def)

lemma length_le_bytes_u32 [simp]: "length (le_bytes_u32 w) = 4"
  by (simp add: le_bytes_u32_def)

lemma u32_be_roundtrip [simp]: "u32_from_be_bytes (be_bytes_u32 w) = Some w"
  unfolding be_bytes_u32_def u32_from_be_bytes.simps option.inject
proof (rule bit_word_eqI)
  fix n
  assume "n < LENGTH(32)"
  then consider "n < 8" | "8 \<le> n" "n < 16" | "16 \<le> n" "n < 24" | "24 \<le> n" "n < 32" by fastforce
  then show "bit (or (push_bit 24 (ucast (ucast (drop_bit 24 w) :: u8)))
      (or (push_bit 16 (ucast (ucast (drop_bit 16 w) :: u8)))
        (or (push_bit 8 (ucast (ucast (drop_bit 8 w) :: u8))) (ucast (ucast w :: u8)))) :: u32) n = bit w n"
    by cases (auto simp: bit_simps dest: bit_imp_le_length)
qed

lemma u32_le_roundtrip [simp]: "u32_from_le_bytes (le_bytes_u32 w) = Some w"
  by (simp add: u32_from_le_bytes_def le_bytes_u32_def)

lemma be_bytes_of_u32:
  assumes "length bs = 4"
  shows "\<exists>w. u32_from_be_bytes bs = Some w \<and> be_bytes_u32 w = bs"
proof -
  from assms obtain a b c d where bs: "bs = [a, b, c, d]"
    by (auto simp: numeral_eq_Suc length_Suc_conv)
  have "ucast (drop_bit 24 (or (push_bit 24 (ucast a)) (or (push_bit 16 (ucast b))
      (or (push_bit 8 (ucast c)) (ucast d)))) :: u32) = a"
    by (rule bit_word_eqI) (auto simp: bit_simps dest: bit_imp_le_length)
  moreover have "ucast (drop_bit 16 (or (push_bit 24 (ucast a)) (or (push_bit 16 (ucast b))
      (or (push_bit 8 (ucast c)) (ucast d)))) :: u32) = b"
    by (rule bit_word_eqI) (auto simp: bit_simps dest: bit_imp_le_length)
  moreover have "ucast (drop_bit 8 (or (push_bit 24 (ucast a)) (or (push_bit 16 (ucast b))
      (or (push_bit 8 (ucast c)) (ucast d)))) :: u32) = c"
    by (rule bit_word_eqI) (auto simp: bit_simps dest: bit_imp_le_length)
  moreover have "ucast (or (push_bit 24 (ucast a)) (or (push_bit 16 (ucast b))
      (or (push_bit 8 (ucast c)) (ucast d))) :: u32) = d"
    by (rule bit_word_eqI) (auto simp: bit_simps dest: bit_imp_le_length)
  ultimately show ?thesis by (simp add: bs be_bytes_u32_def)
qed

section \<open>Pegout identifiers\<close>

record pegout_id =
  pg_txid :: "u8 list"
  pg_idx :: u32

definition new_pegout_id :: "u8 list \<Rightarrow> u32 \<Rightarrow> pegout_id" where
  "new_pegout_id txid idx = \<lparr>pg_txid = txid, pg_idx = idx\<rparr>"

definition pegout_id_ok :: "pegout_id \<Rightarrow> bool" where
  "pegout_id_ok p \<longleftrightarrow> length (pg_txid p) = 32"

definition pegout_id_as_bytes :: "pegout_id \<Rightarrow> u8 list" where
  "pegout_id_as_bytes p = pg_txid p @ be_bytes_u32 (pg_idx p)"

definition pegout_id_from_bytes :: "u8 list \<Rightarrow> (unit, pegout_id) result" where
  "pegout_id_from_bytes bytes =
     (if length bytes = 36
      then bind_result (expect (u32_from_be_bytes (drop 32 bytes)))
             (\<lambda>idx. Ok \<lparr>pg_txid = take 32 bytes, pg_idx = idx\<rparr>)
      else Err ())"

text \<open>\<open>From<[u8; 36]>\<close>\<close>

definition pegout_id_from_array :: "u8 list \<Rightarrow> (unit, pegout_id) result" where
  "pegout_id_from_array b = (case pegout_id_from_bytes b of Ok p \<Rightarrow> Ok p | _ \<Rightarrow> Panic)"

section \<open>Outpoints\<close>

text \<open>The bytes of a transaction id, in the order the crate stores them.\<close>

definition txid_bytes :: "txid \<Rightarrow> u8 list" where
  "txid_bytes t = map (\<lambda>i. ucast (drop_bit (8 * i) t)) [0..<32]"

definition out_point_to_bytes :: "out_point \<Rightarrow> u8 list" where
  "out_point_to_bytes op = txid_bytes (op_txid op) @ le_bytes_u32 (op_vout op)"

lemma length_txid_bytes [simp]: "length (txid_bytes t) = 32"
  by (simp add: txid_bytes_def)

lemma txid_bytes_inj: "txid_bytes t = txid_bytes u \<Longrightarrow> t = u"
proof (rule bit_word_eqI)
  fix n
  assume eq: "txid_bytes t = txid_bytes u" and n: "n < LENGTH(256)"
  then have i: "n div 8 < 32" by simp
  from eq have "txid_bytes t ! (n div 8) = txid_bytes u ! (n div 8)" by simp
  then have "(ucast (drop_bit (8 * (n div 8)) t) :: u8) = ucast (drop_bit (8 * (n div 8)) u)"
    unfolding txid_bytes_def using i by (simp only: nth_map nth_upt length_upt add_0 diff_zero)
  then have "bit (ucast (drop_bit (8 * (n div 8)) t) :: u8) (n mod 8) =
      bit (ucast (drop_bit (8 * (n div 8)) u) :: u8) (n mod 8)"
    by simp
  then show "bit t n \<longleftrightarrow> bit u n" by (simp add: bit_simps)
qed

lemma out_point_to_bytes_inj: "out_point_to_bytes a = out_point_to_bytes b \<Longrightarrow> a = b"
proof -
  assume eq: "out_point_to_bytes a = out_point_to_bytes b"
  then have "txid_bytes (op_txid a) = txid_bytes (op_txid b)"
    and v: "le_bytes_u32 (op_vout a) = le_bytes_u32 (op_vout b)"
    by (simp_all add: out_point_to_bytes_def)
  then have "op_txid a = op_txid b" by (intro txid_bytes_inj)
  moreover have "Some (op_vout a) = Some (op_vout b)"
    unfolding u32_le_roundtrip [symmetric] v ..
  ultimately show "a = b" by (cases a; cases b) simp
qed

section \<open>Properties\<close>

text \<open>
  (C40) Pegout identifiers and their 36 bytes correspond one to one: encoding gives 36 bytes that
  decode to the identifier, every 36-byte string decodes to a well-formed identifier that
  encodes to it, and decoding any other length is the error.
\<close>

theorem pegout_id_bytes_iso:
  "(pegout_id_ok p \<longleftrightarrow> pegout_id_from_bytes (pegout_id_as_bytes p) = Ok p) \<and>
   (case pegout_id_from_bytes bytes of
      Ok q \<Rightarrow> length bytes = 36 \<and> pegout_id_ok q \<and> pegout_id_as_bytes q = bytes
    | Err _ \<Rightarrow> length bytes \<noteq> 36
    | Panic \<Rightarrow> False)"
proof
  show "pegout_id_ok p \<longleftrightarrow> pegout_id_from_bytes (pegout_id_as_bytes p) = Ok p"
  proof (cases "length (pg_txid p) = 32")
    case True
    then show ?thesis
      by (simp add: pegout_id_ok_def pegout_id_from_bytes_def pegout_id_as_bytes_def)
  next
    case False
    then have "length (pegout_id_as_bytes p) \<noteq> 36" by (simp add: pegout_id_as_bytes_def)
    with False show ?thesis by (simp add: pegout_id_ok_def pegout_id_from_bytes_def)
  qed
  show "case pegout_id_from_bytes bytes of
      Ok q \<Rightarrow> length bytes = 36 \<and> pegout_id_ok q \<and> pegout_id_as_bytes q = bytes
    | Err _ \<Rightarrow> length bytes \<noteq> 36
    | Panic \<Rightarrow> False"
  proof (cases "length bytes = 36")
    case True
    then obtain w where "u32_from_be_bytes (drop 32 bytes) = Some w" "be_bytes_u32 w = drop 32 bytes"
      using be_bytes_of_u32 [of "drop 32 bytes"] by auto
    with True show ?thesis
      by (simp add: pegout_id_from_bytes_def pegout_id_ok_def pegout_id_as_bytes_def)
  next
    case False
    then show ?thesis by (simp add: pegout_id_from_bytes_def)
  qed
qed

end
