(* ===== verification/Psbt.thy ===== *)
theory Psbt
  imports PegoutIdCodec
begin

text \<open>
  The proprietary fields of a partially signed transaction and its construction
  (\<open>btc-server/src/wallet/psbt.rs\<close>, \<open>database/version.rs\<close>). A \<open>BTreeMap\<close> is an association list
  with distinct keys. The extension traits mutate an input or output in place; here each setter
  returns the changed one. What belongs to the crates is a parameter: \<open>bitcoin_lib\<close> holds the
  functions of \<open>bitcoin\<close> and \<open>bdk_wallet\<close>, \<open>frost_lib\<close> the (de)serializers of \<open>frost\<close>. The locale
  \<open>psbt_field\<close> is the contract of one field, interpreted for each of them.
\<close>

section \<open>Data\<close>

record proprietary_key =
  pk_prefix :: "u8 list"
  pk_subtype :: u8
  pk_key :: "u8 list"

type_synonym proprietary = "(proprietary_key \<times> u8 list) list"

record psbt_input =
  witness_utxo :: "tx_out option"
  in_proprietary :: proprietary

record psbt_output =
  out_proprietary :: proprietary

record psbt =
  unsigned_tx :: transaction
  psbt_inputs :: "psbt_input list"
  psbt_outputs :: "psbt_output list"

datatype utxo_version = V1

definition utxo_version_default :: utxo_version where
  "utxo_version_default = V1"

fun utxo_version_as_u32 :: "utxo_version \<Rightarrow> u32" where
  "utxo_version_as_u32 V1 = 0"

definition utxo_version_try_from :: "u32 \<Rightarrow> (u32, utxo_version) result" where
  "utxo_version_try_from v = (if v = 0 then Ok V1 else Err v)"

record utxo =
  ut_outpoint :: out_point
  ut_output :: tx_out
  ut_eth_address :: "u8 list option"
  ut_version :: u32

definition new_utxo :: "out_point \<Rightarrow> tx_out \<Rightarrow> u8 list option \<Rightarrow> utxo_version option \<Rightarrow> utxo" where
  "new_utxo op out eth version = \<lparr>ut_outpoint = op, ut_output = out, ut_eth_address = eth,
     ut_version = utxo_version_as_u32 (case version of Some v \<Rightarrow> v | None \<Rightarrow> V1)\<rparr>"

record input_dto =
  dto_outpoint :: out_point
  dto_output :: tx_out
  dto_eth_address :: "u8 list option"
  dto_version :: utxo_version

section \<open>The crates\<close>

text \<open>A fee rate is in satoshi per thousand weight units, a weight in weight units.\<close>

record weighted_utxo =
  satisfaction_weight :: u64
  wu_outpoint :: out_point
  wu_txout :: tx_out

record bitcoin_lib =
  lib_from_unsigned_tx :: "transaction \<Rightarrow> psbt option"
  lib_tx_weight :: "transaction \<Rightarrow> u64"
  lib_minimal_non_dust :: "script \<Rightarrow> amount"
  lib_fee_wu :: "u64 \<Rightarrow> u64 \<Rightarrow> amount option"
  lib_extract_tx :: "psbt \<Rightarrow> transaction option"
  lib_coin_select :: "weighted_utxo list \<Rightarrow> weighted_utxo list \<Rightarrow> u64 \<Rightarrow> amount \<Rightarrow>
    script \<Rightarrow> (amount \<times> amount, out_point list) result"

text \<open>The documented behaviour of \<open>Psbt::from_unsigned_tx\<close>: a transaction without signatures gives
  a PSBT over it with one empty record for each input and output.\<close>

definition unsigned :: "transaction \<Rightarrow> bool" where
  "unsigned tx \<longleftrightarrow> list_all (\<lambda>i. script_sig i = [] \<and> tx_witness i = []) (tx_input tx)"

definition blank_psbt :: "transaction \<Rightarrow> psbt" where
  "blank_psbt tx = \<lparr>unsigned_tx = tx,
     psbt_inputs = map (\<lambda>_. \<lparr>witness_utxo = None, in_proprietary = []\<rparr>) (tx_input tx),
     psbt_outputs = map (\<lambda>_. \<lparr>out_proprietary = []\<rparr>) (tx_output tx)\<rparr>"

definition from_unsigned_ok :: "bitcoin_lib \<Rightarrow> bool" where
  "from_unsigned_ok L \<longleftrightarrow> (\<forall>tx. unsigned tx \<longrightarrow> lib_from_unsigned_tx L tx = Some (blank_psbt tx))"

record ('id, 'sc, 'ss) frost_lib =
  id_serialize :: "'id \<Rightarrow> u8 list"
  id_deserialize :: "u8 list \<Rightarrow> 'id option"
  commitments_serialize :: "'sc \<Rightarrow> u8 list option"
  commitments_deserialize :: "u8 list \<Rightarrow> 'sc option"
  share_serialize :: "'ss \<Rightarrow> u8 list"
  share_deserialize :: "u8 list \<Rightarrow> 'ss option"

text \<open>The encodings of \<open>frost\<close> are canonical: an identifier and its bytes correspond one to one,
  and what was serialized deserializes to itself.\<close>

definition frost_codec_ok :: "('id, 'sc, 'ss) frost_lib \<Rightarrow> bool" where
  "frost_codec_ok F \<longleftrightarrow>
     (\<forall>i b. id_deserialize F b = Some i \<longleftrightarrow> b = id_serialize F i) \<and>
     (\<forall>c b. commitments_serialize F c = Some b \<longrightarrow> commitments_deserialize F b = Some c) \<and>
     (\<forall>s. share_deserialize F (share_serialize F s) = Some s)"

section \<open>Fields\<close>

definition ETH_ADDRESS_KEY_TYPE :: u8 where "ETH_ADDRESS_KEY_TYPE = 1"
definition SIGNING_COMMITMENTS_KEY_TYPE :: u8 where "SIGNING_COMMITMENTS_KEY_TYPE = 2"
definition PARTIAL_SIGNATURE_KEY_TYPE :: u8 where "PARTIAL_SIGNATURE_KEY_TYPE = 3"
definition UTXO_VERSION_TYPE :: u8 where "UTXO_VERSION_TYPE = 4"
definition PEGOUT_ID_KEY_TYPE :: u8 where "PEGOUT_ID_KEY_TYPE = 4"
definition PROP_KEY_PREFIX :: "u8 list" where "PROP_KEY_PREFIX = [98, 116, 120]"

definition prop_key :: "u8 \<Rightarrow> u8 list \<Rightarrow> proprietary_key" where
  "prop_key subtype key = \<lparr>pk_prefix = PROP_KEY_PREFIX, pk_subtype = subtype, pk_key = key\<rparr>"

definition key_cast :: "proprietary_key \<Rightarrow> u8 \<Rightarrow> u8 list option" where
  "key_cast k subtype =
     (if pk_prefix k = PROP_KEY_PREFIX \<and> pk_subtype k = subtype then Some (pk_key k) else None)"

definition put_field :: "proprietary_key \<Rightarrow> u8 list \<Rightarrow> psbt_input \<Rightarrow> psbt_input" where
  "put_field k v i = i\<lparr>in_proprietary := AList.update k v (in_proprietary i)\<rparr>"

definition set_eth_address :: "u8 list \<Rightarrow> psbt_input \<Rightarrow> psbt_input" where
  "set_eth_address eth i = put_field (prop_key ETH_ADDRESS_KEY_TYPE []) eth i"

definition eth_address :: "psbt_input \<Rightarrow> u8 list option" where
  "eth_address i = Option.bind (map_of (in_proprietary i) (prop_key ETH_ADDRESS_KEY_TYPE []))
     (\<lambda>b. if length b = 20 then Some b else None)"

definition add_version_to_psbt :: "u32 \<Rightarrow> psbt_input \<Rightarrow> psbt_input" where
  "add_version_to_psbt version i = put_field (prop_key UTXO_VERSION_TYPE []) (le_bytes_u32 version) i"

definition get_version_from_psbt_input :: "psbt_input \<Rightarrow> utxo_version option" where
  "get_version_from_psbt_input i =
     Option.bind (map_of (in_proprietary i) (prop_key UTXO_VERSION_TYPE [])) (\<lambda>bytes.
       if length bytes = 4
       then Option.bind (u32_from_le_bytes bytes) (\<lambda>version.
              case utxo_version_try_from version of Ok v \<Rightarrow> Some v | _ \<Rightarrow> None)
       else None)"

definition set_signing_commitment ::
    "('id, 'sc, 'ss) frost_lib \<Rightarrow> 'id \<Rightarrow> 'sc \<Rightarrow> psbt_input \<Rightarrow> (unit, psbt_input) result" where
  "set_signing_commitment F frost_id commit i =
     bind_result (expect (commitments_serialize F commit)) (\<lambda>payload.
       Ok (put_field (prop_key SIGNING_COMMITMENTS_KEY_TYPE (id_serialize F frost_id)) payload i))"

definition signing_commitments ::
    "('id, 'sc, 'ss) frost_lib \<Rightarrow> psbt_input \<Rightarrow> 'id \<Rightarrow> 'sc option" where
  "signing_commitments F i frost_id =
     (case map_of (in_proprietary i) (prop_key SIGNING_COMMITMENTS_KEY_TYPE (id_serialize F frost_id)) of
        Some b \<Rightarrow> commitments_deserialize F b
      | None \<Rightarrow> None)"

definition set_partial_signature ::
    "('id, 'sc, 'ss) frost_lib \<Rightarrow> 'id \<Rightarrow> 'ss \<Rightarrow> psbt_input \<Rightarrow> psbt_input" where
  "set_partial_signature F frost_id sig i =
     put_field (prop_key PARTIAL_SIGNATURE_KEY_TYPE (id_serialize F frost_id)) (share_serialize F sig) i"

definition partial_signature ::
    "('id, 'sc, 'ss) frost_lib \<Rightarrow> psbt_input \<Rightarrow> 'id \<Rightarrow> 'ss option" where
  "partial_signature F i frost_id =
     (case map_of (in_proprietary i) (prop_key PARTIAL_SIGNATURE_KEY_TYPE (id_serialize F frost_id)) of
        Some b \<Rightarrow> share_deserialize F b
      | None \<Rightarrow> None)"

text \<open>The scans over all fields of one kind, which skip what does not decode.\<close>

fun collect_fields ::
    "(u8 list \<Rightarrow> 'id option) \<Rightarrow> (u8 list \<Rightarrow> 'v option) \<Rightarrow> u8 \<Rightarrow> ('id \<times> 'v) list \<Rightarrow> proprietary \<Rightarrow>
     ('id \<times> 'v) list" where
  "collect_fields de_id de_val subtype ret [] = ret"
| "collect_fields de_id de_val subtype ret ((key, value) # rest) =
     (case key_cast key subtype of
        None \<Rightarrow> collect_fields de_id de_val subtype ret rest
      | Some k \<Rightarrow> (case de_id k of
          None \<Rightarrow> collect_fields de_id de_val subtype ret rest
        | Some frost_id \<Rightarrow> (case de_val value of
            None \<Rightarrow> collect_fields de_id de_val subtype ret rest
          | Some v \<Rightarrow> collect_fields de_id de_val subtype (AList.update frost_id v ret) rest)))"

definition all_signing_commitments ::
    "('id, 'sc, 'ss) frost_lib \<Rightarrow> psbt_input \<Rightarrow> ('id \<times> 'sc) list" where
  "all_signing_commitments F i = collect_fields (id_deserialize F) (commitments_deserialize F)
     SIGNING_COMMITMENTS_KEY_TYPE [] (in_proprietary i)"

definition all_partial_signatures ::
    "('id, 'sc, 'ss) frost_lib \<Rightarrow> psbt_input \<Rightarrow> ('id \<times> 'ss) list" where
  "all_partial_signatures F i = collect_fields (id_deserialize F) (share_deserialize F)
     PARTIAL_SIGNATURE_KEY_TYPE [] (in_proprietary i)"

definition set_pegout_id :: "u8 list \<Rightarrow> psbt_output \<Rightarrow> psbt_output" where
  "set_pegout_id pegout_id out =
     out\<lparr>out_proprietary := AList.update (prop_key PEGOUT_ID_KEY_TYPE []) pegout_id (out_proprietary out)\<rparr>"

definition psbt_pegout_id :: "psbt_output \<Rightarrow> u8 list option" where
  "psbt_pegout_id out = Option.bind (map_of (out_proprietary out) (prop_key PEGOUT_ID_KEY_TYPE []))
     (\<lambda>b. if length b = 36 then Some b else None)"

definition pegout_ids :: "psbt \<Rightarrow> u8 list list" where
  "pegout_ids p = List.map_filter psbt_pegout_id (psbt_outputs p)"

section \<open>Signing packages\<close>

datatype 'te sighash_error = TaprootError 'te | MissingWitnessUtxo

datatype 'te signing_package_error = SighashError "'te sighash_error" | MissingSigningCommitments

text \<open>\<open>taproot_sighash tx index prevouts\<close> is the signature hash of the crate.\<close>

definition calculate_sighash ::
    "(transaction \<Rightarrow> nat \<Rightarrow> tx_out list \<Rightarrow> ('te, 'h) result) \<Rightarrow> psbt \<Rightarrow> nat \<Rightarrow>
     ('te sighash_error, 'h) result" where
  "calculate_sighash taproot_sighash p input_index =
     bind_result (fold_result (\<lambda>prevouts i.
         bind_result (ok_or MissingWitnessUtxo (witness_utxo i)) (\<lambda>u. Ok (prevouts @ [u])))
       [] (psbt_inputs p)) (\<lambda>prevouts.
     map_err TaprootError (taproot_sighash (unsigned_tx p) input_index prevouts))"

definition signing_packages ::
    "(transaction \<Rightarrow> nat \<Rightarrow> tx_out list \<Rightarrow> ('te, 'h) result) \<Rightarrow> ('id, 'sc, 'ss) frost_lib \<Rightarrow> psbt \<Rightarrow>
     ('te signing_package_error, (('id \<times> 'sc) list \<times> 'h) list) result" where
  "signing_packages taproot_sighash F p =
     fold_result (\<lambda>ret (idx, input).
         bind_result (map_err SighashError (calculate_sighash taproot_sighash p idx)) (\<lambda>sighash.
         let sc = all_signing_commitments F input in
         if sc = [] then Err MissingSigningCommitments
         else Ok (ret @ [(sc, sighash)])))
       [] (enumerate 0 (psbt_inputs p))"

section \<open>Construction\<close>

definition SEQUENCE_RBF :: u32 where "SEQUENCE_RBF = 0xFFFFFFFD"

definition create_psbt ::
    "bitcoin_lib \<Rightarrow> input_dto list \<Rightarrow> (tx_out \<times> u8 list) list \<Rightarrow> tx_out option \<Rightarrow>
     ('e, psbt) result" where
  "create_psbt L inputs outputs change =
     (let output = map fst outputs @ (case change of Some c \<Rightarrow> [c] | None \<Rightarrow> []);
          tx = \<lparr>tx_version = 2, lock_time = 0,
                tx_input = map (\<lambda>u. \<lparr>previous_output = dto_outpoint u, script_sig = [],
                                     sequence = SEQUENCE_RBF, tx_witness = []\<rparr>) inputs,
                tx_output = output\<rparr>
      in bind_result (expect (lib_from_unsigned_tx L tx)) (\<lambda>p.
         let ins = map (\<lambda>(psbt_input, u).
                 let i = psbt_input\<lparr>witness_utxo := Some (dto_output u)\<rparr>;
                     i = (case dto_eth_address u of Some eth \<Rightarrow> set_eth_address eth i | None \<Rightarrow> i)
                 in add_version_to_psbt (utxo_version_as_u32 (dto_version u)) i)
               (zip (psbt_inputs p) inputs) @ drop (length inputs) (psbt_inputs p);
             outs = map (\<lambda>(psbt_output, (_, pegout_id)). set_pegout_id pegout_id psbt_output)
               (zip (psbt_outputs p) outputs) @ drop (length outputs) (psbt_outputs p)
         in Ok (p\<lparr>psbt_inputs := ins, psbt_outputs := outs\<rparr>)))"

text \<open>\<open>psbt_fee\<close> is \<open>Psbt::fee\<close> of the crate.\<close>

datatype 'pe psbt_fee_per_output_error = FeeError 'pe | DivideByZero

definition fee_per_output ::
    "(psbt \<Rightarrow> ('pe, amount) result) \<Rightarrow> psbt \<Rightarrow> u64 \<Rightarrow> ('pe psbt_fee_per_output_error, amount) result" where
  "fee_per_output psbt_fee p num_outputs =
     bind_result (map_err FeeError (psbt_fee p)) (\<lambda>fee.
       ok_or DivideByZero (checked_div fee num_outputs))"

section \<open>Concrete crates\<close>

text \<open>Instances of the parameters that behave as documented: a weight that counts the bytes of the
  unsigned transaction four times, a dust threshold of 330, a fee rounded up, a selection that
  takes everything, and one-byte encodings.\<close>

definition sample_lib :: bitcoin_lib where
  "sample_lib = \<lparr>
     lib_from_unsigned_tx = (\<lambda>tx. if unsigned tx then Some (blank_psbt tx) else None),
     lib_tx_weight = (\<lambda>tx. of_nat (4 * (10 + 41 * length (tx_input tx) +
        sum_list (map (\<lambda>out. 9 + length (script_pubkey out)) (tx_output tx))))),
     lib_minimal_non_dust = (\<lambda>_. 330),
     lib_fee_wu = (\<lambda>rate weight. Option.bind (checked_mul rate weight) (\<lambda>m.
        Option.bind (checked_add m 999) (\<lambda>r. Some (r div 1000)))),
     lib_extract_tx = (\<lambda>p. Some (unsigned_tx p)),
     lib_coin_select = (\<lambda>required optional _ target _.
        let available = sum_list (map (txo_value \<circ> wu_txout) (required @ optional))
        in if available < target then Err (target, available)
           else Ok (remdups (map wu_outpoint (required @ optional))))\<rparr>"

definition sample_frost :: "(u8, u8, u8) frost_lib" where
  "sample_frost = \<lparr>id_serialize = (\<lambda>x. [x]),
     id_deserialize = (\<lambda>b. case b of [x] \<Rightarrow> Some x | _ \<Rightarrow> None),
     commitments_serialize = (\<lambda>x. Some [x]),
     commitments_deserialize = (\<lambda>b. case b of [x] \<Rightarrow> Some x | _ \<Rightarrow> None),
     share_serialize = (\<lambda>x. [x]),
     share_deserialize = (\<lambda>b. case b of [x] \<Rightarrow> Some x | _ \<Rightarrow> None)\<rparr>"

definition sample_dto :: input_dto where
  "sample_dto = \<lparr>dto_outpoint = \<lparr>op_txid = 7, op_vout = 1\<rparr>,
     dto_output = \<lparr>txo_value = 50000, script_pubkey = [81]\<rparr>,
     dto_eth_address = Some (replicate 20 9), dto_version = V1\<rparr>"

section \<open>The contract of a field\<close>

locale psbt_field =
  fixes set_field :: "'v \<Rightarrow> psbt_input \<Rightarrow> psbt_input"
    and get_field :: "psbt_input \<Rightarrow> 'v option"
    and field_key :: proprietary_key
    and valid :: "'v \<Rightarrow> bool"
  assumes get_set: "valid v \<Longrightarrow> get_field (set_field v i) = Some v"
    and set_frame: "k \<noteq> field_key \<Longrightarrow>
      map_of (in_proprietary (set_field v i)) k = map_of (in_proprietary i) k"
    and set_utxo: "witness_utxo (set_field v i) = witness_utxo i"
    and set_wf: "wf_map (in_proprietary i) \<Longrightarrow> wf_map (in_proprietary (set_field v i))"
    and get_local: "map_of (in_proprietary i) field_key = map_of (in_proprietary j) field_key \<Longrightarrow>
      get_field i = get_field j"
begin

lemma get_after_put: "k \<noteq> field_key \<Longrightarrow> get_field (put_field k b i) = get_field i"
  by (rule get_local) (simp add: put_field_def alist_simps)

end

text \<open>Two fields with different keys do not disturb each other.\<close>

locale two_psbt_fields = a: psbt_field set_a get_a key_a valid_a + b: psbt_field set_b get_b key_b valid_b
  for set_a :: "'v \<Rightarrow> psbt_input \<Rightarrow> psbt_input" and get_a key_a valid_a
    and set_b :: "'w \<Rightarrow> psbt_input \<Rightarrow> psbt_input" and get_b key_b valid_b +
  assumes keys_differ: "key_a \<noteq> key_b"
begin

lemma get_a_set_b: "get_a (set_b w i) = get_a i"
  by (rule a.get_local) (simp add: b.set_frame keys_differ)

lemma get_b_set_a: "get_b (set_a v i) = get_b i"
  by (rule b.get_local) (simp add: a.set_frame keys_differ [symmetric])

lemma both_set:
  "valid_a v \<Longrightarrow> valid_b w \<Longrightarrow>
     get_a (set_b w (set_a v i)) = Some v \<and> get_b (set_b w (set_a v i)) = Some w"
  by (simp add: get_a_set_b a.get_set b.get_set)

end

lemmas psbt_keys = prop_key_def ETH_ADDRESS_KEY_TYPE_def SIGNING_COMMITMENTS_KEY_TYPE_def
  PARTIAL_SIGNATURE_KEY_TYPE_def UTXO_VERSION_TYPE_def PEGOUT_ID_KEY_TYPE_def

lemma put_field_simps [simp]:
  "map_of (in_proprietary (put_field k v i)) = (map_of (in_proprietary i))(k \<mapsto> v)"
  "witness_utxo (put_field k v i) = witness_utxo i"
  "wf_map (in_proprietary i) \<Longrightarrow> wf_map (in_proprietary (put_field k v i))"
  by (simp_all add: put_field_def alist_simps)

interpretation eth_field: psbt_field set_eth_address eth_address "prop_key ETH_ADDRESS_KEY_TYPE []"
    "\<lambda>e. length e = 20"
  by unfold_locales (simp_all add: set_eth_address_def eth_address_def)

interpretation version_field: psbt_field "\<lambda>v. add_version_to_psbt (utxo_version_as_u32 v)"
    get_version_from_psbt_input "prop_key UTXO_VERSION_TYPE []" "\<lambda>_. True"
proof unfold_locales
  fix v i
  show "get_version_from_psbt_input (add_version_to_psbt (utxo_version_as_u32 v) i) = Some v"
    by (cases v) (simp add: add_version_to_psbt_def get_version_from_psbt_input_def utxo_version_try_from_def)
qed (simp_all add: add_version_to_psbt_def get_version_from_psbt_input_def)

interpretation share_field: psbt_field "set_partial_signature F frost_id" "\<lambda>i. partial_signature F i frost_id"
    "prop_key PARTIAL_SIGNATURE_KEY_TYPE (id_serialize F frost_id)" "\<lambda>_. frost_codec_ok F"
  for F :: "('id, 'sc, 'ss) frost_lib" and frost_id
  by unfold_locales (simp_all add: set_partial_signature_def partial_signature_def frost_codec_ok_def)

interpretation eth_version: two_psbt_fields set_eth_address eth_address "prop_key ETH_ADDRESS_KEY_TYPE []"
    "\<lambda>e. length e = 20" "\<lambda>v. add_version_to_psbt (utxo_version_as_u32 v)"
    get_version_from_psbt_input "prop_key UTXO_VERSION_TYPE []" "\<lambda>_. True"
  by unfold_locales (simp add: psbt_keys)

section \<open>Scans and lookups\<close>

text \<open>What a scan collects for an identifier is what its key holds.\<close>

lemma collect_fields_map_of:
  assumes "\<And>i b. de_id b = Some i \<longleftrightarrow> b = ser_id i" and "wf_map fs"
  shows "map_of (collect_fields de_id de_val subtype ret fs) frost_id =
    (case Option.bind (map_of fs (prop_key subtype (ser_id frost_id))) de_val of
       Some v \<Rightarrow> Some v | None \<Rightarrow> map_of ret frost_id)"
  using assms(2)
proof (induction fs arbitrary: ret)
  case Nil
  then show ?case by simp
next
  case (Cons x fs)
  obtain key val where x: "x = (key, val)" by (cases x)
  from Cons.prems have wf: "wf_map fs" and new: "key \<notin> fst ` set fs" by (auto simp: wf_map_def x)
  note IH = Cons.IH [OF wf]
  show ?case
  proof (cases "key = prop_key subtype (ser_id frost_id)")
    case True
    then have "de_id (pk_key key) = Some frost_id" "key_cast key subtype = Some (pk_key key)"
      by (simp_all add: assms(1) prop_key_def key_cast_def)
    moreover have "map_of fs key = None" using new by (simp add: map_of_eq_None_iff)
    ultimately show ?thesis
      using True by (auto simp: x IH alist_simps split: option.split)
  next
    case False
    have "f \<noteq> frost_id" if "key_cast key subtype = Some k" "de_id k = Some f" for k f
      using that False assms(1) [of k f]
      by (cases key) (auto simp: key_cast_def prop_key_def split: if_splits)
    then show ?thesis
      using False by (auto simp: x IH alist_simps split: option.split)
  qed
qed

lemma all_signing_commitments_map_of:
  assumes "frost_codec_ok F" and "wf_map (in_proprietary i)"
  shows "map_of (all_signing_commitments F i) frost_id = signing_commitments F i frost_id"
  using collect_fields_map_of [of "id_deserialize F" "id_serialize F" "in_proprietary i"
      "commitments_deserialize F" SIGNING_COMMITMENTS_KEY_TYPE "[]" frost_id] assms
  by (auto simp: all_signing_commitments_def signing_commitments_def frost_codec_ok_def split: option.split)

lemma all_partial_signatures_map_of:
  assumes "frost_codec_ok F" and "wf_map (in_proprietary i)"
  shows "map_of (all_partial_signatures F i) frost_id = partial_signature F i frost_id"
  using collect_fields_map_of [of "id_deserialize F" "id_serialize F" "in_proprietary i"
      "share_deserialize F" PARTIAL_SIGNATURE_KEY_TYPE "[]" frost_id] assms
  by (auto simp: all_partial_signatures_def partial_signature_def frost_codec_ok_def split: option.split)

section \<open>The constructed PSBT\<close>

definition psbt_tx :: "input_dto list \<Rightarrow> tx_out list \<Rightarrow> transaction" where
  "psbt_tx inputs outs = \<lparr>tx_version = 2, lock_time = 0,
     tx_input = map (\<lambda>u. \<lparr>previous_output = dto_outpoint u, script_sig = [],
                          sequence = SEQUENCE_RBF, tx_witness = []\<rparr>) inputs,
     tx_output = outs\<rparr>"

definition dto_input :: "input_dto \<Rightarrow> psbt_input" where
  "dto_input u = add_version_to_psbt (utxo_version_as_u32 (dto_version u))
     (case dto_eth_address u of
        Some eth \<Rightarrow> set_eth_address eth \<lparr>witness_utxo = Some (dto_output u), in_proprietary = []\<rparr>
      | None \<Rightarrow> \<lparr>witness_utxo = Some (dto_output u), in_proprietary = []\<rparr>)"

definition pegout_output :: "u8 list \<Rightarrow> psbt_output" where
  "pegout_output b = set_pegout_id b \<lparr>out_proprietary = []\<rparr>"

lemma unsigned_psbt_tx: "unsigned (psbt_tx inputs outs)"
  by (simp add: unsigned_def psbt_tx_def list_all_iff)

lemma zip_map_const: "length xs \<le> length ys \<Longrightarrow> zip (map (\<lambda>_. c) ys) xs = map (\<lambda>x. (c, x)) xs"
proof (induction xs arbitrary: ys)
  case (Cons x xs)
  then show ?case by (cases ys) auto
qed simp

lemma create_psbt_Ok:
  assumes "from_unsigned_ok L"
  shows "create_psbt L inputs outputs change = Ok
    \<lparr>unsigned_tx = psbt_tx inputs (map fst outputs @ (case change of Some c \<Rightarrow> [c] | None \<Rightarrow> [])),
     psbt_inputs = map dto_input inputs,
     psbt_outputs = map (pegout_output \<circ> snd) outputs @
       (case change of Some c \<Rightarrow> [\<lparr>out_proprietary = []\<rparr>] | None \<Rightarrow> [])\<rparr>"
proof -
  let ?outs = "map fst outputs @ (case change of Some c \<Rightarrow> [c] | None \<Rightarrow> [])"
  let ?tx = "psbt_tx inputs ?outs"
  have blank: "lib_from_unsigned_tx L ?tx = Some (blank_psbt ?tx)"
    using assms unsigned_psbt_tx by (simp add: from_unsigned_ok_def)
  have ins: "psbt_inputs (blank_psbt ?tx) =
      map (\<lambda>_. \<lparr>witness_utxo = None, in_proprietary = []\<rparr>) inputs"
    by (simp add: blank_psbt_def psbt_tx_def comp_def)
  have outs: "psbt_outputs (blank_psbt ?tx) = map (\<lambda>_. \<lparr>out_proprietary = []\<rparr>) ?outs"
    by (simp add: blank_psbt_def psbt_tx_def)
  have "length outputs \<le> length ?outs" by simp
  from zip_map_const [OF this, of "\<lparr>out_proprietary = []\<rparr>"]
  have zip: "zip (psbt_outputs (blank_psbt ?tx)) outputs = map (\<lambda>x. (\<lparr>out_proprietary = []\<rparr>, x)) outputs"
    by (simp only: outs)
  have drop: "drop (length outputs) (psbt_outputs (blank_psbt ?tx)) =
      (case change of Some c \<Rightarrow> [\<lparr>out_proprietary = []\<rparr>] | None \<Rightarrow> [])"
    unfolding outs by (simp split: option.split)
  show ?thesis
    unfolding create_psbt_def Let_def
    using blank zip drop ins
    by (simp add: psbt_tx_def zip_map_const dto_input_def pegout_output_def case_prod_beta comp_def
        blank_psbt_def cong: option.case_cong)
qed

lemma dto_input_fields:
  assumes "pred_option (\<lambda>e. length e = 20) (dto_eth_address u)"
  shows "witness_utxo (dto_input u) = Some (dto_output u)"
    and "eth_address (dto_input u) = dto_eth_address u"
    and "get_version_from_psbt_input (dto_input u) = Some (dto_version u)"
proof -
  have none: "eth_address \<lparr>witness_utxo = w, in_proprietary = []\<rparr> = None" for w
    by (simp add: eth_address_def)
  show "witness_utxo (dto_input u) = Some (dto_output u)"
    by (simp add: dto_input_def version_field.set_utxo eth_field.set_utxo split: option.split)
  show "eth_address (dto_input u) = dto_eth_address u"
    using assms
    by (auto simp: dto_input_def eth_version.get_a_set_b eth_field.get_set none split: option.split)
  show "get_version_from_psbt_input (dto_input u) = Some (dto_version u)"
    by (simp add: dto_input_def version_field.get_set)
qed

lemma pegout_output_id: "length b = 36 \<Longrightarrow> psbt_pegout_id (pegout_output b) = Some b"
  by (simp add: pegout_output_def set_pegout_id_def psbt_pegout_id_def alist_simps)

lemma from_unsigned_sample: "from_unsigned_ok sample_lib"
  by (simp add: from_unsigned_ok_def sample_lib_def)

lemma frost_codec_sample: "frost_codec_ok sample_frost"
  by (auto simp: frost_codec_ok_def sample_frost_def split: list.splits)

lemma signing_packages_collect:
  fixes S :: "transaction \<Rightarrow> nat \<Rightarrow> tx_out list \<Rightarrow> ('te, 'h) result" and F :: "('id, 'sc, 'ss) frost_lib"
  shows "signing_packages S F p = fold_result (\<lambda>ret x. bind_result
     (bind_result (map_err SighashError (calculate_sighash S p (fst x))) (\<lambda>h.
        if all_signing_commitments F (snd x) = [] then Err MissingSigningCommitments
        else Ok (all_signing_commitments F (snd x), h)))
     (\<lambda>y. Ok (ret @ [y]))) [] (enumerate 0 (psbt_inputs p))"
  unfolding signing_packages_def
proof (rule arg_cong [where f = "\<lambda>f. fold_result f [] (enumerate 0 (psbt_inputs p))"], intro ext)
  fix ret :: "(('id \<times> 'sc) list \<times> 'h) list" and x :: "nat \<times> psbt_input"
  show "(case x of (idx, input) \<Rightarrow> bind_result (map_err SighashError (calculate_sighash S p idx))
      (\<lambda>sighash. let sc = all_signing_commitments F input
        in if sc = [] then Err MissingSigningCommitments else Ok (ret @ [(sc, sighash)]))) =
    bind_result (bind_result (map_err SighashError (calculate_sighash S p (fst x)))
      (\<lambda>h. if all_signing_commitments F (snd x) = [] then Err MissingSigningCommitments
        else Ok (all_signing_commitments F (snd x), h))) (\<lambda>y. Ok (ret @ [y]))"
    by (cases "calculate_sighash S p (fst x)") (simp_all add: case_prod_beta Let_def)
qed

section \<open>Properties\<close>

text \<open>
  (C29) The PSBT carries what it was built from. With a crate that wraps unsigned transactions as
  documented, 20-byte addresses and 36-byte pegout ids, the construction does not panic; each
  input reads back the output it spends, the address and the version of its UTXO; the outputs
  are the pegouts followed by the change; and the pegout ids read back in order, the change
  having none.
\<close>

theorem create_psbt_carries_metadata:
  assumes "from_unsigned_ok L"
    and "list_all (\<lambda>u. pred_option (\<lambda>e. length e = 20) (dto_eth_address u)) inputs"
    and "list_all (\<lambda>out. length (snd out) = 36) outputs"
  shows "\<exists>p. create_psbt L inputs outputs change = Ok p \<and>
    map (\<lambda>i. (witness_utxo i, eth_address i, get_version_from_psbt_input i)) (psbt_inputs p) =
      map (\<lambda>u. (Some (dto_output u), dto_eth_address u, Some (dto_version u))) inputs \<and>
    map previous_output (tx_input (unsigned_tx p)) = map dto_outpoint inputs \<and>
    tx_output (unsigned_tx p) = map fst outputs @ (case change of Some c \<Rightarrow> [c] | None \<Rightarrow> []) \<and>
    pegout_ids p = map snd outputs"
proof -
  have "psbt_pegout_id \<lparr>out_proprietary = []\<rparr> = None" by (simp add: psbt_pegout_id_def)
  moreover have "List.map_filter psbt_pegout_id (map (pegout_output \<circ> snd) outputs) = map snd outputs"
    using assms(3) by (induction outputs) (simp_all add: List.map_filter_simps pegout_output_id)
  ultimately have "List.map_filter psbt_pegout_id (map (pegout_output \<circ> snd) outputs @
      (case change of Some c \<Rightarrow> [\<lparr>out_proprietary = []\<rparr>] | None \<Rightarrow> [])) = map snd outputs"
    by (cases change) (simp_all add: List.map_filter_def)
  moreover have "map ((\<lambda>i. (witness_utxo i, eth_address i, get_version_from_psbt_input i)) \<circ> dto_input) inputs =
      map (\<lambda>u. (Some (dto_output u), dto_eth_address u, Some (dto_version u))) inputs"
    using assms(2) by (induction inputs) (simp_all add: dto_input_fields)
  ultimately show ?thesis
    by (simp add: create_psbt_Ok [OF assms(1)] pegout_ids_def psbt_tx_def comp_def)
qed

theorem create_psbt_carries_metadata_witness:
  "\<exists>p. create_psbt sample_lib [sample_dto] [(\<lparr>txo_value = 20000, script_pubkey = [82]\<rparr>, replicate 36 5)]
       (Some \<lparr>txo_value = 30000, script_pubkey = [83]\<rparr>) = (Ok p :: (unit, psbt) result) \<and>
     pegout_ids p = [replicate 36 5] \<and>
     map eth_address (psbt_inputs p) = [Some (replicate 20 9)]"
  using create_psbt_carries_metadata [OF from_unsigned_sample, of "[sample_dto]"
      "[(\<lparr>txo_value = 20000, script_pubkey = [82]\<rparr>, replicate 36 5)]"
      "Some \<lparr>txo_value = 30000, script_pubkey = [83]\<rparr>"]
  by (auto simp: sample_dto_def)

text \<open>
  (C30) Adding the commitment of one signer changes exactly that entry. With canonical encodings,
  setting a commitment that serializes gives an input in which the commitments of all signers
  are the old ones updated at that signer, the partial signatures, the address, the version and
  the spent output being as before.
\<close>

theorem set_signing_commitment_updates_one:
  assumes "frost_codec_ok F" and "wf_map (in_proprietary i)" and "commitments_serialize F c = Some b"
  shows "\<exists>i'. set_signing_commitment F frost_id c i = Ok i' \<and> wf_map (in_proprietary i') \<and>
    map_of (all_signing_commitments F i') = (map_of (all_signing_commitments F i))(frost_id \<mapsto> c) \<and>
    map_of (all_partial_signatures F i') = map_of (all_partial_signatures F i) \<and>
    eth_address i' = eth_address i \<and> get_version_from_psbt_input i' = get_version_from_psbt_input i \<and>
    witness_utxo i' = witness_utxo i"
proof -
  let ?k = "prop_key SIGNING_COMMITMENTS_KEY_TYPE (id_serialize F frost_id)"
  let ?i = "put_field ?k b i"
  have set: "set_signing_commitment F frost_id c i = Ok ?i"
    using assms(3) by (simp add: set_signing_commitment_def)
  have wf: "wf_map (in_proprietary ?i)" using assms(2) by simp
  have inj: "id_serialize F x = id_serialize F y \<longleftrightarrow> x = y" for x y
    using assms(1) unfolding frost_codec_ok_def by (metis option.inject)
  have de: "commitments_deserialize F b = Some c"
    using assms(1,3) by (simp add: frost_codec_ok_def)
  have "signing_commitments F ?i x = (if x = frost_id then Some c else signing_commitments F i x)" for x
    by (simp add: signing_commitments_def prop_key_def inj de)
  moreover have "partial_signature F ?i x = partial_signature F i x" for x
    by (rule share_field.get_after_put) (simp add: psbt_keys)
  moreover have "eth_address ?i = eth_address i"
    by (rule eth_field.get_after_put) (simp add: psbt_keys)
  moreover have "get_version_from_psbt_input ?i = get_version_from_psbt_input i"
    by (rule version_field.get_after_put) (simp add: psbt_keys)
  ultimately show ?thesis
    using set wf assms(2)
    by (auto simp: fun_eq_iff all_signing_commitments_map_of [OF assms(1)]
        all_partial_signatures_map_of [OF assms(1)])
qed

theorem set_signing_commitment_updates_one_witness:
  "\<exists>i'. set_signing_commitment sample_frost 3 77 (dto_input sample_dto) = Ok i' \<and>
     map_of (all_signing_commitments sample_frost i') 3 = Some 77 \<and>
     eth_address i' = eth_address (dto_input sample_dto)"
proof -
  have "wf_map (in_proprietary (dto_input sample_dto))"
    by (simp add: dto_input_def sample_dto_def add_version_to_psbt_def set_eth_address_def)
  moreover have "commitments_serialize sample_frost 77 = Some [77]" by (simp add: sample_frost_def)
  ultimately show ?thesis
    using set_signing_commitment_updates_one [OF frost_codec_sample, of "dto_input sample_dto" 77 "[77]" 3]
    by auto
qed

text \<open>
  (C37) Signing packages are complete: when the conversion succeeds there is one package for each
  input, in order, holding the commitments of that input, which are not empty, and the signature
  hash of that input over the outputs spent by all of them.
\<close>

theorem signing_packages_per_input:
  assumes "signing_packages S F p = Ok pkgs"
  shows "list_all2 (\<lambda>(idx, input) (sc, h). sc = all_signing_commitments F input \<and> sc \<noteq> [] \<and>
    calculate_sighash S p idx = Ok h) (enumerate 0 (psbt_inputs p)) pkgs"
proof -
  from assms have "list_all2 (\<lambda>x y. bind_result (map_err SighashError (calculate_sighash S p (fst x))) (\<lambda>h.
        if all_signing_commitments F (snd x) = [] then Err MissingSigningCommitments
        else Ok (all_signing_commitments F (snd x), h)) = Ok y) (enumerate 0 (psbt_inputs p)) pkgs"
    by (auto simp: signing_packages_collect fold_result_collect)
  then show ?thesis
  proof (rule list_all2_mono)
    fix x :: "nat \<times> psbt_input" and y
    assume "bind_result (map_err SighashError (calculate_sighash S p (fst x))) (\<lambda>h.
        if all_signing_commitments F (snd x) = [] then Err MissingSigningCommitments
        else Ok (all_signing_commitments F (snd x), h)) = Ok y"
    then show "(case x of (idx, input) \<Rightarrow> \<lambda>(sc, h). sc = all_signing_commitments F input \<and> sc \<noteq> [] \<and>
        calculate_sighash S p idx = Ok h) y"
      by (cases "calculate_sighash S p (fst x)") (auto split: if_splits prod.splits)
  qed
qed

theorem signing_packages_per_input_witness:
  "\<exists>i' pkgs. set_signing_commitment sample_frost 3 77 (dto_input sample_dto) = Ok i' \<and>
     signing_packages (\<lambda>_ index _. (Ok index :: (unit, nat) result)) sample_frost
       \<lparr>unsigned_tx = psbt_tx [sample_dto] [], psbt_inputs = [i'], psbt_outputs = []\<rparr> = Ok pkgs \<and>
     pkgs = [([(3, 77)], 0)]"
proof -
  let ?S = "\<lambda>(_ :: transaction) index (_ :: tx_out list). (Ok index :: (unit, nat) result)"
  let ?i = "put_field (prop_key SIGNING_COMMITMENTS_KEY_TYPE [3]) [77] (dto_input sample_dto)"
  let ?p = "\<lparr>unsigned_tx = psbt_tx [sample_dto] [], psbt_inputs = [?i], psbt_outputs = []\<rparr>"
  have set: "set_signing_commitment sample_frost 3 77 (dto_input sample_dto) = Ok ?i"
    by (simp add: set_signing_commitment_def sample_frost_def)
  have all: "all_signing_commitments sample_frost ?i = [(3, 77)]"
    by (simp add: all_signing_commitments_def sample_frost_def put_field_def dto_input_def sample_dto_def
        add_version_to_psbt_def set_eth_address_def psbt_keys key_cast_def)
  have utxo: "witness_utxo (dto_input sample_dto) = Some (dto_output sample_dto)"
    by (simp add: dto_input_def sample_dto_def add_version_to_psbt_def set_eth_address_def)
  obtain pkgs where pkgs: "signing_packages ?S sample_frost ?p = Ok pkgs"
    by (simp add: signing_packages_def calculate_sighash_def all utxo)
  from signing_packages_per_input [OF pkgs] have "pkgs = [([(3, 77)], 0)]"
    by (auto simp: list_all2_Cons1 all calculate_sighash_def utxo)
  with set pkgs show ?thesis by blast
qed

end
