(* ===== verification/CoinSelection.thy ===== *)
theory CoinSelection
  imports Psbt
begin

text \<open>
  Coin selection and fee handling for pegout transactions
  (\<open>btc-server/src/wallet/coin_selection.rs\<close>, the weights of \<open>wallet/mod.rs\<close> and
  \<open>wallet/util.rs\<close>). The pegouts pay the fee, shared among them; the change is what the inputs
  leave over the requested pegouts. A \<open>HashMap\<close> of UTXOs is an association list; the selection
  algorithm, the transaction weight, the dust threshold and the fee computation of the crates are
  the fields of \<open>bitcoin_lib\<close>. An unchecked \<open>sum\<close> of amounts wraps, as the release profile does.
\<close>

section \<open>Errors and constants\<close>

datatype sanity_check_error =
    BadRefundBalance amount amount amount
  | RecalculationFilteredMoreOutputs

datatype wallet_calculation_error = WeightOverflow | InvalidParameters

text \<open>The payloads of errors of the crates are left out; \<open>CoinSelectionBdk\<close> carries the fields
  \<open>needed\<close> and \<open>available\<close> of \<open>InsufficientFunds\<close>.\<close>

datatype coin_selection_error =
    CoinSelectionBdk (cs_needed: amount) (cs_available: amount)
  | PsbtError
  | ExtractTxError
  | OutputsCannotBeEmpty
  | PegoutFeeOverflow
  | FeeRateOverflow
  | TotalUtxosValueOverflow
  | SanityCheckError sanity_check_error
  | NoViableOutputs
  | WalletCalculationError wallet_calculation_error

type_synonym pegout = "tx_out \<times> u8 list"

datatype filter_result = AllRemaining "pegout list" | SomeFiltered "u8 list list"

definition TARGET_CHANGE_PERCENT :: u64 where "TARGET_CHANGE_PERCENT = 50"
definition MAX_CHANGE_PERCENT :: u64 where "MAX_CHANGE_PERCENT = 5"
definition MIN_CHANGE_SATS :: u64 where "MIN_CHANGE_SATS = 10000"

definition TAPROOT_KEYSPEND_SIGHASH_DEFAULT_WEIGHT :: u64 where
  "TAPROOT_KEYSPEND_SIGHASH_DEFAULT_WEIGHT = 65"
definition SEGWIT_FLAG_WEIGHT :: u64 where "SEGWIT_FLAG_WEIGHT = 1"
definition SEGWIT_MARKER_WEIGHT :: u64 where "SEGWIT_MARKER_WEIGHT = 1"
definition MAX_BITCOIN_TX_WEIGHT :: u64 where "MAX_BITCOIN_TX_WEIGHT = 400000"
definition MAX_BASE_TX_WEIGHT :: u64 where
  "MAX_BASE_TX_WEIGHT = 4 * 4 + 1 + 1 + 3 * 4 + 3 * 4 + 4 * 4"
definition PER_P2TR_KEYSPEND_WEIGHT :: u64 where
  "PER_P2TR_KEYSPEND_WEIGHT =
     32 * 4 + 4 * 4 + 1 * 4 + 4 * 4 + 1 + TAPROOT_KEYSPEND_SIGHASH_DEFAULT_WEIGHT"
definition PER_OUTPUT_MAX_WEIGHT :: u64 where "PER_OUTPUT_MAX_WEIGHT = 8 * 4 + 1 * 4 + 34 * 4"

section \<open>Weights\<close>

definition calculate_signed_tx_weight ::
    "bitcoin_lib \<Rightarrow> psbt \<Rightarrow> (wallet_calculation_error, u64) result" where
  "calculate_signed_tx_weight L p =
     (let unsigned_tx_weight = lib_tx_weight L (unsigned_tx p);
          num_inputs = of_nat (length (psbt_inputs p))
      in bind_result (ok_or WeightOverflow
             (checked_mul (TAPROOT_KEYSPEND_SIGHASH_DEFAULT_WEIGHT + 1) num_inputs))
           (\<lambda>total_signature_weight.
         ok_or WeightOverflow
           (Option.bind (checked_add unsigned_tx_weight total_signature_weight) (\<lambda>w.
            Option.bind (checked_add w SEGWIT_FLAG_WEIGHT) (\<lambda>w.
            checked_add w SEGWIT_MARKER_WEIGHT)))))"

text \<open>\<open>fee_amount\<close> is the fee the crate reads off a PSBT.\<close>

definition calculate_signed_tx_fee_rate ::
    "bitcoin_lib \<Rightarrow> (psbt \<Rightarrow> amount option) \<Rightarrow> psbt \<Rightarrow> (wallet_calculation_error, u64) result" where
  "calculate_signed_tx_fee_rate L fee_amount p =
     bind_result (calculate_signed_tx_weight L p) (\<lambda>tx_weight.
       if tx_weight = 0 then Err InvalidParameters
       else bind_result (expect (fee_amount p)) (\<lambda>absolute_fee.
         Ok (absolute_fee * 1000 div tx_weight)))"

definition max_number_of_psbt_inputs :: "u64 \<Rightarrow> u64" where
  "max_number_of_psbt_inputs num_outputs =
     (let psbt_without_inputs_weight = MAX_BASE_TX_WEIGHT + num_outputs * PER_OUTPUT_MAX_WEIGHT
      in (MAX_BITCOIN_TX_WEIGHT - psbt_without_inputs_weight) div PER_P2TR_KEYSPEND_WEIGHT)"

section \<open>Selection\<close>

fun checked_sum :: "amount list \<Rightarrow> amount option" where
  "checked_sum [] = Some 0"
| "checked_sum (x # xs) = Option.bind (checked_sum xs) (checked_add x)"

definition utxo_to_bdk :: "utxo \<Rightarrow> weighted_utxo" where
  "utxo_to_bdk u = \<lparr>satisfaction_weight = TAPROOT_KEYSPEND_SIGHASH_DEFAULT_WEIGHT,
     wu_outpoint = ut_outpoint u, wu_txout = ut_output u\<rparr>"

definition dto_of_utxo :: "utxo \<Rightarrow> input_dto" where
  "dto_of_utxo s = \<lparr>dto_outpoint = ut_outpoint s, dto_output = ut_output s,
     dto_eth_address = ut_eth_address s,
     dto_version = (case utxo_version_try_from (ut_version s) of Ok v \<Rightarrow> v | _ \<Rightarrow> utxo_version_default)\<rparr>"

definition perform_coin_selection ::
    "bitcoin_lib \<Rightarrow> (out_point \<times> utxo) list \<Rightarrow> (out_point \<times> utxo) list \<Rightarrow> u64 \<Rightarrow> amount \<Rightarrow> script \<Rightarrow>
     (coin_selection_error, input_dto list) result" where
  "perform_coin_selection L optional_utxos required_utxos fee_rate target change_script =
     bind_result (map_err (\<lambda>(needed, available). CoinSelectionBdk needed available)
         (lib_coin_select L (map (utxo_to_bdk \<circ> snd) required_utxos)
            (map (utxo_to_bdk \<circ> snd) optional_utxos) fee_rate target change_script)) (\<lambda>selection.
       Ok (map dto_of_utxo (List.map_filter (\<lambda>outpoint.
             case map_of optional_utxos outpoint of
               Some u \<Rightarrow> Some u
             | None \<Rightarrow> map_of required_utxos outpoint) selection)))"

definition calculate_target_change :: "amount \<Rightarrow> amount \<Rightarrow> (coin_selection_error, amount) result" where
  "calculate_target_change total_pegout_value remaining_utxos_value =
     bind_result (ok_or FeeRateOverflow (checked_mul total_pegout_value TARGET_CHANGE_PERCENT)) (\<lambda>a.
     bind_result (ok_or FeeRateOverflow (checked_div a 100)) (\<lambda>target_change.
     bind_result (ok_or FeeRateOverflow (checked_mul remaining_utxos_value MAX_CHANGE_PERCENT)) (\<lambda>b.
     bind_result (ok_or FeeRateOverflow (checked_div b 100)) (\<lambda>max_change_value.
       Ok (min (max (min target_change max_change_value) MIN_CHANGE_SATS) remaining_utxos_value)))))"

definition create_change ::
    "input_dto list \<Rightarrow> pegout list \<Rightarrow> script \<Rightarrow> (coin_selection_error, tx_out option) result" where
  "create_change selected_inputs pegouts change_script =
     (let total_selected_inputs = sum_list (map (txo_value \<circ> dto_output) selected_inputs);
          total_pegout_target = sum_list (map (txo_value \<circ> fst) pegouts)
      in bind_result (ok_or (CoinSelectionBdk total_selected_inputs total_pegout_target)
             (checked_sub total_selected_inputs total_pegout_target)) (\<lambda>final_change_amount.
           Ok (Some \<lparr>txo_value = final_change_amount, script_pubkey = change_script\<rparr>)))"

definition calculate_required_fee ::
    "bitcoin_lib \<Rightarrow> input_dto list \<Rightarrow> pegout list \<Rightarrow> tx_out option \<Rightarrow> u64 \<Rightarrow>
     (coin_selection_error, amount) result" where
  "calculate_required_fee L inputs outputs change fee_rate =
     bind_result (create_psbt L inputs outputs change) (\<lambda>p.
     bind_result (map_err WalletCalculationError (calculate_signed_tx_weight L p)) (\<lambda>total_weight.
       ok_or FeeRateOverflow (lib_fee_wu L fee_rate total_weight)))"

section \<open>Fees\<close>

text \<open>The remainder goes one satoshi at a time to the highest outputs, ties in order.\<close>

definition calculate_fee_distribution ::
    "pegout list \<Rightarrow> amount \<Rightarrow> (coin_selection_error, amount list) result" where
  "calculate_fee_distribution pegouts absolute_fee =
     (let num_outputs = length pegouts
      in if num_outputs = 0 then Err OutputsCannotBeEmpty
         else bind_result (ok_or FeeRateOverflow (checked_div absolute_fee (of_nat num_outputs)))
           (\<lambda>base_fee_per_output.
             let remainder = absolute_fee mod of_nat num_outputs;
                 fees_to_subtract = replicate num_outputs base_fee_per_output;
                 sorted_indices = sort_key (\<lambda>index. - uint (txo_value (fst (pegouts ! index))))
                                    [0..<num_outputs]
             in fold_result (\<lambda>fees sat_index.
                  if sat_index < length sorted_indices
                  then let index = sorted_indices ! sat_index in
                       bind_result (ok_or FeeRateOverflow (checked_add (fees ! index) 1)) (\<lambda>f.
                         Ok (fees[index := f]))
                  else Panic)
                fees_to_subtract [0..<unat remainder]))"

definition try_apply_fees_and_filter_dust ::
    "bitcoin_lib \<Rightarrow> pegout list \<Rightarrow> amount \<Rightarrow> (coin_selection_error, filter_result) result" where
  "try_apply_fees_and_filter_dust L pegouts absolute_fee =
     (if pegouts = [] then Err NoViableOutputs
      else bind_result (calculate_fee_distribution pegouts absolute_fee) (\<lambda>fees_to_subtract.
        let updated = map (\<lambda>(i, (txout, pegout_id)).
              (txout\<lparr>txo_value := (case checked_sub (txo_value txout) (fees_to_subtract ! i) of
                                      Some v \<Rightarrow> v | None \<Rightarrow> 0)\<rparr>, pegout_id))
              (enumerate 0 pegouts);
            viable = (\<lambda>(txout, _). lib_minimal_non_dust L (script_pubkey txout) \<le> txo_value txout);
            result = filter viable updated;
            filtered_pegout_ids = map snd (filter (\<lambda>x. \<not> viable x) updated)
        in if length result = length pegouts then Ok (AllRemaining result)
           else if result = [] then Err NoViableOutputs
           else Ok (SomeFiltered filtered_pegout_ids)))"

definition apply_fees_and_create_psbt ::
    "bitcoin_lib \<Rightarrow> input_dto list \<Rightarrow> pegout list \<Rightarrow> script \<Rightarrow> u64 \<Rightarrow>
     (coin_selection_error, psbt \<times> u8 list list) result" where
  "apply_fees_and_create_psbt L selected_inputs pegouts change_script fee_rate =
     bind_result (create_change selected_inputs pegouts change_script) (\<lambda>change.
     bind_result (calculate_required_fee L selected_inputs pegouts change fee_rate) (\<lambda>absolute_fee.
     bind_result (try_apply_fees_and_filter_dust L pegouts absolute_fee) (\<lambda>first_attempt.
     case first_attempt of
       AllRemaining final_pegouts \<Rightarrow>
         bind_result (create_psbt L selected_inputs final_pegouts change) (\<lambda>p. Ok (p, []))
     | SomeFiltered filtered_pegout_ids \<Rightarrow>
         let remaining_pegouts = filter (\<lambda>(_, pegout_id). pegout_id \<notin> set filtered_pegout_ids) pegouts
         in bind_result (create_change selected_inputs remaining_pegouts change_script)
              (\<lambda>recalculated_change.
            bind_result (calculate_required_fee L selected_inputs remaining_pegouts
                recalculated_change fee_rate) (\<lambda>recalculated_absolute_fee.
            bind_result (try_apply_fees_and_filter_dust L remaining_pegouts recalculated_absolute_fee)
              (\<lambda>second_attempt.
            case second_attempt of
              AllRemaining final_outputs \<Rightarrow>
                bind_result (create_psbt L selected_inputs final_outputs recalculated_change)
                  (\<lambda>p. Ok (p, filtered_pegout_ids))
            | SomeFiltered _ \<Rightarrow> Err (SanityCheckError RecalculationFilteredMoreOutputs)))))))"

definition sanity_check_psbt ::
    "bitcoin_lib \<Rightarrow> psbt \<Rightarrow> input_dto list \<Rightarrow> script \<Rightarrow> amount \<Rightarrow> (coin_selection_error, unit) result" where
  "sanity_check_psbt L p selected_inputs change_script total_pegout_target =
     bind_result (expect (lib_extract_tx L p)) (\<lambda>tx.
     let total_input_value = sum_list (map (txo_value \<circ> dto_output) selected_inputs)
     in bind_result (expect (find (\<lambda>out. script_pubkey out = change_script) (tx_output tx))) (\<lambda>change_output.
        bind_result (ok_or FeeRateOverflow (checked_sub total_input_value total_pegout_target)) (\<lambda>expected.
          if txo_value change_output \<noteq> expected
          then Err (SanityCheckError
                 (BadRefundBalance (txo_value change_output) total_input_value total_pegout_target))
          else Ok ())))"

definition coin_selection ::
    "bitcoin_lib \<Rightarrow> (out_point \<times> utxo) list \<Rightarrow> (out_point \<times> utxo) list \<Rightarrow> (tx_out \<times> pegout_id) list \<Rightarrow>
     u64 \<Rightarrow> script \<Rightarrow> (coin_selection_error, psbt) result" where
  "coin_selection L optional_utxos required_utxos outputs fee_rate change_script =
     (if outputs = [] then Err OutputsCannotBeEmpty
      else
        let pegouts = map (\<lambda>(txout, pegout_id). (txout, pegout_id_as_bytes pegout_id)) outputs in
        bind_result (ok_or TotalUtxosValueOverflow
            (checked_sum (map (txo_value \<circ> ut_output \<circ> snd) required_utxos))) (\<lambda>required_utxos_value.
        bind_result (ok_or TotalUtxosValueOverflow
            (checked_sum (map (txo_value \<circ> ut_output \<circ> snd) optional_utxos))) (\<lambda>optional_utxos_value.
        bind_result (ok_or TotalUtxosValueOverflow
            (checked_add required_utxos_value optional_utxos_value)) (\<lambda>total_utxos_value.
        bind_result (ok_or TotalUtxosValueOverflow
            (checked_sum (map (txo_value \<circ> fst) pegouts))) (\<lambda>total_pegout_target.
        bind_result (ok_or (CoinSelectionBdk total_pegout_target total_utxos_value)
            (checked_sub total_utxos_value total_pegout_target)) (\<lambda>remaining_utxos_value.
        bind_result (calculate_target_change total_pegout_target remaining_utxos_value) (\<lambda>target_change.
        bind_result (ok_or FeeRateOverflow (checked_add total_pegout_target target_change))
          (\<lambda>coin_selection_target.
        bind_result (perform_coin_selection L optional_utxos required_utxos fee_rate
            coin_selection_target change_script) (\<lambda>selected_inputs.
        bind_result (apply_fees_and_create_psbt L selected_inputs pegouts change_script fee_rate)
          (\<lambda>(p, filtered_pegout_ids).
        let updated_pegout_target = sum_list (List.map_filter (\<lambda>(txout, pegout_id).
              if pegout_id \<in> set filtered_pegout_ids then None else Some (txo_value txout)) pegouts) in
        bind_result (sanity_check_psbt L p selected_inputs change_script updated_pegout_target)
          (\<lambda>_. Ok p)))))))))))"

section \<open>Concrete inputs\<close>

definition sample_change_script :: script where
  "sample_change_script = [81, 32]"

definition sample_out_point :: out_point where
  "sample_out_point = \<lparr>op_txid = 7, op_vout = 1\<rparr>"

definition sample_utxos :: "(out_point \<times> utxo) list" where
  "sample_utxos = [(sample_out_point, \<lparr>ut_outpoint = sample_out_point,
     ut_output = \<lparr>txo_value = 300000, script_pubkey = sample_change_script\<rparr>,
     ut_eth_address = None, ut_version = 0\<rparr>)]"

definition sample_spare_utxos :: "(out_point \<times> utxo) list" where
  "sample_spare_utxos = [(\<lparr>op_txid = 8, op_vout = 0\<rparr>, \<lparr>ut_outpoint = \<lparr>op_txid = 8, op_vout = 0\<rparr>,
     ut_output = \<lparr>txo_value = 70000, script_pubkey = sample_change_script\<rparr>,
     ut_eth_address = None, ut_version = 0\<rparr>)]"

definition sample_request :: "amount \<Rightarrow> script \<Rightarrow> u32 \<Rightarrow> tx_out \<times> pegout_id" where
  "sample_request v spk idx =
     (\<lparr>txo_value = v, script_pubkey = spk\<rparr>, \<lparr>pg_txid = replicate 32 1, pg_idx = idx\<rparr>)"

section \<open>Totals\<close>

definition total_of_inputs :: "input_dto list \<Rightarrow> nat" where
  "total_of_inputs inputs = sum_list (map (unat \<circ> txo_value \<circ> dto_output) inputs)"

definition total_of_pegouts :: "pegout list \<Rightarrow> nat" where
  "total_of_pegouts ps = sum_list (map (unat \<circ> txo_value \<circ> fst) ps)"

definition total_of_outputs :: "tx_out list \<Rightarrow> nat" where
  "total_of_outputs outs = sum_list (map (unat \<circ> txo_value) outs)"

lemma unat_sum_list:
  "sum_list (map (unat \<circ> f) xs) < 2 ^ 64 \<Longrightarrow>
     unat (sum_list (map f xs) :: u64) = sum_list (map (unat \<circ> f) xs)"
proof (induction xs)
  case (Cons x xs)
  then have IH: "unat (sum_list (map f xs)) = sum_list (map (unat \<circ> f) xs)" by (simp add: comp_def)
  with Cons.prems show ?case by (simp add: unat_word_ariths comp_def)
qed simp

lemma unat_sum_inputs: "total_of_inputs inputs < 2 ^ 64 \<Longrightarrow>
    unat (sum_list (map (txo_value \<circ> dto_output) inputs)) = total_of_inputs inputs"
  using unat_sum_list [of "txo_value \<circ> dto_output" inputs] by (simp add: total_of_inputs_def comp_assoc)

lemma unat_sum_pegouts: "total_of_pegouts ps < 2 ^ 64 \<Longrightarrow>
    unat (sum_list (map (txo_value \<circ> fst) ps)) = total_of_pegouts ps"
  using unat_sum_list [of "txo_value \<circ> fst" ps] by (simp add: total_of_pegouts_def comp_assoc)

lemma checked_sum_Some:
  "checked_sum xs = Some s \<longleftrightarrow> unat s = sum_list (map unat xs)"
proof (induction xs arbitrary: s)
  case Nil
  then show ?case by (auto simp: unat_eq_0)
next
  case (Cons x xs)
  show ?case
  proof
    assume "checked_sum (x # xs) = Some s"
    then obtain t where "checked_sum xs = Some t" "checked_add x t = Some s"
      by (auto split: Option.bind_splits)
    then show "unat s = sum_list (map unat (x # xs))" by (simp add: Cons.IH uint_simps)
  next
    assume s: "unat s = sum_list (map unat (x # xs))"
    then have "unat (s - x) = sum_list (map unat xs)" by (simp add: unat_sub word_le_nat_alt)
    then have "checked_sum xs = Some (s - x)" by (simp add: Cons.IH)
    moreover have "checked_add x (s - x) = Some s"
      using s \<open>unat (s - x) = sum_list (map unat xs)\<close> by (simp add: uint_simps)
    ultimately show "checked_sum (x # xs) = Some s" by simp
  qed
qed

section \<open>Fee distribution\<close>

definition fee_order :: "pegout list \<Rightarrow> nat list" where
  "fee_order pegouts =
     sort_key (\<lambda>index. - uint (txo_value (fst (pegouts ! index)))) [0..<length pegouts]"

definition fee_shares :: "pegout list \<Rightarrow> amount \<Rightarrow> amount list" where
  "fee_shares pegouts fee =
     (let n = length pegouts; base = fee div of_nat n
      in map (\<lambda>i. if i \<in> set (take (unat fee mod n) (fee_order pegouts)) then base + 1 else base) [0..<n])"

lemma fee_order_props:
  "length (fee_order ps) = length ps" "distinct (fee_order ps)" "set (fee_order ps) = {..<length ps}"
  "sorted (map (\<lambda>i. - uint (txo_value (fst (ps ! i)))) (fee_order ps))"
  by (auto simp: fee_order_def)

lemma fee_distribution_loop:
  assumes "distinct idx" and "set idx = {..<n}" and "k \<le> length idx" and "unat base + 1 < 2 ^ 64"
  shows "fold_result (\<lambda>fees j. if j < length idx
      then let index = idx ! j in bind_result (ok_or e (checked_add (fees ! index) 1)) (\<lambda>f. Ok (fees[index := f]))
      else Panic) (replicate n (base :: u64)) [0..<k] =
    Ok (map (\<lambda>i. if i \<in> set (take k idx) then base + 1 else base) [0..<n])"
  using assms(3)
proof (induction k)
  case 0
  have "replicate n base = map (\<lambda>i. base) [0..<n]" by (simp add: map_replicate_const)
  then show ?case by simp
next
  case (Suc k)
  let ?i = "idx ! k"
  have i: "?i < n" using assms(2) Suc.prems by (metis Suc_le_eq lessThan_iff nth_mem)
  have fresh: "?i \<notin> set (take k idx)"
    using assms(1) Suc.prems by (simp add: distinct_conv_nth in_set_conv_nth)
  have add: "checked_add base 1 = Some (base + 1)" using assms(4) by (simp add: checked_add_def)
  have "set (take (Suc k) idx) = insert ?i (set (take k idx))"
    using Suc.prems by (simp add: take_Suc_conv_app_nth)
  then have "(map (\<lambda>i. if i \<in> set (take k idx) then base + 1 else base) [0..<n])[?i := base + 1] =
      map (\<lambda>i. if i \<in> set (take (Suc k) idx) then base + 1 else base) [0..<n]"
    using i by (intro nth_equalityI) (auto simp: nth_list_update)
  with Suc i fresh add show ?case
    by (simp add: fold_result_append Let_def)
qed

lemma fee_distribution_Ok:
  assumes "pegouts \<noteq> []" and "length pegouts < 2 ^ 64"
  shows "calculate_fee_distribution pegouts fee = Ok (fee_shares pegouts fee)"
proof -
  let ?n = "length pegouts" and ?base = "fee div of_nat (length pegouts)"
  have n: "unat (of_nat ?n :: u64) = ?n" using assms(2) by (simp add: unat_of_nat_u64)
  then have n0: "(of_nat ?n :: u64) \<noteq> 0" using assms(1) by (metis length_0_conv unat_0)
  have base: "unat ?base = unat fee div ?n" and rem: "unat (fee mod of_nat ?n) = unat fee mod ?n"
    by (simp_all only: unat_div unat_mod n)
  let ?r = "unat fee mod ?n"
  have le: "?r \<le> length (fee_order pegouts)"
    using assms(1) by (simp add: fee_order_props less_imp_le)
  have "fold_result (\<lambda>fees j. if j < length (fee_order pegouts)
      then let index = fee_order pegouts ! j in bind_result (ok_or FeeRateOverflow (checked_add (fees ! index) 1))
        (\<lambda>f. Ok (fees[index := f])) else Panic) (replicate ?n ?base) [0..<?r] = Ok (fee_shares pegouts fee)"
  proof (cases "?r = 0")
    case True
    then show ?thesis by (simp add: fee_shares_def Let_def map_replicate_const)
  next
    case False
    have "unat fee div ?n * ?n < unat fee"
      using False div_mult_mod_eq [of "unat fee" ?n] by linarith
    moreover have "unat fee div ?n * 1 \<le> unat fee div ?n * ?n"
      using assms(1) by (intro mult_le_mono) (simp_all add: Suc_le_eq)
    ultimately have "unat ?base + 1 < 2 ^ 64" using base unat_u64_less [of fee] by linarith
    from fee_distribution_loop [OF fee_order_props(2,3) le this, of FeeRateOverflow] show ?thesis
      by (simp add: fee_shares_def Let_def)
  qed
  then show ?thesis
    using assms(1) n0
    by (simp add: calculate_fee_distribution_def Let_def checked_div_def rem fee_order_def [symmetric]
        fee_order_props(1))
qed

lemma length_fee_shares [simp]: "length (fee_shares ps fee) = length ps"
  by (simp add: fee_shares_def Let_def)

lemma unat_fee_share:
  assumes "i < length ps" and "length ps < 2 ^ 64"
  shows "unat (fee_shares ps fee ! i) = unat fee div length ps +
    (if i \<in> set (take (unat fee mod length ps) (fee_order ps)) then 1 else 0)"
proof -
  let ?n = "length ps" and ?base = "fee div of_nat (length ps)"
  have base: "unat ?base = unat fee div ?n"
    using assms(2) by (simp add: unat_div unat_of_nat_u64)
  have "unat (?base + 1) = unat ?base + 1" if "0 < unat fee mod ?n"
  proof -
    have "unat fee div ?n * ?n < unat fee"
      using that div_mult_mod_eq [of "unat fee" ?n] by linarith
    moreover have "unat fee div ?n * 1 \<le> unat fee div ?n * ?n"
      using assms(1) by (intro mult_le_mono) simp_all
    ultimately have "unat ?base + 1 < 2 ^ 64" using base unat_u64_less [of fee] by linarith
    then show ?thesis by (simp add: unat_word_ariths)
  qed
  moreover have "0 < unat fee mod ?n" if "i \<in> set (take (unat fee mod ?n) (fee_order ps))"
    using that by (cases "unat fee mod ?n") simp_all
  ultimately show ?thesis
    using assms(1) base by (simp add: fee_shares_def Let_def)
qed

lemma sum_fee_shares:
  assumes "ps \<noteq> []" and "length ps < 2 ^ 64"
  shows "sum_list (map unat (fee_shares ps fee)) = unat fee"
proof -
  let ?n = "length ps" and ?r = "unat fee mod length ps"
  let ?S = "set (take ?r (fee_order ps))"
  have r: "?r < ?n" using assms(1) by simp
  have S: "?S \<subseteq> {..<?n}" using set_take_subset [of ?r "fee_order ps"] by (simp add: fee_order_props)
  have "card ?S = ?r"
    using r fee_order_props(1,2) [of ps] by (simp add: distinct_card)
  moreover have "sum_list (map unat (fee_shares ps fee)) =
      (\<Sum>i<?n. unat fee div ?n + (if i \<in> ?S then 1 else 0))"
    using unat_fee_share [OF _ assms(2), of _ fee]
    by (simp add: sum_list_sum_nth atLeast0LessThan)
  moreover have "(\<Sum>i<?n. if i \<in> ?S then 1 else 0) = card ?S"
    using S by (simp add: sum.If_cases Int_absorb1)
  ultimately show ?thesis by (simp add: sum.distrib)
qed

lemma fee_shares_fair:
  assumes "i < length ps" and "j < length ps" and "length ps < 2 ^ 64"
    and "txo_value (fst (ps ! j)) < txo_value (fst (ps ! i))"
  shows "unat (fee_shares ps fee ! j) \<le> unat (fee_shares ps fee ! i)"
proof -
  let ?r = "unat fee mod length ps" and ?key = "\<lambda>i. - uint (txo_value (fst (ps ! i)))"
  have "i \<in> set (take ?r (fee_order ps))" if "j \<in> set (take ?r (fee_order ps))"
  proof -
    from that obtain b where b: "b < ?r" "b < length ps" "fee_order ps ! b = j"
      by (auto simp: in_set_conv_nth fee_order_props)
    from assms(1) have "i \<in> set (fee_order ps)" by (simp add: fee_order_props)
    then obtain a where a: "a < length ps" "fee_order ps ! a = i"
      unfolding in_set_conv_nth by (auto simp: fee_order_props(1))
    have "a < b"
    proof (rule ccontr)
      assume "\<not> a < b"
      then have "?key (fee_order ps ! b) \<le> ?key (fee_order ps ! a)"
        using sorted_nth_mono [OF fee_order_props(4) [of ps], of b a] a(1) b(2)
        by (simp add: fee_order_props)
      with a(2) b(3) assms(4) show False by (simp add: word_less_def)
    qed
    with a b show ?thesis by (auto simp: in_set_conv_nth fee_order_props intro!: exI [of _ a])
  qed
  then show ?thesis using assms(1-3) by (simp add: unat_fee_share)
qed

section \<open>Applying fees\<close>

definition dust_positive :: "bitcoin_lib \<Rightarrow> pegout list \<Rightarrow> bool" where
  "dust_positive L ps \<longleftrightarrow> list_all (\<lambda>(out, _). 0 < lib_minimal_non_dust L (script_pubkey out)) ps"

definition net_pegouts :: "pegout list \<Rightarrow> amount list \<Rightarrow> pegout list" where
  "net_pegouts ps fees = map (\<lambda>((out, pid), f). (out\<lparr>txo_value := txo_value out - f\<rparr>, pid)) (zip ps fees)"

definition above_dust :: "bitcoin_lib \<Rightarrow> pegout \<Rightarrow> bool" where
  "above_dust L x \<longleftrightarrow> lib_minimal_non_dust L (script_pubkey (fst x)) \<le> txo_value (fst x)"

lemma enumerate_zip: "length fs = length xs \<Longrightarrow>
    map (\<lambda>(i, x). g (fs ! i) x) (enumerate 0 xs) = map (\<lambda>(x, f). g f x) (zip xs fs)"
  by (rule nth_equalityI) (simp_all add: nth_enumerate_eq)

lemma net_pegouts_props:
  assumes "list_all2 (\<lambda>x f. f \<le> txo_value (fst x)) ps fs"
  shows "total_of_pegouts (net_pegouts ps fs) + sum_list (map unat fs) = total_of_pegouts ps"
    and "map snd (net_pegouts ps fs) = map snd ps"
    and "map (script_pubkey \<circ> fst) (net_pegouts ps fs) = map (script_pubkey \<circ> fst) ps"
  using assms
  by (induction rule: list_all2_induct)
    (auto simp: net_pegouts_def total_of_pegouts_def unat_sub word_le_nat_alt split: prod.split)

text \<open>The outputs after their shares, clamped at zero as the source does.\<close>

definition clamped :: "pegout \<Rightarrow> amount \<Rightarrow> pegout" where
  "clamped x f = (case x of (out, pid) \<Rightarrow>
     (out\<lparr>txo_value := (case checked_sub (txo_value out) f of Some v \<Rightarrow> v | None \<Rightarrow> 0)\<rparr>, pid))"

lemma try_apply_eq:
  assumes "ps \<noteq> []" and "length ps < 2 ^ 64"
  shows "try_apply_fees_and_filter_dust L ps fee =
    (let updated = map (\<lambda>(x, f). clamped x f) (zip ps (fee_shares ps fee));
         result = filter (above_dust L) updated
     in if length result = length ps then Ok (AllRemaining result)
        else if result = [] then Err NoViableOutputs
        else Ok (SomeFiltered (map snd (filter (\<lambda>x. \<not> above_dust L x) updated))))"
proof -
  have upd: "map (\<lambda>(i, (txout, pegout_id)).
      (txout\<lparr>txo_value := (case checked_sub (txo_value txout) (fee_shares ps fee ! i) of
          Some v \<Rightarrow> v | None \<Rightarrow> 0)\<rparr>, pegout_id)) (enumerate 0 ps) =
      map (\<lambda>(x, f). clamped x f) (zip ps (fee_shares ps fee))"
    using enumerate_zip [of "fee_shares ps fee" ps "\<lambda>f x. clamped x f"]
    by (simp add: clamped_def)
  have dust: "(\<lambda>(txout, _). lib_minimal_non_dust L (script_pubkey txout) \<le> txo_value txout) = above_dust L"
    by (auto simp: above_dust_def fun_eq_iff)
  show ?thesis
    using assms
    by (simp only: try_apply_fees_and_filter_dust_def fee_distribution_Ok [OF assms] bind_result.simps if_False
        Let_def upd dust)
qed

text \<open>When every output stays, no share exceeded its output, and the outputs lose exactly the fee.\<close>

lemma all_remaining:
  assumes "try_apply_fees_and_filter_dust L ps fee = Ok (AllRemaining final)"
    and "dust_positive L ps" and "length ps < 2 ^ 64"
  shows "final = net_pegouts ps (fee_shares ps fee)" and "list_all (above_dust L) final"
    and "total_of_pegouts final + unat fee = total_of_pegouts ps"
    and "map snd final = map snd ps" and "map (script_pubkey \<circ> fst) final = map (script_pubkey \<circ> fst) ps"
proof -
  let ?fees = "fee_shares ps fee"
  let ?upd = "map (\<lambda>(x, f). clamped x f) (zip ps ?fees)"
  have ne: "ps \<noteq> []" using assms(1) by (auto simp: try_apply_fees_and_filter_dust_def)
  have len: "length ?upd = length ps" by simp
  from assms(1) have fin: "final = filter (above_dust L) ?upd" "length final = length ps"
    by (auto simp: try_apply_eq [OF ne assms(3)] Let_def split: if_splits)
  have "\<forall>x \<in> set ?upd. above_dust L x"
  proof (rule ccontr)
    assume "\<not> (\<forall>x \<in> set ?upd. above_dust L x)"
    then obtain x where "x \<in> set ?upd" "\<not> above_dust L x" by blast
    then have "length (filter (above_dust L) ?upd) < length ?upd" by (rule length_filter_less)
    with fin len show False by simp
  qed
  then have all: "list_all (above_dust L) ?upd" and upd: "final = ?upd"
    using fin(1) by (simp_all add: list_all_iff filter_id_conv)
  show "list_all (above_dust L) final" using all upd by simp
  have le: "?fees ! i \<le> txo_value (fst (ps ! i))" if "i < length ps" for i
  proof (rule ccontr)
    assume "\<not> ?fees ! i \<le> txo_value (fst (ps ! i))"
    then have "txo_value (fst (clamped (ps ! i) (?fees ! i))) = 0"
      by (simp add: clamped_def checked_sub_def case_prod_beta)
    moreover have "script_pubkey (fst (clamped (ps ! i) (?fees ! i))) = script_pubkey (fst (ps ! i))"
      by (simp add: clamped_def case_prod_beta)
    moreover have "above_dust L (clamped (ps ! i) (?fees ! i))"
      using all that by (simp add: list_all_length)
    ultimately show False
      using assms(2) that by (auto simp: above_dust_def dust_positive_def list_all_length case_prod_beta)
  qed
  then have le2: "list_all2 (\<lambda>x f. f \<le> txo_value (fst x)) ps ?fees"
    by (simp add: list_all2_conv_all_nth)
  have "?upd = net_pegouts ps ?fees"
    unfolding net_pegouts_def
    by (rule nth_equalityI)
      (use le in \<open>simp_all add: clamped_def checked_sub_def case_prod_beta\<close>)
  with upd show final: "final = net_pegouts ps ?fees" by simp
  note props = net_pegouts_props [OF le2]
  from props(1) sum_fee_shares [OF ne assms(3)] final
  show "total_of_pegouts final + unat fee = total_of_pegouts ps" by simp
  show "map snd final = map snd ps" "map (script_pubkey \<circ> fst) final = map (script_pubkey \<circ> fst) ps"
    using props(2,3) final by simp_all
qed

section \<open>The assembled transaction\<close>

definition kept_pegouts :: "u8 list list \<Rightarrow> pegout list \<Rightarrow> pegout list" where
  "kept_pegouts filtered ps = filter (\<lambda>(_, pid). pid \<notin> set filtered) ps"

text \<open>The weight of a transaction counts bytes, and a value always takes eight of them.\<close>

definition weight_ignores_values :: "bitcoin_lib \<Rightarrow> bool" where
  "weight_ignores_values L \<longleftrightarrow> (\<forall>tx outs. map script_pubkey outs = map script_pubkey (tx_output tx) \<longrightarrow>
     lib_tx_weight L (tx\<lparr>tx_output := outs\<rparr>) = lib_tx_weight L tx)"

definition psbt_input_total :: "psbt \<Rightarrow> nat" where
  "psbt_input_total p =
     sum_list (map (\<lambda>i. case witness_utxo i of Some out \<Rightarrow> unat (txo_value out) | None \<Rightarrow> 0) (psbt_inputs p))"

lemma create_change_cases:
  assumes "create_change inputs ps cs = Ok c" and "total_of_inputs inputs < 2 ^ 64"
    and "total_of_pegouts ps < 2 ^ 64"
  obtains out where "c = Some out" "script_pubkey out = cs"
    "unat (txo_value out) + total_of_pegouts ps = total_of_inputs inputs"
  using assms unat_sum_inputs [OF assms(2)] unat_sum_pegouts [OF assms(3)]
  by (auto simp: create_change_def Let_def result_simps uint_simps)

lemma apply_fees_Ok:
  assumes "apply_fees_and_create_psbt L inputs ps cs rate = Ok (p, filtered)"
  obtains change fee final where
    "create_change inputs (kept_pegouts filtered ps) cs = Ok change"
    "calculate_required_fee L inputs (kept_pegouts filtered ps) change rate = Ok fee"
    "try_apply_fees_and_filter_dust L (kept_pegouts filtered ps) fee = Ok (AllRemaining final)"
    "create_psbt L inputs final change = (Ok p :: (coin_selection_error, psbt) result)"
proof -
  from assms obtain c1 f1 att where first:
    "create_change inputs ps cs = Ok c1" "calculate_required_fee L inputs ps c1 rate = Ok f1"
    "try_apply_fees_and_filter_dust L ps f1 = Ok att"
    unfolding apply_fees_and_create_psbt_def bind_result_Ok_iff by blast
  show thesis
  proof (cases att)
    case (AllRemaining final)
    with assms first have "create_psbt L inputs final c1 = (Ok p :: (coin_selection_error, psbt) result)"
      and none: "filtered = []"
      by (auto simp: apply_fees_and_create_psbt_def bind_result_Ok_iff)
    moreover have "kept_pegouts filtered ps = ps" using none by (simp add: kept_pegouts_def)
    ultimately show thesis using that first AllRemaining by simp
  next
    case (SomeFiltered ids)
    from assms first SomeFiltered obtain c2 f2 att2 where second:
      "create_change inputs (kept_pegouts ids ps) cs = Ok c2"
      "calculate_required_fee L inputs (kept_pegouts ids ps) c2 rate = Ok f2"
      "try_apply_fees_and_filter_dust L (kept_pegouts ids ps) f2 = Ok att2"
      "(case att2 of AllRemaining final \<Rightarrow> bind_result (create_psbt L inputs final c2) (\<lambda>p. Ok (p, ids))
        | SomeFiltered _ \<Rightarrow> Err (SanityCheckError RecalculationFilteredMoreOutputs)) = Ok (p, filtered)"
      by (auto simp: apply_fees_and_create_psbt_def bind_result_Ok_iff kept_pegouts_def Let_def)
    then obtain final where "att2 = AllRemaining final" "filtered = ids"
      "create_psbt L inputs final c2 = (Ok p :: (coin_selection_error, psbt) result)"
      by (cases att2) (auto simp: bind_result_Ok_iff)
    with that second show thesis by simp
  qed
qed

lemma total_kept_le: "total_of_pegouts (kept_pegouts filtered ps) \<le> total_of_pegouts ps"
  by (induction ps) (auto simp: kept_pegouts_def total_of_pegouts_def)

lemma dust_positive_kept: "dust_positive L ps \<Longrightarrow> dust_positive L (kept_pegouts filtered ps)"
  by (auto simp: dust_positive_def kept_pegouts_def list_all_iff)

lemma psbt_input_total_dto: "psbt_input_total \<lparr>unsigned_tx = tx, psbt_inputs = map dto_input inputs,
    psbt_outputs = outs\<rparr> = total_of_inputs inputs"
proof -
  have "witness_utxo (dto_input u) = Some (dto_output u)" for u
    by (simp add: dto_input_def version_field.set_utxo eth_field.set_utxo split: option.split)
  then show ?thesis by (simp add: psbt_input_total_def total_of_inputs_def comp_def)
qed

text \<open>The transaction pays exactly the fee of its own weight.\<close>

lemma applied_psbt:
  assumes "from_unsigned_ok L" and "weight_ignores_values L" and "dust_positive L ps"
    and "length ps < 2 ^ 64" and "total_of_inputs inputs < 2 ^ 64" and "total_of_pegouts ps < 2 ^ 64"
    and "apply_fees_and_create_psbt L inputs ps cs rate = Ok (p, filtered)"
  obtains w fee final change where
    "calculate_signed_tx_weight L p = Ok w" "lib_fee_wu L rate w = Some fee"
    "psbt_input_total p = total_of_inputs inputs"
    "total_of_outputs (tx_output (unsigned_tx p)) + unat fee = total_of_inputs inputs"
    "tx_output (unsigned_tx p) = map fst final @ [change]" "script_pubkey change = cs"
    "unat (txo_value change) + total_of_pegouts (kept_pegouts filtered ps) = total_of_inputs inputs"
    "list_all (above_dust L) final"
    "final = net_pegouts (kept_pegouts filtered ps) (fee_shares (kept_pegouts filtered ps) fee)"
    "map (script_pubkey \<circ> fst) final = map (script_pubkey \<circ> fst) (kept_pegouts filtered ps)"
proof -
  let ?kept = "kept_pegouts filtered ps"
  have len: "length ?kept < 2 ^ 64"
    using assms(4) by (simp add: kept_pegouts_def) (meson le_less_trans length_filter_le)
  have tot: "total_of_pegouts ?kept < 2 ^ 64" using total_kept_le assms(6) by (rule le_less_trans)
  from apply_fees_Ok [OF assms(7)] obtain c fee final where run:
    "create_change inputs ?kept cs = Ok c" "calculate_required_fee L inputs ?kept c rate = Ok fee"
    "try_apply_fees_and_filter_dust L ?kept fee = Ok (AllRemaining final)"
    "create_psbt L inputs final c = (Ok p :: (coin_selection_error, psbt) result)" .
  from create_change_cases [OF run(1) assms(5) tot] obtain change where change: "c = Some change"
    "script_pubkey change = cs" "unat (txo_value change) + total_of_pegouts ?kept = total_of_inputs inputs" .
  note final = all_remaining [OF run(3) dust_positive_kept [OF assms(3)] len]
  from run(4) change(1) have p: "p = \<lparr>unsigned_tx = psbt_tx inputs (map fst final @ [change]),
      psbt_inputs = map dto_input inputs,
      psbt_outputs = map (pegout_output \<circ> snd) final @ [\<lparr>out_proprietary = []\<rparr>]\<rparr>"
    by (simp add: create_psbt_Ok [OF assms(1)])
  have "psbt_tx inputs outs = (psbt_tx inputs outs')\<lparr>tx_output := outs\<rparr>" for outs outs'
    by (simp add: psbt_tx_def)
  moreover have "map script_pubkey (map fst final @ [change]) = map script_pubkey (map fst ?kept @ [change])"
    using final(5) by simp
  ultimately have weight: "lib_tx_weight L (psbt_tx inputs (map fst final @ [change])) =
      lib_tx_weight L (psbt_tx inputs (map fst ?kept @ [change]))"
    using assms(2) unfolding weight_ignores_values_def by (metis psbt_tx_def transaction.select_convs(4))
  from run(2) change(1) obtain w where w: "calculate_signed_tx_weight L p = Ok w" "lib_fee_wu L rate w = Some fee"
    by (auto simp: calculate_required_fee_def create_psbt_Ok [OF assms(1)] result_simps map_err_Ok_iff
        calculate_signed_tx_weight_def p weight)
  have "total_of_outputs (map fst final @ [change]) = total_of_pegouts final + unat (txo_value change)"
    by (simp add: total_of_outputs_def total_of_pegouts_def comp_assoc)
  with final(3) change(3)
  have "total_of_outputs (tx_output (unsigned_tx p)) + unat fee = total_of_inputs inputs"
    by (simp add: p psbt_tx_def)
  with that [OF w _ this _ change(2,3) final(2,1,5)] show thesis
    by (simp add: p psbt_input_total_dto) (simp add: psbt_tx_def)
qed

section \<open>Selected inputs\<close>

text \<open>Given each outpoint at most once, in either list, the selection algorithm returns each at most once.\<close>

definition selects_once :: "bitcoin_lib \<Rightarrow> bool" where
  "selects_once L \<longleftrightarrow> (\<forall>required optional rate target cs sel.
     distinct (map wu_outpoint (required @ optional)) \<longrightarrow>
     lib_coin_select L required optional rate target cs = Ok sel \<longrightarrow> distinct sel)"

text \<open>The maps that \<open>attempt_make_tx\<close> hands over: UTXOs by their own outpoint, and the optional ones are
  those that no tracked transaction spends, the required ones are spent by one.\<close>

definition utxo_maps :: "(out_point \<times> utxo) list \<Rightarrow> (out_point \<times> utxo) list \<Rightarrow> bool" where
  "utxo_maps optional_utxos required_utxos \<longleftrightarrow> distinct (map fst (required_utxos @ optional_utxos)) \<and>
     list_all (\<lambda>(outpoint, u). ut_outpoint u = outpoint) (required_utxos @ optional_utxos)"

lemma utxo_maps_wf: "utxo_maps opts reqs \<Longrightarrow> wf_map opts \<and> wf_map reqs"
  by (simp add: utxo_maps_def wf_map_def)

lemma utxo_maps_distinct:
  assumes "utxo_maps opts reqs"
  shows "distinct (map wu_outpoint (map (utxo_to_bdk \<circ> snd) reqs @ map (utxo_to_bdk \<circ> snd) opts))"
proof -
  have "map (wu_outpoint \<circ> (utxo_to_bdk \<circ> snd)) m = map fst m"
    if "list_all (\<lambda>(outpoint, u). ut_outpoint u = outpoint) m" for m
    using that by (auto simp: list_all_iff utxo_to_bdk_def)
  from this [of "reqs @ opts"] assms show ?thesis
    unfolding utxo_maps_def map_append [symmetric] map_map by (simp only: conj_commute)
qed

definition utxo_value :: "utxo \<Rightarrow> nat" where
  "utxo_value u = unat (txo_value (ut_output u))"

lemma alist_total:
  fixes f :: "'v \<Rightarrow> nat"
  assumes "wf_map m" and "finite S"
  shows "(\<Sum>k\<in>S. case map_of m k of Some u \<Rightarrow> f u | None \<Rightarrow> 0) \<le> sum_list (map (f \<circ> snd) m)"
  using assms
proof (induction m arbitrary: S)
  case (Cons x m)
  obtain k v where x: "x = (k, v)" by (cases x)
  from Cons.prems have wf: "wf_map m" by (simp add: wf_map_def)
  let ?g = "\<lambda>m k. case map_of m k of Some u \<Rightarrow> f u | None \<Rightarrow> 0"
  have "(\<Sum>j\<in>S. ?g (x # m) j) \<le> f v + (\<Sum>j\<in>S - {k}. ?g (x # m) j)"
    using Cons.prems(2) by (cases "k \<in> S") (simp_all add: x sum.remove)
  also have "(\<Sum>j\<in>S - {k}. ?g (x # m) j) = (\<Sum>j\<in>S - {k}. ?g m j)"
    by (rule sum.cong) (auto simp: x)
  also have "\<dots> \<le> sum_list (map (f \<circ> snd) m)"
    using Cons.prems(2) by (intro Cons.IH wf) simp
  finally show ?case by (simp add: x comp_def)
qed simp

lemma selected_total:
  assumes "distinct sel" and "wf_map optional_utxos" and "wf_map required_utxos"
  shows "total_of_inputs (map dto_of_utxo (List.map_filter (\<lambda>op. case map_of optional_utxos op of
      Some u \<Rightarrow> Some u | None \<Rightarrow> map_of required_utxos op) sel)) \<le>
    sum_list (map (utxo_value \<circ> snd) optional_utxos) + sum_list (map (utxo_value \<circ> snd) required_utxos)"
proof -
  let ?g = "\<lambda>m k. case map_of m k of Some u \<Rightarrow> utxo_value u | None \<Rightarrow> 0"
  let ?look = "\<lambda>op. case map_of optional_utxos op of Some u \<Rightarrow> Some u | None \<Rightarrow> map_of required_utxos op"
  have "total_of_inputs (map dto_of_utxo (List.map_filter ?look sel)) \<le>
      sum_list (map (\<lambda>op. ?g optional_utxos op + ?g required_utxos op) sel)"
    by (induction sel)
      (auto simp: total_of_inputs_def List.map_filter_simps dto_of_utxo_def utxo_value_def split: option.splits)
  also have "\<dots> = (\<Sum>op\<in>set sel. ?g optional_utxos op) + (\<Sum>op\<in>set sel. ?g required_utxos op)"
    using assms(1) by (simp add: sum_list_distinct_conv_sum_set sum.distrib)
  also have "\<dots> \<le> sum_list (map (utxo_value \<circ> snd) optional_utxos) +
      sum_list (map (utxo_value \<circ> snd) required_utxos)"
    by (intro add_mono alist_total assms(2,3)) simp_all
  finally show ?thesis .
qed

definition total_of_utxos :: "(out_point \<times> utxo) list \<Rightarrow> nat" where
  "total_of_utxos m = sum_list (map (utxo_value \<circ> snd) m)"

lemma checked_sum_small:
  assumes "sum_list (map unat vs) < 2 ^ 64"
  shows "checked_sum vs = Some (of_nat (sum_list (map unat vs)))"
  using assms by (simp add: checked_sum_Some unat_of_nat)

text \<open>The sums that precede a selection, within the supply.\<close>

lemma selection_sums:
  assumes "total_of_utxos optional_utxos + total_of_utxos required_utxos = available"
    and "sum_list (map (unat \<circ> txo_value \<circ> fst) outputs) = needed"
    and "available \<le> 2100000000000000" and "needed \<le> 2100000000000000"
  shows "checked_sum (map (txo_value \<circ> ut_output \<circ> snd) required_utxos) = Some (of_nat (total_of_utxos required_utxos))"
    and "checked_sum (map (txo_value \<circ> ut_output \<circ> snd) optional_utxos) = Some (of_nat (total_of_utxos optional_utxos))"
    and "checked_add (of_nat (total_of_utxos required_utxos)) (of_nat (total_of_utxos optional_utxos)) =
      Some (of_nat available :: u64)"
    and "checked_sum (map (txo_value \<circ> fst) (map (\<lambda>(txout, pid). (txout, pegout_id_as_bytes pid)) outputs)) =
      Some (of_nat needed)"
    and "available < 2 ^ 64" and "unat (of_nat needed :: u64) = needed" and "unat (of_nat available :: u64) = available"
proof -
  have u: "map unat (map (txo_value \<circ> ut_output \<circ> snd) m) = map (utxo_value \<circ> snd) m" for m :: "(out_point \<times> utxo) list"
    by (simp add: utxo_value_def)
  have p: "map unat (map (txo_value \<circ> fst) (map (\<lambda>(txout, pid). (txout, pegout_id_as_bytes pid)) outputs)) =
      map (unat \<circ> txo_value \<circ> fst) outputs"
    by (simp add: case_prod_beta)
  have le: "total_of_utxos required_utxos < 2 ^ 64" "total_of_utxos optional_utxos < 2 ^ 64" "needed < 2 ^ 64"
    using assms by auto
  show "checked_sum (map (txo_value \<circ> ut_output \<circ> snd) required_utxos) = Some (of_nat (total_of_utxos required_utxos))"
    using le(1) unfolding total_of_utxos_def u [symmetric] by (rule checked_sum_small)
  show "checked_sum (map (txo_value \<circ> ut_output \<circ> snd) optional_utxos) = Some (of_nat (total_of_utxos optional_utxos))"
    using le(2) unfolding total_of_utxos_def u [symmetric] by (rule checked_sum_small)
  show "checked_sum (map (txo_value \<circ> fst) (map (\<lambda>(txout, pid). (txout, pegout_id_as_bytes pid)) outputs)) =
      Some (of_nat needed)"
    using le(3) unfolding assms(2) [symmetric] p [symmetric] by (rule checked_sum_small)
  show "available < 2 ^ 64" "unat (of_nat needed :: u64) = needed" "unat (of_nat available :: u64) = available"
    using assms(3,4) by (simp_all add: unat_of_nat)
  show "checked_add (of_nat (total_of_utxos required_utxos)) (of_nat (total_of_utxos optional_utxos)) =
      Some (of_nat available :: u64)"
    using assms(3) le(1,2) by (simp add: checked_add_def unat_of_nat flip: assms(1))
qed

lemma target_change_Ok:
  assumes "unat pegout + unat remaining \<le> 2100000000000000"
  shows "\<exists>c. calculate_target_change pegout remaining = Ok c \<and>
    unat c \<le> unat remaining \<and> min 10000 (unat remaining) \<le> unat c \<and>
    (10000 < unat c \<longrightarrow> 2 * unat c \<le> unat pegout \<and> 20 * unat c \<le> unat remaining)"
proof -
  have mul: "checked_mul pegout 50 = Some (pegout * 50)" "checked_mul remaining 5 = Some (remaining * 5)"
    and nat: "unat (pegout * 50) = unat pegout * 50" "unat (remaining * 5) = unat remaining * 5"
    using assms by (simp_all add: checked_mul_def unat_word_ariths)
  have div: "unat (pegout * 50 div 100) = unat pegout div 2" "unat (remaining * 5 div 100) = unat remaining div 20"
    by (simp_all add: unat_div nat)
  have min: "unat (min a b) = min (unat a) (unat b)" and max: "unat (max a b) = max (unat a) (unat b)"
    for a b :: u64 by (simp_all add: min_def max_def word_le_nat_alt)
  let ?c = "min (max (min (pegout * 50 div 100) (remaining * 5 div 100)) 10000) remaining"
  have "calculate_target_change pegout remaining = Ok ?c"
    by (simp add: calculate_target_change_def TARGET_CHANGE_PERCENT_def MAX_CHANGE_PERCENT_def
        MIN_CHANGE_SATS_def mul checked_div_def)
  moreover have "unat ?c = min (max (min (unat pegout div 2) (unat remaining div 20)) 10000) (unat remaining)"
    by (simp add: min max div)
  moreover have "c \<le> r \<and> min 10000 r \<le> c \<and> (10000 < c \<longrightarrow> 2 * c \<le> p \<and> 20 * c \<le> r)"
    if "c = min (max (min (p div 2) (r div 20)) 10000) r" for c p r :: nat
    using that by (auto simp: min_def max_def split: if_splits)
  ultimately show ?thesis by blast
qed

text \<open>The steps of a selection once the sums are known.\<close>

lemma coin_selection_broke:
  assumes "outputs \<noteq> []"
    and "checked_sum (map (txo_value \<circ> ut_output \<circ> snd) required_utxos) = Some rv"
    and "checked_sum (map (txo_value \<circ> ut_output \<circ> snd) optional_utxos) = Some ov"
    and "checked_add rv ov = Some tv"
    and "checked_sum (map (txo_value \<circ> fst) (map (\<lambda>(txout, pid). (txout, pegout_id_as_bytes pid)) outputs)) = Some pv"
    and "checked_sub tv pv = None"
  shows "coin_selection L optional_utxos required_utxos outputs rate cs = Err (CoinSelectionBdk pv tv)"
  unfolding coin_selection_def Let_def assms(2-6) ok_or.simps bind_result.simps using assms(1) by (rule if_not_P)

lemma coin_selection_run:
  assumes "outputs \<noteq> []"
    and "checked_sum (map (txo_value \<circ> ut_output \<circ> snd) required_utxos) = Some rv"
    and "checked_sum (map (txo_value \<circ> ut_output \<circ> snd) optional_utxos) = Some ov"
    and "checked_add rv ov = Some tv"
    and "checked_sum (map (txo_value \<circ> fst) (map (\<lambda>(txout, pid). (txout, pegout_id_as_bytes pid)) outputs)) = Some pv"
    and "checked_sub tv pv = Some rest" and "calculate_target_change pv rest = Ok c"
    and "checked_add pv c = Some target"
  defines "pegouts \<equiv> map (\<lambda>(txout, pid). (txout, pegout_id_as_bytes pid)) outputs"
  shows "coin_selection L optional_utxos required_utxos outputs rate cs =
    bind_result (perform_coin_selection L optional_utxos required_utxos rate target cs) (\<lambda>ins.
    bind_result (apply_fees_and_create_psbt L ins pegouts cs rate) (\<lambda>(p, filtered).
    bind_result (sanity_check_psbt L p ins cs (sum_list (List.map_filter (\<lambda>(txout, pegout_id).
      if pegout_id \<in> set filtered then None else Some (txo_value txout)) pegouts))) (\<lambda>_. Ok p)))"
  unfolding coin_selection_def Let_def assms(2-8) ok_or.simps bind_result.simps pegouts_def
  using assms(1) by (rule if_not_P)

text \<open>A selection that succeeds went through every step.\<close>

lemma coin_selection_Ok:
  assumes "coin_selection L optional_utxos required_utxos outputs rate cs = Ok p"
    and "selects_once L" and "utxo_maps optional_utxos required_utxos"
  defines "pegouts \<equiv> map (\<lambda>(txout, pid). (txout, pegout_id_as_bytes pid)) outputs"
  obtains inputs filtered where
    "apply_fees_and_create_psbt L inputs pegouts cs rate = Ok (p, filtered)"
    "total_of_inputs inputs < 2 ^ 64" "total_of_pegouts pegouts < 2 ^ 64"
    "sanity_check_psbt L p inputs cs (sum_list (map (txo_value \<circ> fst) (kept_pegouts filtered pegouts))) = Ok ()"
proof -
  have filter_sum: "sum_list (List.map_filter (\<lambda>(txout, pid). if pid \<in> set filtered then None
      else Some (txo_value txout)) ps) = sum_list (map (txo_value \<circ> fst) (kept_pegouts filtered ps))"
    for ps :: "pegout list" and filtered
    by (induction ps) (auto simp: List.map_filter_simps kept_pegouts_def)
  from assms(1) obtain rv ov tv pv target inputs filtered where run:
    "checked_sum (map (txo_value \<circ> ut_output \<circ> snd) required_utxos) = Some rv"
    "checked_sum (map (txo_value \<circ> ut_output \<circ> snd) optional_utxos) = Some ov"
    "checked_add rv ov = Some tv" "checked_sum (map (txo_value \<circ> fst) pegouts) = Some pv"
    "perform_coin_selection L optional_utxos required_utxos rate target cs = Ok inputs"
    "apply_fees_and_create_psbt L inputs pegouts cs rate = Ok (p, filtered)"
    "sanity_check_psbt L p inputs cs (sum_list (map (txo_value \<circ> fst) (kept_pegouts filtered pegouts))) = Ok ()"
    unfolding coin_selection_def Let_def pegouts_def [symmetric] filter_sum
    by (auto simp: result_simps split: if_splits prod.splits)
  from run(5) obtain sel where sel: "lib_coin_select L (map (utxo_to_bdk \<circ> snd) required_utxos)
      (map (utxo_to_bdk \<circ> snd) optional_utxos) rate target cs = Ok sel"
    "inputs = map dto_of_utxo (List.map_filter (\<lambda>op. case map_of optional_utxos op of
      Some u \<Rightarrow> Some u | None \<Rightarrow> map_of required_utxos op) sel)"
    by (auto simp: perform_coin_selection_def result_simps)
  then have once: "distinct sel"
    using assms(2) utxo_maps_distinct [OF assms(3)] unfolding selects_once_def by blast
  have wf: "wf_map optional_utxos" "wf_map required_utxos" using utxo_maps_wf [OF assms(3)] by simp_all
  have "sum_list (map (utxo_value \<circ> snd) optional_utxos) = unat ov"
    "sum_list (map (utxo_value \<circ> snd) required_utxos) = unat rv"
    using run(1,2) by (simp_all add: checked_sum_Some utxo_value_def comp_def)
  with selected_total [OF once wf] sel(2) run(3) unat_u64_less [of tv]
  have "total_of_inputs inputs < 2 ^ 64" by (simp add: uint_simps)
  moreover have "total_of_pegouts pegouts < 2 ^ 64"
    using run(4) unat_u64_less [of pv] by (simp add: checked_sum_Some total_of_pegouts_def comp_def)
  ultimately show thesis using that run(6,7) by blast
qed

lemmas coin_selection_eval = coin_selection_def perform_coin_selection_def apply_fees_and_create_psbt_def
  try_apply_fees_and_filter_dust_def calculate_fee_distribution_def calculate_required_fee_def
  calculate_signed_tx_weight_def calculate_target_change_def create_change_def create_psbt_def
  sanity_check_psbt_def sample_lib_def sample_utxos_def sample_spare_utxos_def sample_request_def sample_out_point_def
  sample_change_script_def utxo_to_bdk_def dto_of_utxo_def checked_add_def checked_sub_def checked_mul_def
  checked_div_def unsigned_def blank_psbt_def pegout_id_as_bytes_def be_bytes_u32_def
  TARGET_CHANGE_PERCENT_def MAX_CHANGE_PERCENT_def MIN_CHANGE_SATS_def
  TAPROOT_KEYSPEND_SIGHASH_DEFAULT_WEIGHT_def SEGWIT_FLAG_WEIGHT_def SEGWIT_MARKER_WEIGHT_def
  List.map_filter_simps utxo_version_try_from_def

lemma sample_coin_selection:
  "\<exists>p. coin_selection sample_lib sample_spare_utxos sample_utxos [sample_request 50000 [82] 0] 1000 sample_change_script = Ok p"
  by (simp add: coin_selection_eval)

lemma sample_lib_ok: "weight_ignores_values sample_lib" "selects_once sample_lib"
proof -
  show "weight_ignores_values sample_lib"
    unfolding weight_ignores_values_def
  proof (intro allI impI)
    fix tx :: transaction and outs :: "tx_out list"
    assume "map script_pubkey outs = map script_pubkey (tx_output tx)"
    then have "map (\<lambda>sc. 9 + length sc) (map script_pubkey outs) =
        map (\<lambda>sc. 9 + length sc) (map script_pubkey (tx_output tx))" by (rule arg_cong)
    then have "map (\<lambda>out. 9 + length (script_pubkey out)) outs =
        map (\<lambda>out. 9 + length (script_pubkey out)) (tx_output tx)" by (simp only: map_map comp_def)
    then show "lib_tx_weight sample_lib (tx\<lparr>tx_output := outs\<rparr>) = lib_tx_weight sample_lib tx"
      by (simp add: sample_lib_def)
  qed
  show "selects_once sample_lib" by (auto simp: selects_once_def sample_lib_def Let_def split: if_splits)
qed

section \<open>Properties\<close>

text \<open>
  (C5) A pegout transaction pays exactly the fee of its weight at the requested rate. With crates
  that behave as documented, dust thresholds that are positive and two disjoint maps of UTXOs by
  outpoint, whenever coin selection returns a PSBT, the outputs it spends exceed the outputs it
  creates by the fee computed for its signed weight, neither more nor less; the last output goes
  to the change script and every other output is at or above its dust threshold.
\<close>

theorem pegout_psbt_pays_exact_fee:
  assumes "from_unsigned_ok L" and "weight_ignores_values L" and "selects_once L"
    and "utxo_maps optional_utxos required_utxos"
    and "list_all (\<lambda>(out, _). 0 < lib_minimal_non_dust L (script_pubkey out)) outputs"
    and "length outputs < 2 ^ 64"
    and "coin_selection L optional_utxos required_utxos outputs rate cs = Ok p"
  shows "\<exists>w fee. calculate_signed_tx_weight L p = Ok w \<and> lib_fee_wu L rate w = Some fee \<and>
    psbt_input_total p = total_of_outputs (tx_output (unsigned_tx p)) + unat fee \<and>
    script_pubkey (last (tx_output (unsigned_tx p))) = cs \<and>
    list_all (\<lambda>out. lib_minimal_non_dust L (script_pubkey out) \<le> txo_value out)
      (butlast (tx_output (unsigned_tx p)))"
proof -
  let ?ps = "map (\<lambda>(txout, pid). (txout, pegout_id_as_bytes pid)) outputs"
  from coin_selection_Ok [OF assms(7,3,4)] obtain inputs filtered where run:
    "apply_fees_and_create_psbt L inputs ?ps cs rate = Ok (p, filtered)"
    "total_of_inputs inputs < 2 ^ 64" "total_of_pegouts ?ps < 2 ^ 64" by blast
  have dust: "dust_positive L ?ps" using assms(5) by (auto simp: dust_positive_def list_all_iff)
  have len: "length ?ps < 2 ^ 64" using assms(6) by simp
  show ?thesis
  proof (rule applied_psbt [OF assms(1,2) dust len run(2,3,1)])
    fix w fee final change
    assume w: "calculate_signed_tx_weight L p = Ok w" "lib_fee_wu L rate w = Some fee"
      and total: "psbt_input_total p = total_of_inputs inputs"
        "total_of_outputs (tx_output (unsigned_tx p)) + unat fee = total_of_inputs inputs"
      and outs: "tx_output (unsigned_tx p) = map fst final @ [change]" "script_pubkey change = cs"
      and viable: "list_all (above_dust L) final"
    have "list_all (\<lambda>out. lib_minimal_non_dust L (script_pubkey out) \<le> txo_value out) (map fst final)"
      using viable by (simp add: list_all_iff above_dust_def)
    with w total outs show ?thesis by simp
  qed
qed

theorem pegout_psbt_pays_exact_fee_witness:
  "\<exists>p w fee. coin_selection sample_lib sample_spare_utxos sample_utxos [sample_request 50000 [82] 0] 1000
       sample_change_script = Ok p \<and>
     calculate_signed_tx_weight sample_lib p = Ok w \<and> lib_fee_wu sample_lib 1000 w = Some fee \<and>
     psbt_input_total p = total_of_outputs (tx_output (unsigned_tx p)) + unat fee"
proof -
  obtain p where p: "coin_selection sample_lib sample_spare_utxos sample_utxos [sample_request 50000 [82] 0] 1000
      sample_change_script = Ok p" using sample_coin_selection by blast
  have "list_all (\<lambda>(out, _). 0 < lib_minimal_non_dust sample_lib (script_pubkey out))
      [sample_request 50000 [82] 0]"
    by (simp add: sample_lib_def sample_request_def)
  moreover have "utxo_maps sample_spare_utxos sample_utxos"
    by (simp add: utxo_maps_def sample_utxos_def sample_spare_utxos_def sample_out_point_def)
  ultimately show ?thesis
    using pegout_psbt_pays_exact_fee [OF from_unsigned_sample sample_lib_ok(1,2) _ _ _ p] p by auto
qed

text \<open>
  (C14) The fee is shared exactly and fairly: for a non-empty list of pegouts the distribution
  never fails, gives one share for each pegout, the shares add up to the fee, each is the
  quotient or one more, and a pegout of higher value never pays a smaller share.
\<close>

theorem fee_distribution_exact_and_fair:
  assumes "ps \<noteq> []" and "length ps < 2 ^ 64"
  shows "\<exists>fees. calculate_fee_distribution ps fee = Ok fees \<and> length fees = length ps \<and>
    sum_list (map unat fees) = unat fee \<and>
    (\<forall>i < length ps. unat (fees ! i) \<in> {unat fee div length ps, unat fee div length ps + 1}) \<and>
    (\<forall>i < length ps. \<forall>j < length ps. txo_value (fst (ps ! j)) < txo_value (fst (ps ! i)) \<longrightarrow>
       unat (fees ! j) \<le> unat (fees ! i))"
  using fee_distribution_Ok [OF assms] sum_fee_shares [OF assms] fee_shares_fair [OF _ _ assms(2)]
    unat_fee_share [OF _ assms(2)]
  by (intro exI [of _ "fee_shares ps fee"]) auto

theorem fee_distribution_exact_and_fair_witness:
  "\<exists>fees. calculate_fee_distribution [(\<lparr>txo_value = 9, script_pubkey = []\<rparr>, []),
       (\<lparr>txo_value = 8, script_pubkey = []\<rparr>, [])] 7 = Ok fees \<and> sum_list (map unat fees) = 7"
  using fee_distribution_exact_and_fair [of "[(\<lparr>txo_value = 9, script_pubkey = []\<rparr>, []),
       (\<lparr>txo_value = 8, script_pubkey = []\<rparr>, [])]" 7] by auto



text \<open>
  A pegout to the change script blocks the batch: the sanity check takes the pegout for the
  change, so a request that pays the change script is rejected as a bad refund, although the
  transaction is balanced.
\<close>

theorem pegout_to_change_script_is_rejected:
  "coin_selection sample_lib [] sample_utxos [sample_request 50000 sample_change_script 0] 1000
     sample_change_script = Err (SanityCheckError (BadRefundBalance 49640 300000 50000))"
  by (simp add: coin_selection_eval)

text \<open>
  The error documented as impossible is reachable: when the first attempt drops a pegout, the
  remaining ones share the fee of the inputs, and another pegout may fall below the dust
  threshold. Three requests of 100000, 19800 and 14500 satoshi are refused together in this way.
\<close>

theorem recalculation_error_is_reachable:
  "coin_selection sample_lib [] sample_utxos
     [sample_request 100000 [82] 0, sample_request 19800 [82] 1, sample_request 14500 [82] 2] 100000
     sample_change_script = Err (SanityCheckError RecalculationFilteredMoreOutputs)"
  by (simp add: coin_selection_eval)

text \<open>
  (C35) The selection asks for an amount the wallet can afford. For UTXOs and pegouts within the
  supply of 21 million bitcoin no sum or product before the selection overflows. Pegouts above the
  UTXOs are refused as insufficient funds. Otherwise the algorithm is run for the pegouts and a
  target for the change that lies within what remains of the UTXOs, reaches 10000 satoshi where that
  much remains, and above 10000 is at most half of the pegouts and a twentieth of what remains; an
  error of the algorithm is the result, and a PSBT is made from the inputs selected for this target.
\<close>

theorem target_change_is_affordable:
  assumes "outputs \<noteq> []" and "total_of_utxos optional_utxos + total_of_utxos required_utxos = available"
    and "sum_list (map (unat \<circ> txo_value \<circ> fst) outputs) = needed"
    and "available \<le> 2100000000000000" and "needed \<le> 2100000000000000"
  shows "if available < needed
    then coin_selection L optional_utxos required_utxos outputs rate cs =
      Err (CoinSelectionBdk (of_nat needed) (of_nat available))
    else \<exists>c. c \<le> available - needed \<and> min 10000 (available - needed) \<le> c \<and>
      (10000 < c \<longrightarrow> 2 * c \<le> needed \<and> 20 * c \<le> available - needed) \<and>
      (case perform_coin_selection L optional_utxos required_utxos rate (of_nat (needed + c)) cs of
         Ok ins \<Rightarrow> (\<forall>p. coin_selection L optional_utxos required_utxos outputs rate cs = Ok p \<longrightarrow>
           (\<exists>filtered. apply_fees_and_create_psbt L ins
              (map (\<lambda>(txout, pid). (txout, pegout_id_as_bytes pid)) outputs) cs rate = Ok (p, filtered)))
       | Err e \<Rightarrow> coin_selection L optional_utxos required_utxos outputs rate cs = Err e
       | Panic \<Rightarrow> coin_selection L optional_utxos required_utxos outputs rate cs = Panic)"
proof -
  let ?run = "coin_selection L optional_utxos required_utxos outputs rate cs"
  let ?ps = "map (\<lambda>(txout, pid). (txout, pegout_id_as_bytes pid)) outputs"
  let ?pegout = "of_nat needed :: u64" and ?available = "of_nat available :: u64"
  note sums = selection_sums [OF assms(2-5)]
  show ?thesis
  proof (cases "available < needed")
    case True
    then have "checked_sub ?available ?pegout = None" using sums(6,7) by (simp add: checked_sub_def word_le_nat_alt)
    from coin_selection_broke [OF assms(1) sums(1-4) this] True show ?thesis by simp
  next
    case False
    let ?rest = "of_nat (available - needed) :: u64"
    have "unat ?rest = available - needed" using sums(5) by (simp only: unat_of_nat) simp
    moreover have "?available - ?pegout = ?rest" using False by (simp add: of_nat_diff)
    ultimately have rest: "checked_sub ?available ?pegout = Some ?rest" "unat ?rest = available - needed"
      using False sums(6,7) by (simp_all only: checked_sub_def word_le_nat_alt not_less if_True)
    have "unat ?pegout + unat ?rest \<le> 2100000000000000" unfolding rest(2) sums(6) using False assms(4) by linarith
    from target_change_Ok [OF this] obtain w where w: "calculate_target_change ?pegout ?rest = Ok w"
      "unat w \<le> available - needed" "min 10000 (available - needed) \<le> unat w"
      "10000 < unat w \<longrightarrow> 2 * unat w \<le> needed \<and> 20 * unat w \<le> available - needed"
      unfolding rest(2) sums(6) by blast
    have "needed + unat w < 2 ^ 64" using w(2) False sums(5) by linarith
    then have add: "checked_add ?pegout w = Some (of_nat (needed + unat w))"
      by (simp add: checked_add_def sums(6))
    let ?sel = "perform_coin_selection L optional_utxos required_utxos rate (of_nat (needed + unat w)) cs"
    note run = coin_selection_run [OF assms(1) sums(1-4) rest(1) w(1) add]
    have "case ?sel of
        Ok ins \<Rightarrow> (\<forall>p. ?run = Ok p \<longrightarrow> (\<exists>filtered. apply_fees_and_create_psbt L ins ?ps cs rate = Ok (p, filtered)))
      | Err e \<Rightarrow> ?run = Err e | Panic \<Rightarrow> ?run = Panic"
      by (cases ?sel) (auto simp: run bind_result_Ok_iff)
    with w(2-4) have "\<exists>c. c \<le> available - needed \<and> min 10000 (available - needed) \<le> c \<and>
        (10000 < c \<longrightarrow> 2 * c \<le> needed \<and> 20 * c \<le> available - needed) \<and>
        (case perform_coin_selection L optional_utxos required_utxos rate (of_nat (needed + c)) cs of
          Ok ins \<Rightarrow> (\<forall>p. ?run = Ok p \<longrightarrow> (\<exists>filtered. apply_fees_and_create_psbt L ins ?ps cs rate = Ok (p, filtered)))
        | Err e \<Rightarrow> ?run = Err e | Panic \<Rightarrow> ?run = Panic)"
      by (intro exI [of _ "unat w"] conjI)
    with False show ?thesis by (simp only: if_False)
  qed
qed

lemma sample_perform:
  assumes "unat t \<le> 370000"
  shows "\<exists>ins. perform_coin_selection sample_lib sample_spare_utxos sample_utxos 1000 t sample_change_script = Ok ins"
proof -
  have "\<not> 370000 < t" using assms by (simp add: word_less_nat_alt)
  then show ?thesis
    by (simp add: perform_coin_selection_def sample_lib_def sample_utxos_def sample_spare_utxos_def utxo_to_bdk_def)
qed

theorem target_change_is_affordable_witness:
  "\<exists>c ins p filtered. 10000 \<le> c \<and> 20 * c \<le> 320000 \<and>
     perform_coin_selection sample_lib sample_spare_utxos sample_utxos 1000 (of_nat (50000 + c))
       sample_change_script = Ok ins \<and>
     coin_selection sample_lib sample_spare_utxos sample_utxos [sample_request 50000 [82] 0] 1000
       sample_change_script = Ok p \<and>
     apply_fees_and_create_psbt sample_lib ins
       (map (\<lambda>(txout, pid). (txout, pegout_id_as_bytes pid)) [sample_request 50000 [82] 0])
       sample_change_script 1000 = Ok (p, filtered)"
proof -
  let ?run = "coin_selection sample_lib sample_spare_utxos sample_utxos [sample_request 50000 [82] 0] 1000
    sample_change_script"
  let ?select = "\<lambda>c. perform_coin_selection sample_lib sample_spare_utxos sample_utxos 1000 (of_nat (50000 + c))
    sample_change_script"
  have t: "total_of_utxos sample_spare_utxos + total_of_utxos sample_utxos = 370000"
    by (simp add: total_of_utxos_def utxo_value_def sample_spare_utxos_def sample_utxos_def)
  have n: "sum_list (map (unat \<circ> txo_value \<circ> fst) [sample_request 50000 [82] 0]) = 50000"
    by (simp add: sample_request_def)
  obtain c where c: "c \<le> 370000 - 50000" "min 10000 (370000 - 50000) \<le> c"
    "10000 < c \<longrightarrow> 2 * c \<le> 50000 \<and> 20 * c \<le> 370000 - 50000"
    "case ?select c of
       Ok ins \<Rightarrow> \<forall>p. ?run = Ok p \<longrightarrow> (\<exists>filtered. apply_fees_and_create_psbt sample_lib ins
         (map (\<lambda>(txout, pid). (txout, pegout_id_as_bytes pid)) [sample_request 50000 [82] 0])
         sample_change_script 1000 = Ok (p, filtered))
     | Err e \<Rightarrow> ?run = Err e | Panic \<Rightarrow> ?run = Panic"
    using target_change_is_affordable [OF _ t n, of sample_lib 1000 sample_change_script]
    by (auto simp del: list.map)
  have "unat (of_nat (50000 + c) :: u64) \<le> 370000" using c(1) by (simp only: unat_of_nat) simp
  with sample_perform obtain ins where "?select c = Ok ins" by blast
  moreover obtain p where "?run = Ok p" using sample_coin_selection by blast
  moreover have "10000 \<le> c" "20 * c \<le> 320000" using c(2,3) by auto
  ultimately show ?thesis using c(4) by auto
qed

end
