(* ===== verification/PegoutTypes.thy ===== *)
theory PegoutTypes
  imports Psbt
begin

text \<open>
  The data of the pegout scheduler and the database (\<open>btc-server/src/pegout_scheduler/mod.rs\<close>,
  \<open>database/mod.rs\<close>): pegout requests, the transactions that deliver them with the indices of
  their pegout and change outputs, and the identifiers of finalized pegouts. An index \<open>usize\<close> into
  a vector is a natural number; reading an output out of range panics. A \<open>SystemTime\<close> is its
  distance in nanoseconds from the epoch of Unix.
\<close>

type_synonym system_time = int

section \<open>Requests\<close>

record pegout_request =
  pr_id :: pegout_id
  pr_spk :: script
  pr_value :: amount
  botanix_height :: u64
  pr_timestamp :: "u64 option"

definition request_txout :: "pegout_request \<Rightarrow> tx_out" where
  "request_txout p = \<lparr>txo_value = pr_value p, script_pubkey = pr_spk p\<rparr>"

text \<open>The message \<open>rpc::PendingPegout\<close>.\<close>

record rpc_pending_pegout =
  rp_pegout_id :: "u8 list"
  rp_spk :: "u8 list"
  rp_amount :: u64
  rp_height :: u64
  rp_timestamp :: u64

definition request_try_from :: "rpc_pending_pegout \<Rightarrow> ('e, pegout_request) result" where
  "request_try_from pegout = (case pegout_id_from_bytes (rp_pegout_id pegout) of
     Ok i \<Rightarrow> Ok \<lparr>pr_id = i, pr_spk = rp_spk pegout, pr_value = rp_amount pegout,
              botanix_height = rp_height pegout, pr_timestamp = Some (rp_timestamp pegout)\<rparr>
   | _ \<Rightarrow> Panic)"

datatype output_meta = PegoutOutput pegout_id | ChangeOutput

fun is_pegout :: "output_meta \<Rightarrow> bool" where
  "is_pegout (PegoutOutput _) = True"
| "is_pegout ChangeOutput = False"

fun is_change :: "output_meta \<Rightarrow> bool" where
  "is_change (PegoutOutput _) = False"
| "is_change ChangeOutput = True"

fun output_pegout_id :: "output_meta \<Rightarrow> pegout_id option" where
  "output_pegout_id (PegoutOutput i) = Some i"
| "output_pegout_id ChangeOutput = None"

section \<open>Tracked transactions\<close>

record tracked_tx =
  tr_txid :: txid
  tr_tx :: transaction
  pegout_idxs :: "nat list"
  pegout_requests :: "pegout_request list"
  change_idxs :: "nat list"
  tr_created :: system_time

definition inputs :: "tracked_tx \<Rightarrow> out_point list" where
  "inputs tx = map previous_output (tx_input (tr_tx tx))"

definition outputs_at :: "tracked_tx \<Rightarrow> nat list \<Rightarrow> ('e, (out_point \<times> tx_out) list) result" where
  "outputs_at tx idxs =
     (if list_all (\<lambda>i. i < length (tx_output (tr_tx tx))) idxs
      then Ok (map (\<lambda>i. (\<lparr>op_txid = tr_txid tx, op_vout = of_nat i\<rparr>, tx_output (tr_tx tx) ! i)) idxs)
      else Panic)"

definition pegouts :: "tracked_tx \<Rightarrow> ('e, (out_point \<times> tx_out) list) result" where
  "pegouts tx = outputs_at tx (pegout_idxs tx)"

definition change :: "tracked_tx \<Rightarrow> ('e, (out_point \<times> tx_out) list) result" where
  "change tx = outputs_at tx (change_idxs tx)"

record finalized_pegout =
  fp_id :: pegout_id
  fp_block_number :: u64
  fp_timestamp :: "u64 option"

definition new_finalized_pegout :: "pegout_id \<Rightarrow> u64 \<Rightarrow> u64 option \<Rightarrow> finalized_pegout" where
  "new_finalized_pegout i block_number timestamp =
     \<lparr>fp_id = i, fp_block_number = block_number, fp_timestamp = timestamp\<rparr>"

text \<open>The indices of a tracked transaction point into its outputs, and its ids have the 32 bytes
  of their type.\<close>

definition request_ok :: "pegout_request \<Rightarrow> bool" where
  "request_ok p \<longleftrightarrow> pegout_id_ok (pr_id p)"

definition tracked_ok :: "tracked_tx \<Rightarrow> bool" where
  "tracked_ok tx \<longleftrightarrow>
     list_all (\<lambda>i. i < length (tx_output (tr_tx tx))) (pegout_idxs tx) \<and>
     list_all (\<lambda>i. i < length (tx_output (tr_tx tx))) (change_idxs tx) \<and>
     list_all request_ok (pegout_requests tx)"

definition pegout_points :: "tracked_tx \<Rightarrow> (out_point \<times> tx_out) list" where
  "pegout_points tx = map (\<lambda>i. (\<lparr>op_txid = tr_txid tx, op_vout = of_nat i\<rparr>, tx_output (tr_tx tx) ! i)) (pegout_idxs tx)"

definition change_points :: "tracked_tx \<Rightarrow> (out_point \<times> tx_out) list" where
  "change_points tx = map (\<lambda>i. (\<lparr>op_txid = tr_txid tx, op_vout = of_nat i\<rparr>, tx_output (tr_tx tx) ! i)) (change_idxs tx)"

lemma pegouts_ok: "tracked_ok tx \<Longrightarrow> pegouts tx = Ok (pegout_points tx)"
  by (simp add: tracked_ok_def pegouts_def outputs_at_def pegout_points_def)

lemma change_ok: "tracked_ok tx \<Longrightarrow> change tx = Ok (change_points tx)"
  by (simp add: tracked_ok_def change_def outputs_at_def change_points_def)

lemma pegout_id_as_bytes_inj:
  assumes "pegout_id_as_bytes p = pegout_id_as_bytes q" and "pegout_id_ok p" and "pegout_id_ok q"
  shows "p = q"
proof -
  from assms have "pg_txid p = pg_txid q" and b: "be_bytes_u32 (pg_idx p) = be_bytes_u32 (pg_idx q)"
    by (simp_all add: pegout_id_as_bytes_def pegout_id_ok_def)
  moreover have "Some (pg_idx p) = Some (pg_idx q)"
    unfolding u32_be_roundtrip [symmetric] b ..
  ultimately show ?thesis by (cases p; cases q) simp
qed

end
