(* ===== verification/Effects.thy ===== *)
theory Effects
  imports Prelude
begin

text \<open>
  Fallible operations on a state. A Rust method that takes \<open>&mut self\<close> (or writes to a database
  behind \<open>&self\<close>) and returns \<open>Result\<close> is a function from the state to the outcome and the state it
  leaves behind, so that an error half way keeps the writes made before it. \<open>bind_eff\<close> is the
  \<open>?\<close> operator, \<open>for_each\<close> a \<open>for\<close> loop with \<open>?\<close> in its body. Proofs compute with \<open>wp\<close>, the weakest
  precondition under which an operation does not panic, ends in \<open>Q\<close> when it succeeds and in \<open>E\<close> when
  it fails; its equations are collected in \<open>wp_simps\<close>.
\<close>

type_synonym ('s, 'e, 'a) eff = "'s \<Rightarrow> ('e, 'a) result \<times> 's"

named_theorems wp_simps

section \<open>Combinators\<close>

definition return_eff :: "'a \<Rightarrow> ('s, 'e, 'a) eff" where
  "return_eff x s = (Ok x, s)"

definition raise_eff :: "'e \<Rightarrow> ('s, 'e, 'a) eff" where
  "raise_eff e s = (Err e, s)"

definition lift_result :: "('e, 'a) result \<Rightarrow> ('s, 'e, 'a) eff" where
  "lift_result r s = (r, s)"

definition bind_eff :: "('s, 'e, 'a) eff \<Rightarrow> ('a \<Rightarrow> ('s, 'e, 'b) eff) \<Rightarrow> ('s, 'e, 'b) eff" where
  "bind_eff m f s = (case m s of (r, s') \<Rightarrow>
     case r of Ok x \<Rightarrow> f x s' | Err e \<Rightarrow> (Err e, s') | Panic \<Rightarrow> (Panic, s'))"

definition gets :: "('s \<Rightarrow> 'a) \<Rightarrow> ('s, 'e, 'a) eff" where
  "gets f s = (Ok (f s), s)"

definition modify :: "('s \<Rightarrow> 's) \<Rightarrow> ('s, 'e, unit) eff" where
  "modify f s = (Ok (), f s)"

text \<open>\<open>Result::map_err\<close>, and \<open>Result::expect\<close>, which turns an error into a panic.\<close>

definition map_err_eff :: "('e \<Rightarrow> 'f) \<Rightarrow> ('s, 'e, 'a) eff \<Rightarrow> ('s, 'f, 'a) eff" where
  "map_err_eff g m s = (case m s of (r, s') \<Rightarrow> (map_err g r, s'))"

definition expect_eff :: "('s, 'e, 'a) eff \<Rightarrow> ('s, 'f, 'a) eff" where
  "expect_eff m s = (case m s of (r, s') \<Rightarrow> (case r of Ok x \<Rightarrow> (Ok x, s') | _ \<Rightarrow> (Panic, s')))"

text \<open>The outcome itself as a value, for a \<open>match\<close> on the \<open>Result\<close>.\<close>

definition try_eff :: "('s, 'e, 'a) eff \<Rightarrow> ('s, 'f, 'e + 'a) eff" where
  "try_eff m s = (case m s of (r, s') \<Rightarrow>
     (case r of Ok x \<Rightarrow> (Ok (Inr x), s') | Err e \<Rightarrow> (Ok (Inl e), s') | Panic \<Rightarrow> (Panic, s')))"

text \<open>An operation on a component of the state.\<close>

definition on_part :: "('s \<Rightarrow> 'p) \<Rightarrow> ('p \<Rightarrow> 's \<Rightarrow> 's) \<Rightarrow> ('p, 'e, 'a) eff \<Rightarrow> ('s, 'e, 'a) eff" where
  "on_part get put m s = (case m (get s) of (r, p) \<Rightarrow> (r, put p s))"

fun for_each :: "('x \<Rightarrow> ('s, 'e, unit) eff) \<Rightarrow> 'x list \<Rightarrow> ('s, 'e, unit) eff" where
  "for_each f [] = return_eff ()"
| "for_each f (x # xs) = bind_eff (f x) (\<lambda>_. for_each f xs)"

lemma bind_eff_cong [fundef_cong]:
  "m s = m' s' \<Longrightarrow> (\<And>x t. m' s' = (Ok x, t) \<Longrightarrow> f x t = f' x t) \<Longrightarrow>
     bind_eff m f s = bind_eff m' f' s'"
  by (auto simp: bind_eff_def split: prod.split result.split)

lemma for_each_map: "for_each f (map g xs) = for_each (\<lambda>x. f (g x)) xs"
  by (induction xs) simp_all

section \<open>Weakest preconditions\<close>

definition wp :: "('s, 'e, 'a) eff \<Rightarrow> ('a \<Rightarrow> 's \<Rightarrow> bool) \<Rightarrow> ('s \<Rightarrow> bool) \<Rightarrow> 's \<Rightarrow> bool" where
  "wp m Q E s = (case m s of (r, s') \<Rightarrow>
     case r of Ok x \<Rightarrow> Q x s' | Err e \<Rightarrow> E s' | Panic \<Rightarrow> False)"

lemma wp_return [wp_simps]: "wp (return_eff x) Q E = Q x"
  by (simp add: fun_eq_iff wp_def return_eff_def)

lemma wp_raise [wp_simps]: "wp (raise_eff e) Q E = E"
  by (simp add: fun_eq_iff wp_def raise_eff_def)

lemma wp_lift [wp_simps]:
  "wp (lift_result r) Q E = (\<lambda>s. case r of Ok x \<Rightarrow> Q x s | Err e \<Rightarrow> E s | Panic \<Rightarrow> False)"
  by (simp add: fun_eq_iff wp_def lift_result_def)

lemma wp_bind [wp_simps]: "wp (bind_eff m f) Q E = wp m (\<lambda>x. wp (f x) Q E) E"
  by (auto simp: fun_eq_iff wp_def bind_eff_def split: prod.split result.split)

lemma wp_gets [wp_simps]: "wp (gets f) Q E = (\<lambda>s. Q (f s) s)"
  by (simp add: fun_eq_iff wp_def gets_def)

lemma wp_modify [wp_simps]: "wp (modify f) Q E = (\<lambda>s. Q () (f s))"
  by (simp add: fun_eq_iff wp_def modify_def)

lemma wp_map_err [wp_simps]: "wp (map_err_eff g m) Q E = wp m Q E"
  by (auto simp: fun_eq_iff wp_def map_err_eff_def split: prod.split result.split)

lemma wp_expect [wp_simps]: "wp (expect_eff m) Q E = wp m Q (\<lambda>_. False)"
  by (auto simp: fun_eq_iff wp_def expect_eff_def split: prod.split result.split)

lemma wp_try [wp_simps]: "wp (try_eff m) Q E s \<longleftrightarrow>
    (case m s of (Ok x, s') \<Rightarrow> Q (Inr x) s' | (Err e, s') \<Rightarrow> Q (Inl e) s' | (Panic, s') \<Rightarrow> False)"
  by (auto simp: wp_def try_eff_def split: prod.split result.split)

lemma wp_on_part [wp_simps]:
  "wp (on_part get put m) Q E = (\<lambda>s. wp m (\<lambda>x p. Q x (put p s)) (\<lambda>p. E (put p s)) (get s))"
  by (auto simp: fun_eq_iff wp_def on_part_def split: prod.split result.split)

lemma wp_mono:
  "wp m Q E s \<Longrightarrow> (\<And>x s'. Q x s' \<Longrightarrow> Q' x s') \<Longrightarrow> (\<And>s'. E s' \<Longrightarrow> E' s') \<Longrightarrow> wp m Q' E' s"
  by (auto simp: wp_def split: prod.splits result.splits)

lemma wp_conj: "wp m Q E s \<Longrightarrow> wp m Q' E' s \<Longrightarrow> wp m (\<lambda>x s'. Q x s' \<and> Q' x s') (\<lambda>s'. E s' \<and> E' s') s"
  by (auto simp: wp_def split: prod.splits result.splits)

lemma wp_Ok: "wp m Q E s \<Longrightarrow> m s = (Ok x, s') \<Longrightarrow> Q x s'"
  by (simp add: wp_def)

lemma wp_Err: "wp m Q E s \<Longrightarrow> m s = (Err e, s') \<Longrightarrow> E s'"
  by (simp add: wp_def)

lemma wp_no_panic: "wp m Q E s \<Longrightarrow> fst (m s) \<noteq> Panic"
  by (auto simp: wp_def split: prod.splits)

text \<open>A loop over a list: \<open>I ys s\<close> holds after the elements \<open>ys\<close>.\<close>

lemma wp_for_each_prefix:
  assumes "I [] s"
    and step: "\<And>ys x zs s. xs = ys @ x # zs \<Longrightarrow> I ys s \<Longrightarrow> wp (f x) (\<lambda>_. I (ys @ [x])) E s"
    and post: "\<And>s. I xs s \<Longrightarrow> Q () s"
  shows "wp (for_each f xs) Q E s"
proof -
  have "wp (for_each f zs) (\<lambda>_. I xs) E s" if "xs = ys @ zs" "I ys s" for ys zs s
    using that
  proof (induction zs arbitrary: ys s)
    case Nil
    then show ?case by (simp add: wp_simps)
  next
    case (Cons z zs)
    have "wp (f z) (\<lambda>_. I (ys @ [z])) E s" using Cons.prems by (rule step)
    then have "wp (f z) (\<lambda>_. wp (for_each f zs) (\<lambda>_. I xs) E) E s"
      by (rule wp_mono) (rule Cons.IH [of "ys @ [z]"], simp_all add: Cons.prems(1))
    then show ?case by (simp add: wp_simps)
  qed
  from this [of "[]" xs, OF _ assms(1)] have "wp (for_each f xs) (\<lambda>_. I xs) E s" by simp
  then show ?thesis by (rule wp_mono) (auto intro: post)
qed

lemma wp_for_each_inv:
  assumes "I s" and "\<And>x s. x \<in> set xs \<Longrightarrow> I s \<Longrightarrow> wp (f x) (\<lambda>_. I) E s" and "\<And>s. I s \<Longrightarrow> Q () s"
  shows "wp (for_each f xs) Q E s"
  by (rule wp_for_each_prefix [where I = "\<lambda>_. I"]) (use assms in auto)

section \<open>Liberal preconditions\<close>

text \<open>\<open>wlp\<close> says what holds when an operation succeeds, whether or not it can fail or panic.\<close>

named_theorems wlp_simps

definition wlp :: "('s, 'e, 'a) eff \<Rightarrow> ('a \<Rightarrow> 's \<Rightarrow> bool) \<Rightarrow> 's \<Rightarrow> bool" where
  "wlp m Q s = (case m s of (r, s') \<Rightarrow> case r of Ok x \<Rightarrow> Q x s' | _ \<Rightarrow> True)"

lemma wlp_return [wlp_simps]: "wlp (return_eff x) Q = Q x"
  by (simp add: fun_eq_iff wlp_def return_eff_def)

lemma wlp_raise [wlp_simps]: "wlp (raise_eff e) Q = (\<lambda>s. True)"
  by (simp add: fun_eq_iff wlp_def raise_eff_def)

lemma wlp_lift [wlp_simps]: "wlp (lift_result r) Q = (\<lambda>s. case r of Ok x \<Rightarrow> Q x s | _ \<Rightarrow> True)"
  by (simp add: fun_eq_iff wlp_def lift_result_def)

lemma wlp_bind [wlp_simps]: "wlp (bind_eff m f) Q = wlp m (\<lambda>x. wlp (f x) Q)"
  by (auto simp: fun_eq_iff wlp_def bind_eff_def split: prod.split result.split)

lemma wlp_gets [wlp_simps]: "wlp (gets f) Q = (\<lambda>s. Q (f s) s)"
  by (simp add: fun_eq_iff wlp_def gets_def)

lemma wlp_modify [wlp_simps]: "wlp (modify f) Q = (\<lambda>s. Q () (f s))"
  by (simp add: fun_eq_iff wlp_def modify_def)

lemma wlp_map_err [wlp_simps]: "wlp (map_err_eff g m) Q = wlp m Q"
  by (auto simp: fun_eq_iff wlp_def map_err_eff_def split: prod.split result.split)

lemma wlp_expect [wlp_simps]: "wlp (expect_eff m) Q = wlp m Q"
  by (auto simp: fun_eq_iff wlp_def expect_eff_def split: prod.split result.split)

lemma wlp_on_part [wlp_simps]: "wlp (on_part get put m) Q = (\<lambda>s. wlp m (\<lambda>x p. Q x (put p s)) (get s))"
  by (auto simp: fun_eq_iff wlp_def on_part_def split: prod.split result.split)

lemma wlp_try:
  "wp m (\<lambda>x. Q (Inr x)) (\<lambda>s'. \<forall>e. Q (Inl e) s') s \<Longrightarrow> wlp (try_eff m) Q s"
  by (auto simp: wp_def wlp_def try_eff_def split: prod.splits result.splits)

lemma wlp_mono: "wlp m Q s \<Longrightarrow> (\<And>x s'. Q x s' \<Longrightarrow> Q' x s') \<Longrightarrow> wlp m Q' s"
  by (auto simp: wlp_def split: prod.splits result.splits)

lemma wlp_wp: "wp m Q E s \<Longrightarrow> (\<And>x s'. Q x s' \<Longrightarrow> Q' x s') \<Longrightarrow> wlp m Q' s"
  by (auto simp: wp_def wlp_def split: prod.splits result.splits)

lemma wlp_Ok: "wlp m Q s \<Longrightarrow> m s = (Ok x, s') \<Longrightarrow> Q x s'"
  by (simp add: wlp_def)

lemma wlp_for_each_prefix:
  assumes "I [] s"
    and step: "\<And>ys x zs s. xs = ys @ x # zs \<Longrightarrow> I ys s \<Longrightarrow> wlp (f x) (\<lambda>_. I (ys @ [x])) s"
    and post: "\<And>s. I xs s \<Longrightarrow> Q () s"
  shows "wlp (for_each f xs) Q s"
proof -
  have "wlp (for_each f zs) (\<lambda>_. I xs) s" if "xs = ys @ zs" "I ys s" for ys zs s
    using that
  proof (induction zs arbitrary: ys s)
    case Nil
    then show ?case by (simp add: wlp_simps)
  next
    case (Cons z zs)
    have "wlp (f z) (\<lambda>_. I (ys @ [z])) s" using Cons.prems by (rule step)
    then have "wlp (f z) (\<lambda>_. wlp (for_each f zs) (\<lambda>_. I xs)) s"
      by (rule wlp_mono) (rule Cons.IH [of "ys @ [z]"], simp_all add: Cons.prems(1))
    then show ?case by (simp add: wlp_simps)
  qed
  from this [of "[]" xs, OF _ assms(1)] have "wlp (for_each f xs) (\<lambda>_. I xs) s" by simp
  then show ?thesis by (rule wlp_mono) (auto intro: post)
qed

end
