(* ===== verification/BtcDb.thy ===== *)
theory BtcDb
  imports PegoutTypes Effects "HOL-Library.List_Lexorder"
begin

text \<open>
  The database of the Bitcoin server (\<open>btc-server/src/database/mod.rs\<close>, \<open>error.rs\<close>). The storage
  engine \<open>sled\<close>, the encoder \<open>ciborium\<close> and the hash functions are crates: they are fields of the
  parameter \<open>store\<close>, and any call to the engine may fail. \<open>'t\<close> is the type of its trees and \<open>'b\<close> that
  of the bytes it stores. \<open>sled_ok\<close> and \<open>codecs_ok\<close> state their documentation: a tree is an ordered
  map from keys to values whose contents are given by \<open>content\<close>, a failed call leaves it alone, and
  what was encoded decodes to itself, and a Merkle root has 32 bytes. The database maps the trees that
  \<open>Db::open\<close> opens to their state.
\<close>

section \<open>The storage engine\<close>

record ('v, 'b) codec =
  ser :: "'v \<Rightarrow> 'b option"
  de :: "'b \<Rightarrow> 'v option"

record ('t, 'b, 'e, 'kp, 'pp) store =
  sl_get :: "'t \<Rightarrow> u8 list \<Rightarrow> ('e, 'b option) result"
  sl_contains_key :: "'t \<Rightarrow> u8 list \<Rightarrow> ('e, bool) result"
  sl_insert :: "'t \<Rightarrow> u8 list \<Rightarrow> 'b \<Rightarrow> ('e, 't) result"
  sl_remove :: "'t \<Rightarrow> u8 list \<Rightarrow> ('e, 't) result"
  sl_clear :: "'t \<Rightarrow> ('e, 't) result"
  sl_iter :: "'t \<Rightarrow> ('e, u8 list \<times> 'b) result list"
  sl_flush :: "'t \<Rightarrow> ('e, unit) result"
  c_utxo :: "(utxo, 'b) codec"
  c_tx :: "(tracked_tx, 'b) codec"
  c_request :: "(pegout_request, 'b) codec"
  c_finalized :: "(finalized_pegout, 'b) codec"
  c_key :: "('kp, 'b) codec"
  c_pubkey :: "('pp, 'b) codec"
  raw :: "u8 list \<Rightarrow> 'b"
  unraw :: "'b \<Rightarrow> u8 list"
  de_out_point :: "u8 list \<Rightarrow> out_point option"
  de_block_hash :: "u8 list \<Rightarrow> block_hash option"
  consensus_out_point :: "out_point \<Rightarrow> u8 list"
  consensus_txid :: "txid \<Rightarrow> u8 list"
  consensus_u32 :: "u32 \<Rightarrow> u8 list"
  consensus_bytes :: "u8 list \<Rightarrow> u8 list"
  consensus_u64 :: "u64 \<Rightarrow> u8 list"
  sha256 :: "u8 list \<Rightarrow> u8 list"
  calculate_root :: "u8 list list \<Rightarrow> u8 list option"

datatype 'e db_error =
    Db 'e
  | DataCorruption
  | FrostSerialization
  | Serialization
  | BitcoinSerialization
  | PsbtError
  | Transaction "'e db_error"
  | RpcToDbMap string
  | EmptyMerkleRoot
  | CiboriumWrite
  | OutputNotFound usize
  | HashEngine
  | InvalidUTXOVersion u32
  | DurationSinceEpoch
  | BitcoindError
  | TrackedTxNotFoundInPegoutScheduler
  | BadDecryptionPassphrase
  | BadExportedPackageFormatVersion
  | InvalidMultisigIdKeyLength nat

datatype tree_id =
    DefaultTree | Utxos | Round1DkgPackages | Round2DkgPackages | PsbtTree | TrackedTxs
  | FinalizedPegoutIds | PendingPegouts | KeyPackages | PubkeyPackages

type_synonym 't db = "tree_id \<Rightarrow> 't"

definition bytes_of :: "string \<Rightarrow> u8 list" where
  "bytes_of s = map of_char s"

definition KEY_UTXO_MERKLE_ROOT :: "u8 list" where
  "KEY_UTXO_MERKLE_ROOT = bytes_of ''root''"
definition KEY_TRACKED_TX_MERKLE_ROOT :: "u8 list" where
  "KEY_TRACKED_TX_MERKLE_ROOT = bytes_of ''troot''"
definition KEY_PENDING_PEGOUTS_MERKLE_ROOT :: "u8 list" where
  "KEY_PENDING_PEGOUTS_MERKLE_ROOT = bytes_of ''proot''"
definition KEY_PEGOUTMGR_TIP :: "u8 list" where
  "KEY_PEGOUTMGR_TIP = bytes_of ''pegoutmgrtip''"
definition KEY_FINALIZED_PEGOUT_IDS_MERKLE_ROOT :: "u8 list" where
  "KEY_FINALIZED_PEGOUT_IDS_MERKLE_ROOT = bytes_of ''pegoutids''"
definition RETENTION_WINDOW_SECONDS :: u64 where
  "RETENTION_WINDOW_SECONDS = 90 * 24 * 60 * 60"

text \<open>The calls to the engine, its errors converted by \<open>From<sled::Error>\<close>.\<close>

definition tree_get ::
    "('t, 'b, 'e, 'kp, 'pp) store \<Rightarrow> tree_id \<Rightarrow> u8 list \<Rightarrow> ('t db, 'e db_error, 'b option) eff" where
  "tree_get S T k db = (map_err Db (sl_get S (db T) k), db)"

definition tree_contains_key ::
    "('t, 'b, 'e, 'kp, 'pp) store \<Rightarrow> tree_id \<Rightarrow> u8 list \<Rightarrow> ('t db, 'e db_error, bool) eff" where
  "tree_contains_key S T k db = (map_err Db (sl_contains_key S (db T) k), db)"

definition write_tree ::
    "tree_id \<Rightarrow> ('t \<Rightarrow> ('e, 't) result) \<Rightarrow> ('t db, 'e db_error, unit) eff" where
  "write_tree T f db = (case f (db T) of
     Ok t \<Rightarrow> (Ok (), db(T := t)) | Err e \<Rightarrow> (Err (Db e), db) | Panic \<Rightarrow> (Panic, db))"

definition tree_insert ::
    "('t, 'b, 'e, 'kp, 'pp) store \<Rightarrow> tree_id \<Rightarrow> u8 list \<Rightarrow> 'b \<Rightarrow> ('t db, 'e db_error, unit) eff" where
  "tree_insert S T k v = write_tree T (\<lambda>t. sl_insert S t k v)"

definition tree_remove ::
    "('t, 'b, 'e, 'kp, 'pp) store \<Rightarrow> tree_id \<Rightarrow> u8 list \<Rightarrow> ('t db, 'e db_error, unit) eff" where
  "tree_remove S T k = write_tree T (\<lambda>t. sl_remove S t k)"

definition tree_clear ::
    "('t, 'b, 'e, 'kp, 'pp) store \<Rightarrow> tree_id \<Rightarrow> ('t db, 'e db_error, unit) eff" where
  "tree_clear S T = write_tree T (sl_clear S)"

text \<open>A loop over the rows of a tree that pushes one element for each.\<close>

definition collect_rows ::
    "('t, 'b, 'e, 'kp, 'pp) store \<Rightarrow> tree_id \<Rightarrow> (u8 list \<Rightarrow> 'b \<Rightarrow> ('e db_error, 'v) result) \<Rightarrow>
     ('t db, 'e db_error, 'v list) eff" where
  "collect_rows S T f db =
     (fold_result (\<lambda>ret res. bind_result (bind_result (map_err Db res) (\<lambda>(k, v). f k v)) (\<lambda>y. Ok (ret @ [y])))
        [] (sl_iter S (db T)), db)"

text \<open>\<open>Tree::transaction\<close>: an error inside rolls the database back.\<close>

definition transaction_eff :: "('t db, 'e db_error, unit) eff \<Rightarrow> ('t db, 'e db_error, unit) eff" where
  "transaction_eff body db = (case body db of
     (Ok u, db') \<Rightarrow> (Ok u, db') | (Err e, _) \<Rightarrow> (Err (Transaction e), db) | (Panic, _) \<Rightarrow> (Panic, db))"

definition db_flush :: "('t, 'b, 'e, 'kp, 'pp) store \<Rightarrow> ('t db, 'e db_error, unit) eff" where
  "db_flush S = for_each (\<lambda>T db. (map_err Db (sl_flush S (db T)), db))
     [DefaultTree, Utxos, Round1DkgPackages, Round2DkgPackages, PsbtTree, TrackedTxs,
      PendingPegouts, FinalizedPegoutIds, KeyPackages, PubkeyPackages]"

text \<open>Writing an encoded value, and writing it only if the key is free (the bodies of the
  transactions, where a failing encoder panics).\<close>

definition insert_row ::
    "('t, 'b, 'e, 'kp, 'pp) store \<Rightarrow> tree_id \<Rightarrow> ('v, 'b) codec \<Rightarrow> u8 list \<Rightarrow> 'v \<Rightarrow>
     ('t db, 'e db_error, unit) eff" where
  "insert_row S T c k v =
     bind_eff (lift_result (ok_or CiboriumWrite (ser c v))) (\<lambda>bytes. tree_insert S T k bytes)"

definition insert_new_row ::
    "('t, 'b, 'e, 'kp, 'pp) store \<Rightarrow> tree_id \<Rightarrow> ('v, 'b) codec \<Rightarrow> u8 list \<Rightarrow> 'v \<Rightarrow>
     ('t db, 'e db_error, unit) eff" where
  "insert_new_row S T c k v =
     bind_eff (tree_get S T k) (\<lambda>old.
       if old = None
       then bind_eff (lift_result (expect (ser c v))) (\<lambda>bytes. tree_insert S T k bytes)
       else return_eff ())"

section \<open>Unspent outputs\<close>

definition get_utxo ::
    "('t, 'b, 'e, 'kp, 'pp) store \<Rightarrow> out_point \<Rightarrow> ('t db, 'e db_error, utxo option) eff" where
  "get_utxo S op =
     bind_eff (tree_get S Utxos (out_point_to_bytes op)) (\<lambda>b. case b of
       Some b \<Rightarrow> bind_eff (lift_result (ok_or DataCorruption (de (c_utxo S) b)))
                  (\<lambda>ret. return_eff (Some (ret\<lparr>ut_outpoint := op\<rparr>)))
     | None \<Rightarrow> return_eff None)"

definition remove_utxo ::
    "('t, 'b, 'e, 'kp, 'pp) store \<Rightarrow> out_point \<Rightarrow> ('t db, 'e db_error, unit) eff" where
  "remove_utxo S op = tree_remove S Utxos (out_point_to_bytes op)"

definition iter_utxos ::
    "('t, 'b, 'e, 'kp, 'pp) store \<Rightarrow> 't db \<Rightarrow> ('e db_error, utxo) result list" where
  "iter_utxos S db = map (\<lambda>res. bind_result (map_err Db res) (\<lambda>(k, v).
     bind_result (ok_or DataCorruption (de (c_utxo S) v)) (\<lambda>ret.
     bind_result (expect (de_out_point S k)) (\<lambda>op. Ok (ret\<lparr>ut_outpoint := op\<rparr>))))) (sl_iter S (db Utxos))"

definition store_utxo ::
    "('t, 'b, 'e, 'kp, 'pp) store \<Rightarrow> utxo \<Rightarrow> ('t db, 'e db_error, bool) eff" where
  "store_utxo S u =
     bind_eff (tree_contains_key S Utxos (out_point_to_bytes (ut_outpoint u))) (\<lambda>known.
       if \<not> known
       then bind_eff (insert_row S Utxos (c_utxo S) (out_point_to_bytes (ut_outpoint u)) u)
              (\<lambda>_. return_eff True)
       else return_eff False)"

definition store_utxos_atomically ::
    "('t, 'b, 'e, 'kp, 'pp) store \<Rightarrow> utxo list \<Rightarrow> ('t db, 'e db_error, bool) eff" where
  "store_utxos_atomically S us =
     bind_eff (transaction_eff (for_each (\<lambda>u.
         insert_new_row S Utxos (c_utxo S) (out_point_to_bytes (ut_outpoint u)) u) us))
       (\<lambda>_. return_eff True)"

definition store_utxos ::
    "('t, 'b, 'e, 'kp, 'pp) store \<Rightarrow> utxo list \<Rightarrow> ('t db, 'e db_error, bool) eff" where
  "store_utxos S us = (case us of
     [] \<Rightarrow> return_eff False | [u] \<Rightarrow> store_utxo S u | _ \<Rightarrow> store_utxos_atomically S us)"

definition clear_utxos :: "('t, 'b, 'e, 'kp, 'pp) store \<Rightarrow> ('t db, 'e db_error, unit) eff" where
  "clear_utxos S = tree_clear S Utxos"

definition reset_utxos ::
    "('t, 'b, 'e, 'kp, 'pp) store \<Rightarrow> utxo list \<Rightarrow> ('t db, 'e db_error, unit) eff" where
  "reset_utxos S us =
     bind_eff (clear_utxos S) (\<lambda>_. bind_eff (store_utxos S us) (\<lambda>_. return_eff ()))"

definition get_all_utxos ::
    "('t, 'b, 'e, 'kp, 'pp) store \<Rightarrow> ('t db, 'e db_error, utxo list) eff" where
  "get_all_utxos S = collect_rows S Utxos (\<lambda>k v.
     bind_result (expect (de_out_point S k)) (\<lambda>op.
     bind_result (expect (de (c_utxo S) v)) (\<lambda>u. Ok (u\<lparr>ut_outpoint := op\<rparr>))))"

text \<open>The Merkle root of hashed rows, sorted; nothing is stored when there are none.\<close>

definition store_merkle_root ::
    "('t, 'b, 'e, 'kp, 'pp) store \<Rightarrow> u8 list \<Rightarrow> u8 list list \<Rightarrow> ('t db, 'e db_error, unit) eff" where
  "store_merkle_root S key hashes =
     (if hashes = [] then return_eff ()
      else bind_eff (lift_result (ok_or EmptyMerkleRoot (calculate_root S (sort hashes))))
             (\<lambda>root. tree_insert S DefaultTree key (raw S root)))"

text \<open>\<open>sha256::Hash::from_slice\<close> panics on anything but 32 bytes.\<close>

definition get_merkle_root ::
    "('t, 'b, 'e, 'kp, 'pp) store \<Rightarrow> u8 list \<Rightarrow> ('t db, 'e db_error, u8 list option) eff" where
  "get_merkle_root S key = bind_eff (tree_get S DefaultTree key) (\<lambda>b. case b of
     None \<Rightarrow> return_eff None
   | Some b \<Rightarrow> bind_eff (lift_result (assert_that (length (unraw S b) = 32)))
       (\<lambda>_. return_eff (Some (unraw S b))))"

fun collect_results :: "('e, 'a) result list \<Rightarrow> ('e, 'a list) result" where
  "collect_results [] = Ok []"
| "collect_results (r # rs) = bind_result r (\<lambda>x. bind_result (collect_results rs) (\<lambda>xs. Ok (x # xs)))"

definition update_utxo_merkle_root ::
    "('t, 'b, 'e, 'kp, 'pp) store \<Rightarrow> ('t db, 'e db_error, unit) eff" where
  "update_utxo_merkle_root S =
     bind_eff (\<lambda>db. (collect_results (iter_utxos S db), db)) (\<lambda>us.
       store_merkle_root S KEY_UTXO_MERKLE_ROOT
         (map (\<lambda>u. sha256 S (consensus_out_point S (ut_outpoint u))) us))"

definition get_utxo_merkle_root ::
    "('t, 'b, 'e, 'kp, 'pp) store \<Rightarrow> ('t db, 'e db_error, u8 list option) eff" where
  "get_utxo_merkle_root S = get_merkle_root S KEY_UTXO_MERKLE_ROOT"

section \<open>Tracked transactions\<close>

definition get_tracked_txs ::
    "('t, 'b, 'e, 'kp, 'pp) store \<Rightarrow> ('t db, 'e db_error, tracked_tx list) eff" where
  "get_tracked_txs S = collect_rows S TrackedTxs (\<lambda>k v. expect (de (c_tx S) v))"

definition update_tracked_tx_merkle_root ::
    "('t, 'b, 'e, 'kp, 'pp) store \<Rightarrow> ('t db, 'e db_error, unit) eff" where
  "update_tracked_tx_merkle_root S =
     bind_eff (get_tracked_txs S) (\<lambda>txs.
       store_merkle_root S KEY_TRACKED_TX_MERKLE_ROOT
         (map (\<lambda>tx. sha256 S (consensus_txid S (tr_txid tx))) txs))"

definition get_tracked_tx_merkle_root ::
    "('t, 'b, 'e, 'kp, 'pp) store \<Rightarrow> ('t db, 'e db_error, u8 list option) eff" where
  "get_tracked_tx_merkle_root S = get_merkle_root S KEY_TRACKED_TX_MERKLE_ROOT"

definition store_tracked_tx ::
    "('t, 'b, 'e, 'kp, 'pp) store \<Rightarrow> tracked_tx \<Rightarrow> ('t db, 'e db_error, unit) eff" where
  "store_tracked_tx S tx =
     bind_eff (insert_row S TrackedTxs (c_tx S) (txid_bytes (tr_txid tx)) tx)
       (\<lambda>_. update_tracked_tx_merkle_root S)"

definition store_tracked_txs_atomically ::
    "('t, 'b, 'e, 'kp, 'pp) store \<Rightarrow> tracked_tx list \<Rightarrow> ('t db, 'e db_error, unit) eff" where
  "store_tracked_txs_atomically S txs =
     transaction_eff (for_each (\<lambda>tx.
       insert_new_row S TrackedTxs (c_tx S) (txid_bytes (tr_txid tx)) tx) txs)"

definition store_tracked_txs ::
    "('t, 'b, 'e, 'kp, 'pp) store \<Rightarrow> tracked_tx list \<Rightarrow> ('t db, 'e db_error, unit) eff" where
  "store_tracked_txs S txs = (case txs of
     [] \<Rightarrow> return_eff () | [tx] \<Rightarrow> store_tracked_tx S tx | _ \<Rightarrow> store_tracked_txs_atomically S txs)"

definition remove_tracked_tx ::
    "('t, 'b, 'e, 'kp, 'pp) store \<Rightarrow> txid \<Rightarrow> ('t db, 'e db_error, unit) eff" where
  "remove_tracked_tx S txid = tree_remove S TrackedTxs (txid_bytes txid)"

definition clear_tracked_txs :: "('t, 'b, 'e, 'kp, 'pp) store \<Rightarrow> ('t db, 'e db_error, unit) eff" where
  "clear_tracked_txs S = tree_clear S TrackedTxs"

definition reset_tracked_txs ::
    "('t, 'b, 'e, 'kp, 'pp) store \<Rightarrow> tracked_tx list \<Rightarrow> ('t db, 'e db_error, unit) eff" where
  "reset_tracked_txs S txs = bind_eff (clear_tracked_txs S) (\<lambda>_. store_tracked_txs S txs)"

definition store_pegout_mgr_finalized_block ::
    "('t, 'b, 'e, 'kp, 'pp) store \<Rightarrow> block_hash \<Rightarrow> ('t db, 'e db_error, unit) eff" where
  "store_pegout_mgr_finalized_block S h = tree_insert S DefaultTree KEY_PEGOUTMGR_TIP (raw S (txid_bytes h))"

definition get_pegout_mgr_finalized_block ::
    "('t, 'b, 'e, 'kp, 'pp) store \<Rightarrow> ('t db, 'e db_error, block_hash option) eff" where
  "get_pegout_mgr_finalized_block S = bind_eff (tree_get S DefaultTree KEY_PEGOUTMGR_TIP) (\<lambda>b. case b of
     None \<Rightarrow> return_eff None
   | Some b \<Rightarrow> bind_eff (lift_result (expect (de_block_hash S (unraw S b)))) (\<lambda>h. return_eff (Some h)))"

section \<open>Pending pegouts\<close>

definition get_pending_pegouts ::
    "('t, 'b, 'e, 'kp, 'pp) store \<Rightarrow> ('t db, 'e db_error, pegout_request list) eff" where
  "get_pending_pegouts S = collect_rows S PendingPegouts (\<lambda>k v. expect (de (c_request S) v))"

definition get_pending_pegout ::
    "('t, 'b, 'e, 'kp, 'pp) store \<Rightarrow> pegout_id \<Rightarrow> ('t db, 'e db_error, pegout_request option) eff" where
  "get_pending_pegout S i = bind_eff (tree_get S PendingPegouts (pegout_id_as_bytes i)) (\<lambda>b. case b of
     None \<Rightarrow> return_eff None
   | Some b \<Rightarrow> bind_eff (lift_result (expect (de (c_request S) b))) (\<lambda>r. return_eff (Some r)))"

definition update_pending_pegouts_merkle_root ::
    "('t, 'b, 'e, 'kp, 'pp) store \<Rightarrow> ('t db, 'e db_error, unit) eff" where
  "update_pending_pegouts_merkle_root S =
     bind_eff (get_pending_pegouts S) (\<lambda>reqs.
       store_merkle_root S KEY_PENDING_PEGOUTS_MERKLE_ROOT
         (map (\<lambda>req. sha256 S (pegout_id_as_bytes (pr_id req))) reqs))"

definition get_pending_pegouts_merkle_root ::
    "('t, 'b, 'e, 'kp, 'pp) store \<Rightarrow> ('t db, 'e db_error, u8 list option) eff" where
  "get_pending_pegouts_merkle_root S = get_merkle_root S KEY_PENDING_PEGOUTS_MERKLE_ROOT"

definition store_pending_pegout ::
    "('t, 'b, 'e, 'kp, 'pp) store \<Rightarrow> pegout_request \<Rightarrow> ('t db, 'e db_error, unit) eff" where
  "store_pending_pegout S req =
     bind_eff (insert_row S PendingPegouts (c_request S) (pegout_id_as_bytes (pr_id req)) req)
       (\<lambda>_. update_pending_pegouts_merkle_root S)"

definition store_pending_pegouts_atomically ::
    "('t, 'b, 'e, 'kp, 'pp) store \<Rightarrow> pegout_request list \<Rightarrow> ('t db, 'e db_error, unit) eff" where
  "store_pending_pegouts_atomically S reqs =
     bind_eff (transaction_eff (for_each (\<lambda>req.
         insert_new_row S PendingPegouts (c_request S) (pegout_id_as_bytes (pr_id req)) req) reqs))
       (\<lambda>_. update_pending_pegouts_merkle_root S)"

definition store_pending_pegouts ::
    "('t, 'b, 'e, 'kp, 'pp) store \<Rightarrow> pegout_request list \<Rightarrow> ('t db, 'e db_error, unit) eff" where
  "store_pending_pegouts S reqs = (case reqs of
     [] \<Rightarrow> return_eff () | [req] \<Rightarrow> store_pending_pegout S req | _ \<Rightarrow> store_pending_pegouts_atomically S reqs)"

text \<open>\<open>sort_by\<close> is stable.\<close>

definition coord_pending_pegouts ::
    "('t, 'b, 'e, 'kp, 'pp) store \<Rightarrow> nat \<Rightarrow> ('t db, 'e db_error, pegout_request list) eff" where
  "coord_pending_pegouts S max_pegouts = bind_eff (get_pending_pegouts S) (\<lambda>reqs.
     let pegouts = sort_key botanix_height reqs in
     if length pegouts < max_pegouts then return_eff pegouts else return_eff (take max_pegouts pegouts))"

definition remove_pending_pegout ::
    "('t, 'b, 'e, 'kp, 'pp) store \<Rightarrow> pegout_id list \<Rightarrow> ('t db, 'e db_error, unit) eff" where
  "remove_pending_pegout S ids = for_each (\<lambda>i. tree_remove S PendingPegouts (pegout_id_as_bytes i)) ids"

definition clear_pending_pegouts :: "('t, 'b, 'e, 'kp, 'pp) store \<Rightarrow> ('t db, 'e db_error, unit) eff" where
  "clear_pending_pegouts S = tree_clear S PendingPegouts"

definition reset_pending_pegouts ::
    "('t, 'b, 'e, 'kp, 'pp) store \<Rightarrow> pegout_request list \<Rightarrow> ('t db, 'e db_error, unit) eff" where
  "reset_pending_pegouts S reqs = bind_eff (clear_pending_pegouts S) (\<lambda>_. store_pending_pegouts S reqs)"

section \<open>Finalized pegouts\<close>

definition get_finalized_pegout_ids ::
    "('t, 'b, 'e, 'kp, 'pp) store \<Rightarrow> ('t db, 'e db_error, finalized_pegout list) eff" where
  "get_finalized_pegout_ids S = collect_rows S FinalizedPegoutIds (\<lambda>k v. expect (de (c_finalized S) v))"

definition peek_finalized_pegout_ids ::
    "('t, 'b, 'e, 'kp, 'pp) store \<Rightarrow> ('t db, 'e db_error, nat) eff" where
  "peek_finalized_pegout_ids S db = (Ok (length (sl_iter S (db FinalizedPegoutIds))), db)"

definition iter_finalized_pegout_ids ::
    "('t, 'b, 'e, 'kp, 'pp) store \<Rightarrow> 't db \<Rightarrow> ('e db_error, finalized_pegout) result list" where
  "iter_finalized_pegout_ids S db = map (\<lambda>res. bind_result (map_err Db res) (\<lambda>(k, v).
     ok_or DataCorruption (de (c_finalized S) v))) (sl_iter S (db FinalizedPegoutIds))"

text \<open>The stream of chunks, as the list of the items it yields. \<open>slice::chunks\<close> and \<open>div_ceil\<close> panic
  when the chunk size is zero.\<close>

function chunks :: "nat \<Rightarrow> 'a list \<Rightarrow> 'a list list" where
  "chunks n xs = (if n = 0 \<or> xs = [] then [] else take n xs # chunks n (drop n xs))"
  by auto
termination by (relation "measure (\<lambda>(n, xs). length xs)") auto

declare chunks.simps [simp del]

text \<open>The stream takes the keys of the table when it starts and reads the row of a key when it gets there;
  the server goes on meanwhile. \<open>tables\<close> gives the table as it is when a key is read.\<close>

fun chunk_items ::
    "('t, 'b, 'e, 'kp, 'pp) store \<Rightarrow> (u8 list \<Rightarrow> 't) \<Rightarrow> u8 list list \<Rightarrow> ('e db_error, finalized_pegout list) result" where
  "chunk_items S tables [] = Ok []"
| "chunk_items S tables (key # keys) = (case sl_get S (tables key) key of
     Ok (Some value) \<Rightarrow>
       (case de (c_finalized S) value of
          Some p \<Rightarrow> bind_result (chunk_items S tables keys) (\<lambda>ps. Ok (p # ps))
        | None \<Rightarrow> Err DataCorruption)
   | Panic \<Rightarrow> Panic
   | _ \<Rightarrow> chunk_items S tables keys)"

fun stream_chunks ::
    "('t, 'b, 'e, 'kp, 'pp) store \<Rightarrow> (u8 list \<Rightarrow> 't) \<Rightarrow> u64 \<Rightarrow> u64 \<Rightarrow> u8 list list list \<Rightarrow>
     ('e db_error, finalized_pegout list \<times> u64 \<times> u64) result list" where
  "stream_chunks S tables chunk_index num_chunks [] = []"
| "stream_chunks S tables chunk_index num_chunks (key_chunk # rest) =
     (case chunk_items S tables key_chunk of
        Ok items \<Rightarrow>
          if items \<noteq> []
          then Ok (items, chunk_index, num_chunks) # stream_chunks S tables (chunk_index + 1) num_chunks rest
          else stream_chunks S tables chunk_index num_chunks rest
      | Err e \<Rightarrow> [Err e]
      | Panic \<Rightarrow> [Panic])"

definition get_finalized_pegout_ids_stream ::
    "('t, 'b, 'e, 'kp, 'pp) store \<Rightarrow> nat \<Rightarrow> (u8 list \<Rightarrow> 't) \<Rightarrow> 't db \<Rightarrow>
     ('e db_error, finalized_pegout list \<times> u64 \<times> u64) result list" where
  "get_finalized_pegout_ids_stream S chunk_size tables db =
     (if chunk_size = 0 then [Panic]
      else
        let rows = sl_iter S (db FinalizedPegoutIds);
            num_chunks = of_nat (div_ceil (length rows) chunk_size)
        in case collect_results rows of
             Ok rows \<Rightarrow> stream_chunks S tables 0 num_chunks (chunks chunk_size (map fst rows))
           | Err e \<Rightarrow> [Err (Db e)]
           | Panic \<Rightarrow> [Panic])"

definition remove_finalized_pegout_ids ::
    "('t, 'b, 'e, 'kp, 'pp) store \<Rightarrow> finalized_pegout list \<Rightarrow> ('t db, 'e db_error, unit) eff" where
  "remove_finalized_pegout_ids S ps =
     for_each (\<lambda>p. tree_remove S FinalizedPegoutIds (pegout_id_as_bytes (fp_id p))) ps"

definition clear_finalized_pegout_ids ::
    "('t, 'b, 'e, 'kp, 'pp) store \<Rightarrow> ('t db, 'e db_error, unit) eff" where
  "clear_finalized_pegout_ids S = tree_clear S FinalizedPegoutIds"

definition store_finalized_pegout_id ::
    "('t, 'b, 'e, 'kp, 'pp) store \<Rightarrow> finalized_pegout \<Rightarrow> ('t db, 'e db_error, unit) eff" where
  "store_finalized_pegout_id S p =
     insert_row S FinalizedPegoutIds (c_finalized S) (pegout_id_as_bytes (fp_id p)) p"

definition store_finalized_pegout_ids_atomically ::
    "('t, 'b, 'e, 'kp, 'pp) store \<Rightarrow> finalized_pegout list \<Rightarrow> ('t db, 'e db_error, unit) eff" where
  "store_finalized_pegout_ids_atomically S ps =
     transaction_eff (for_each (\<lambda>p.
       insert_new_row S FinalizedPegoutIds (c_finalized S) (pegout_id_as_bytes (fp_id p)) p) ps)"

definition store_finalized_pegout_ids ::
    "('t, 'b, 'e, 'kp, 'pp) store \<Rightarrow> finalized_pegout list \<Rightarrow> ('t db, 'e db_error, unit) eff" where
  "store_finalized_pegout_ids S ps = (case ps of
     [] \<Rightarrow> return_eff () | [p] \<Rightarrow> store_finalized_pegout_id S p
   | _ \<Rightarrow> store_finalized_pegout_ids_atomically S ps)"

definition reset_finalized_pegout_ids ::
    "('t, 'b, 'e, 'kp, 'pp) store \<Rightarrow> finalized_pegout list \<Rightarrow> ('t db, 'e db_error, unit) eff" where
  "reset_finalized_pegout_ids S ps =
     bind_eff (clear_finalized_pegout_ids S) (\<lambda>_. store_finalized_pegout_ids S ps)"

text \<open>The clock reads the seconds since the epoch, or fails when it is set before it.\<close>

definition prune_row ::
    "('t, 'b, 'e, 'kp, 'pp) store \<Rightarrow> u64 \<Rightarrow> u64 \<Rightarrow> finalized_pegout \<Rightarrow> ('t db, 'e db_error, unit) eff" where
  "prune_row S now cutoff p = (case fp_timestamp p of
     Some timestamp \<Rightarrow>
       if timestamp < cutoff then tree_remove S FinalizedPegoutIds (pegout_id_as_bytes (fp_id p))
       else return_eff ()
   | None \<Rightarrow>
       insert_row S FinalizedPegoutIds (c_finalized S) (pegout_id_as_bytes (fp_id p))
         (p\<lparr>fp_timestamp := Some now\<rparr>))"

definition prune_finalized_pegout_ids ::
    "('t, 'b, 'e, 'kp, 'pp) store \<Rightarrow> u64 option \<Rightarrow> ('t db, 'e db_error, unit) eff" where
  "prune_finalized_pegout_ids S clock =
     bind_eff (lift_result (ok_or DurationSinceEpoch clock)) (\<lambda>now.
     bind_eff (get_finalized_pegout_ids S) (\<lambda>ps.
     transaction_eff (for_each (prune_row S now (saturating_sub now RETENTION_WINDOW_SECONDS)) ps)))"

definition update_finalized_pegout_ids_merkle_root ::
    "('t, 'b, 'e, 'kp, 'pp) store \<Rightarrow> ('t db, 'e db_error, unit) eff" where
  "update_finalized_pegout_ids_merkle_root S =
     bind_eff (\<lambda>db. (collect_results (iter_finalized_pegout_ids S db), db)) (\<lambda>ps.
       store_merkle_root S KEY_FINALIZED_PEGOUT_IDS_MERKLE_ROOT
         (map (\<lambda>p. sha256 S (consensus_u32 S (pg_idx (fp_id p)) @ consensus_bytes S (pg_txid (fp_id p)) @
                             consensus_u64 S (fp_block_number p))) ps))"

definition get_finalized_pegout_ids_merkle_root ::
    "('t, 'b, 'e, 'kp, 'pp) store \<Rightarrow> ('t db, 'e db_error, u8 list option) eff" where
  "get_finalized_pegout_ids_merkle_root S = get_merkle_root S KEY_FINALIZED_PEGOUT_IDS_MERKLE_ROOT"

section \<open>The engine's contract\<close>

definition sat :: "('a \<Rightarrow> bool) \<Rightarrow> ('e, 'a) result \<Rightarrow> bool" where
  "sat P r = (case r of Ok x \<Rightarrow> P x | Err _ \<Rightarrow> True | Panic \<Rightarrow> False)"

definition sled_ok ::
    "('t, 'b, 'e, 'kp, 'pp) store \<Rightarrow> ('t \<Rightarrow> u8 list \<Rightarrow> 'b option) \<Rightarrow> bool" where
  "sled_ok S content \<longleftrightarrow>
     (\<forall>t k. sat (\<lambda>b. b = content t k) (sl_get S t k)) \<and>
     (\<forall>t k. sat (\<lambda>b. b = (content t k \<noteq> None)) (sl_contains_key S t k)) \<and>
     (\<forall>t k v. sat (\<lambda>t'. content t' = (content t)(k \<mapsto> v)) (sl_insert S t k v)) \<and>
     (\<forall>t k. sat (\<lambda>t'. content t' = (content t)(k := None)) (sl_remove S t k)) \<and>
     (\<forall>t. sat (\<lambda>t'. content t' = Map.empty) (sl_clear S t)) \<and>
     (\<forall>t. sat (\<lambda>_. True) (sl_flush S t)) \<and>
     (\<forall>t. \<exists>kvs. sorted_wrt (<) (map fst kvs) \<and> map_of kvs = content t \<and>
        list_all2 (\<lambda>r kv. sat (\<lambda>x. x = kv) r) (sl_iter S t) kvs)"

text \<open>An encoded value decodes to itself; the outpoint of a \<open>Utxo\<close> is skipped by its encoder and
  decodes to the default.\<close>

definition codec_ok :: "('v, 'b) codec \<Rightarrow> bool" where
  "codec_ok c \<longleftrightarrow> (\<forall>v b. ser c v = Some b \<longrightarrow> de c b = Some v)"

definition skip_outpoint :: "utxo \<Rightarrow> utxo" where
  "skip_outpoint u = u\<lparr>ut_outpoint := \<lparr>op_txid = 0, op_vout = - 1\<rparr>\<rparr>"

text \<open>Only a \<open>SystemTime\<close> before the epoch has no encoding, so every row but a tracked transaction
  has one.\<close>

definition codecs_ok :: "('t, 'b, 'e, 'kp, 'pp) store \<Rightarrow> bool" where
  "codecs_ok S \<longleftrightarrow> codec_ok (c_tx S) \<and> codec_ok (c_request S) \<and> codec_ok (c_finalized S) \<and>
     codec_ok (c_key S) \<and> codec_ok (c_pubkey S) \<and>
     (\<forall>u. ser (c_utxo S) u \<noteq> None) \<and> (\<forall>r. ser (c_request S) r \<noteq> None) \<and> (\<forall>p. ser (c_finalized S) p \<noteq> None) \<and>
     (\<forall>k. ser (c_key S) k \<noteq> None) \<and> (\<forall>p. ser (c_pubkey S) p \<noteq> None) \<and>
     (\<forall>u b. ser (c_utxo S) u = Some b \<longrightarrow> de (c_utxo S) b = Some (skip_outpoint u)) \<and>
     (\<forall>op. de_out_point S (out_point_to_bytes op) = Some op) \<and>
     (\<forall>h. de_block_hash S (txid_bytes h) = Some h) \<and>
     (\<forall>bs. unraw S (raw S bs) = bs) \<and>
     (\<forall>hs r. calculate_root S hs = Some r \<longrightarrow> length r = 32)"

end
