(* ===== verification/BtcDbTables.thy ===== *)
theory BtcDbTables
  imports BtcDb
begin

text \<open>
  The database as tables of decoded rows: the contract of a table, what the operations of \<open>BtcDb\<close> do
  to the four tables, and their properties.
\<close>

section \<open>Calls to the engine\<close>

definition changes_only :: "tree_id \<Rightarrow> 't db \<Rightarrow> 't db \<Rightarrow> bool" where
  "changes_only T db db' \<longleftrightarrow> (\<forall>T'. T' \<noteq> T \<longrightarrow> db' T' = db T')"

lemma changes_only_refl [simp]: "changes_only T db db"
  by (simp add: changes_only_def)

lemma changes_only_trans: "changes_only T a b \<Longrightarrow> changes_only T b c \<Longrightarrow> changes_only T a c"
  by (simp add: changes_only_def)

lemma changes_only_other: "changes_only T a b \<Longrightarrow> T' \<noteq> T \<Longrightarrow> b T' = a T'"
  by (simp add: changes_only_def)

lemma sled_okD:
  assumes "sled_ok S content"
  shows "sat (\<lambda>b. b = content t k) (sl_get S t k)"
    and "sat (\<lambda>b. b = (content t k \<noteq> None)) (sl_contains_key S t k)"
    and "sat (\<lambda>t'. content t' = (content t)(k \<mapsto> v)) (sl_insert S t k v)"
    and "sat (\<lambda>t'. content t' = (content t)(k := None)) (sl_remove S t k)"
    and "sat (\<lambda>t'. content t' = Map.empty) (sl_clear S t)"
    and "sat (\<lambda>_. True) (sl_flush S t)"
    and "\<exists>kvs. sorted_wrt (<) (map fst kvs) \<and> map_of kvs = content t \<and>
        list_all2 (\<lambda>r kv. sat (\<lambda>x. x = kv) r) (sl_iter S t) kvs"
  using assms unfolding sled_ok_def by blast+

lemma wp_tree_get:
  assumes "sled_ok S content" and "Q (content (db T) k) db" and "E db"
  shows "wp (tree_get S T k) Q E db"
  using sled_okD(1) [OF assms(1), of "db T" k] assms(2,3)
  by (cases "sl_get S (db T) k") (simp_all add: wp_def tree_get_def sat_def)

lemma wp_tree_contains_key:
  assumes "sled_ok S content" and "Q (content (db T) k \<noteq> None) db" and "E db"
  shows "wp (tree_contains_key S T k) Q E db"
  using sled_okD(2) [OF assms(1), of "db T" k] assms(2,3)
  by (cases "sl_contains_key S (db T) k") (simp_all add: wp_def tree_contains_key_def sat_def)

lemma wp_write_tree:
  assumes "sat (\<lambda>t'. content t' = c) (f (db T))"
    and "\<And>db'. content (db' T) = c \<Longrightarrow> changes_only T db db' \<Longrightarrow> Q () db'" and "E db"
  shows "wp (write_tree T f) Q E db"
proof (cases "f (db T)")
  case (Ok t)
  with assms(1) have "content t = c" by (simp add: sat_def)
  then have "Q () (db(T := t))" by (intro assms(2)) (simp_all add: changes_only_def)
  with Ok show ?thesis by (simp add: wp_def write_tree_def)
qed (use assms in \<open>auto simp: wp_def write_tree_def sat_def\<close>)

lemma wp_tree_insert:
  assumes "sled_ok S content"
    and "\<And>db'. content (db' T) = (content (db T))(k \<mapsto> v) \<Longrightarrow> changes_only T db db' \<Longrightarrow> Q () db'" and "E db"
  shows "wp (tree_insert S T k v) Q E db"
  unfolding tree_insert_def
  by (rule wp_write_tree [OF sled_okD(3) [OF assms(1)]]) (fact assms)+

lemma wp_tree_remove:
  assumes "sled_ok S content"
    and "\<And>db'. content (db' T) = (content (db T))(k := None) \<Longrightarrow> changes_only T db db' \<Longrightarrow> Q () db'" and "E db"
  shows "wp (tree_remove S T k) Q E db"
  unfolding tree_remove_def
  by (rule wp_write_tree [OF sled_okD(4) [OF assms(1)]]) (fact assms)+

lemma wp_tree_clear:
  assumes "sled_ok S content"
    and "\<And>db'. content (db' T) = Map.empty \<Longrightarrow> changes_only T db db' \<Longrightarrow> Q () db'" and "E db"
  shows "wp (tree_clear S T) Q E db"
  unfolding tree_clear_def
  by (rule wp_write_tree [OF sled_okD(5) [OF assms(1)]]) (fact assms)+

lemma wp_transaction: "wp m Q (\<lambda>_. E db) db \<Longrightarrow> wp (transaction_eff m) Q E db"
  by (auto simp: wp_def transaction_eff_def split: prod.splits result.splits)

lemma wp_flush: "sled_ok S content \<Longrightarrow> Q () db \<Longrightarrow> E db \<Longrightarrow> wp (db_flush S) Q E db"
  unfolding db_flush_def
proof (rule wp_for_each_inv [where I = "\<lambda>s. s = db"])
  fix T s
  assume "sled_ok S content" "E db" "s = db"
  moreover have "sat (\<lambda>_. True) (sl_flush S (db T))"
    using \<open>sled_ok S content\<close> by (rule sled_okD)
  ultimately show "wp (\<lambda>db. (map_err Db (sl_flush S (db T)), db)) (\<lambda>_ s. s = db) E s"
    by (cases "sl_flush S (db T)") (auto simp: wp_def sat_def)
qed auto

text \<open>The rows that a loop over a tree reads, when it is not cut short by an error.\<close>

lemma fold_rows:
  assumes "list_all2 (\<lambda>r kv. sat (\<lambda>x. x = kv) r) rs kvs" and "list_all2 (\<lambda>kv y. f (fst kv) (snd kv) = Ok y) kvs ys"
  shows "sat (\<lambda>r. r = acc @ ys) (fold_result (\<lambda>ret res. bind_result (bind_result (map_err Db res) (\<lambda>(k, v). f k v))
      (\<lambda>y. Ok (ret @ [y]))) acc rs)"
  using assms
proof (induction rs kvs arbitrary: acc ys rule: list_all2_induct)
  case Nil
  then show ?case by (simp add: sat_def)
next
  case (Cons r rs kv kvs)
  from Cons.prems obtain y zs where ys: "ys = y # zs" "f (fst kv) (snd kv) = Ok y"
    "list_all2 (\<lambda>kv y. f (fst kv) (snd kv) = Ok y) kvs zs"
    by (auto simp: list_all2_Cons1)
  show ?case
    using Cons.hyps Cons.IH [OF ys(3), of "acc @ [y]"] ys(1,2)
    by (cases r) (auto simp: sat_def split: prod.splits)
qed

section \<open>Tables of rows\<close>

definition row_at :: "('t \<Rightarrow> u8 list \<Rightarrow> 'b option) \<Rightarrow> tree_id \<Rightarrow> (u8 list \<Rightarrow> 'b \<Rightarrow> 'v option) \<Rightarrow>
    't db \<Rightarrow> u8 list \<Rightarrow> 'v option" where
  "row_at content T dec db k = Option.bind (content (db T) k) (dec k)"

text \<open>\<open>dec\<close> decodes a row from its key and value, \<open>rd\<close> is the same in the body of a loop, and \<open>fits\<close>
  tells the values that can be encoded.\<close>

definition row_codec :: "('v, 'b) codec \<Rightarrow> (u8 list \<Rightarrow> 'b \<Rightarrow> 'v option) \<Rightarrow>
    (u8 list \<Rightarrow> 'b \<Rightarrow> ('e, 'v) result) \<Rightarrow> ('v \<Rightarrow> u8 list) \<Rightarrow> ('v \<Rightarrow> bool) \<Rightarrow> bool" where
  "row_codec c dec rd key fits \<longleftrightarrow>
     (\<forall>v b. ser c v = Some b \<longrightarrow> dec (key v) b = Some v) \<and> (\<forall>v. fits v \<longrightarrow> ser c v \<noteq> None) \<and>
     (\<forall>k b v. dec k b = Some v \<longrightarrow> rd k b = Ok v)"

definition table_ok :: "('t, 'b, 'e, 'kp, 'pp) store \<Rightarrow> ('t \<Rightarrow> u8 list \<Rightarrow> 'b option) \<Rightarrow> tree_id \<Rightarrow>
    ('v, 'b) codec \<Rightarrow> (u8 list \<Rightarrow> 'b \<Rightarrow> 'v option) \<Rightarrow> (u8 list \<Rightarrow> 'b \<Rightarrow> ('e db_error, 'v) result) \<Rightarrow>
    ('v \<Rightarrow> u8 list) \<Rightarrow> ('v \<Rightarrow> bool) \<Rightarrow> 't db \<Rightarrow> bool" where
  "table_ok S content T c dec rd key fits db \<longleftrightarrow> sled_ok S content \<and> row_codec c dec rd key fits \<and>
     (\<forall>k b. content (db T) k = Some b \<longrightarrow> (\<exists>v. dec k b = Some v \<and> key v = k))"

locale row_table =
  fixes ok :: "'db \<Rightarrow> bool" and at :: "'db \<Rightarrow> 'k::linorder \<Rightarrow> 'v option" and key :: "'v \<Rightarrow> 'k"
    and fits :: "'v \<Rightarrow> bool" and same :: "'db \<Rightarrow> 'db \<Rightarrow> bool"
    and put put_new :: "'v \<Rightarrow> ('db, 'e, unit) eff" and remove :: "'k \<Rightarrow> ('db, 'e, unit) eff"
    and clear :: "('db, 'e, unit) eff" and rows :: "('db, 'e, 'v list) eff"
  assumes keyed: "ok s \<Longrightarrow> at s k = Some v \<Longrightarrow> key v = k"
    and same_refl: "same s s" and same_trans: "same a b \<Longrightarrow> same b d \<Longrightarrow> same a d"
    and put: "ok s \<Longrightarrow> wp (put v) (\<lambda>_ s'. ok s' \<and> at s' = (at s)(key v \<mapsto> v) \<and> same s s') (\<lambda>s'. s' = s) s"
    and put_new: "ok s \<Longrightarrow> fits v \<Longrightarrow> wp (put_new v)
      (\<lambda>_ s'. ok s' \<and> at s' = (at s)(key v := (case at s (key v) of None \<Rightarrow> Some v | Some w \<Rightarrow> Some w)) \<and> same s s')
      (\<lambda>s'. s' = s) s"
    and remove: "ok s \<Longrightarrow> wp (remove k) (\<lambda>_ s'. ok s' \<and> at s' = (at s)(k := None) \<and> same s s') (\<lambda>s'. s' = s) s"
    and clear: "ok s \<Longrightarrow> wp clear (\<lambda>_ s'. ok s' \<and> at s' = Map.empty \<and> same s s') (\<lambda>s'. s' = s) s"
    and rows: "ok s \<Longrightarrow> wp rows (\<lambda>vs s'. s' = s \<and> sorted_wrt (<) (map key vs) \<and> set vs = ran (at s))
      (\<lambda>s'. s' = s) s"
begin

text \<open>The first of several new rows with the same key wins, and an existing row wins over all.\<close>

lemma put_new_list:
  assumes "ok s" and "list_all fits vs"
  shows "wp (for_each put_new vs)
    (\<lambda>_ s'. ok s' \<and> at s' = map_of (map (\<lambda>v. (key v, v)) vs) ++ at s \<and> same s s')
    (\<lambda>s'. ok s' \<and> same s s') s"
proof (rule wp_for_each_prefix [where I = "\<lambda>ys s'. ok s' \<and> at s' = map_of (map (\<lambda>v. (key v, v)) ys) ++ at s \<and> same s s'"])
  fix ys x zs s'
  assume vs: "vs = ys @ x # zs" and I: "ok s' \<and> at s' = map_of (map (\<lambda>v. (key v, v)) ys) ++ at s \<and> same s s'"
  have "fits x" using assms(2) vs by simp
  have "map_of (map (\<lambda>v. (key v, v)) (ys @ [x])) ++ at s =
      (at s')(key x := (case at s' (key x) of None \<Rightarrow> Some x | Some w \<Rightarrow> Some w))"
    using I by (auto simp: fun_eq_iff map_add_def map_of_append split: option.splits)
  with put_new [of s' x] I \<open>fits x\<close>
  show "wp (put_new x) (\<lambda>_ s'. ok s' \<and> at s' = map_of (map (\<lambda>v. (key v, v)) (ys @ [x])) ++ at s \<and> same s s')
      (\<lambda>s'. ok s' \<and> same s s') s'"
    by (auto elim!: wp_mono intro: same_trans)
qed (use assms same_refl in auto)

lemma remove_list:
  assumes "ok s"
  shows "wp (for_each remove ks) (\<lambda>_ s'. ok s' \<and> at s' = (at s) |` (- set ks) \<and> same s s')
    (\<lambda>s'. ok s' \<and> same s s') s"
proof (rule wp_for_each_prefix [where I = "\<lambda>ys s'. ok s' \<and> at s' = (at s) |` (- set ys) \<and> same s s'"])
  fix ys x zs s'
  assume I: "ok s' \<and> at s' = (at s) |` (- set ys) \<and> same s s'"
  have "(at s) |` (- set (ys @ [x])) = (at s')(x := None)"
    using I by (auto simp: fun_eq_iff restrict_map_def)
  with remove [of s' x] I
  show "wp (remove x) (\<lambda>_ s'. ok s' \<and> at s' = (at s) |` (- set (ys @ [x])) \<and> same s s')
      (\<lambda>s'. ok s' \<and> same s s') s'"
    by (auto elim!: wp_mono intro: same_trans)
qed (use assms same_refl in \<open>auto simp: restrict_map_def\<close>)

text \<open>The rows read depend only on the table: two databases with the same table read the same list.\<close>

lemma rows_determined:
  assumes "ok a" and "ok b" and "at a = at b" and "rows a = (Ok vs, a')" and "rows b = (Ok ws, b')"
  shows "vs = ws"
proof -
  from wp_Ok [OF rows [OF assms(1)] assms(4)] wp_Ok [OF rows [OF assms(2)] assms(5)] assms(3)
  have s: "sorted_wrt (<) (map key vs)" "sorted_wrt (<) (map key ws)" "set vs = set ws" 
    and r: "set vs = ran (at a)" by auto
  then have "map key vs = map key ws"
    by (intro sorted_distinct_set_unique) (auto simp: strict_sorted_iff)
  moreover have "inj_on key (set vs \<union> set ws)"
    using s(1,3) by (simp add: strict_sorted_iff distinct_map)
  ultimately show ?thesis by (rule map_inj_on)
qed

end

text \<open>The row operations keep that contract for every tree and every faithful codec.\<close>

lemma row_at_write:
  assumes "table_ok S content T c dec rd key fits db" and "ser c v = Some b"
    and "content (db' T) = (content (db T))(key v \<mapsto> b)"
  shows "table_ok S content T c dec rd key fits db'"
    and "row_at content T dec db' = (row_at content T dec db)(key v \<mapsto> v)"
proof -
  have d: "dec (key v) b = Some v" using assms by (simp add: table_ok_def row_codec_def)
  show "table_ok S content T c dec rd key fits db'"
    using assms(1) d by (auto simp: table_ok_def assms(3))
  show "row_at content T dec db' = (row_at content T dec db)(key v \<mapsto> v)"
    using d by (auto simp: fun_eq_iff row_at_def assms(3))
qed

lemma row_at_None:
  assumes "table_ok S content T c dec rd key fits db"
  shows "row_at content T dec db k = None \<longleftrightarrow> content (db T) k = None"
  using assms by (cases "content (db T) k") (auto simp: row_at_def table_ok_def)

lemma wp_insert_row:
  assumes "table_ok S content T c dec rd key fits db"
  shows "wp (insert_row S T c (key v) v) (\<lambda>_ db'. table_ok S content T c dec rd key fits db' \<and>
      row_at content T dec db' = (row_at content T dec db)(key v \<mapsto> v) \<and> changes_only T db db')
    (\<lambda>db'. db' = db) db"
proof (cases "ser c v")
  case (Some b)
  have "sled_ok S content" using assms by (simp add: table_ok_def)
  then have "wp (tree_insert S T (key v) b) (\<lambda>_ db'. table_ok S content T c dec rd key fits db' \<and>
      row_at content T dec db' = (row_at content T dec db)(key v \<mapsto> v) \<and> changes_only T db db')
    (\<lambda>db'. db' = db) db"
    by (rule wp_tree_insert) (use row_at_write [OF assms Some] in auto)
  then show ?thesis by (simp add: insert_row_def wp_simps Some)
qed (simp add: insert_row_def wp_simps)

lemma wp_insert_new_row:
  assumes "table_ok S content T c dec rd key fits db" and "fits v"
  shows "wp (insert_new_row S T c (key v) v) (\<lambda>_ db'. table_ok S content T c dec rd key fits db' \<and>
      row_at content T dec db' = (row_at content T dec db)(key v :=
        (case row_at content T dec db (key v) of None \<Rightarrow> Some v | Some w \<Rightarrow> Some w)) \<and> changes_only T db db')
    (\<lambda>db'. db' = db) db"
proof -
  have ok: "sled_ok S content" using assms by (simp add: table_ok_def)
  obtain b where b: "ser c v = Some b" using assms by (auto simp: table_ok_def row_codec_def)
  show ?thesis
    unfolding insert_new_row_def wp_bind
  proof (rule wp_tree_get [OF ok])
    show "wp (if content (db T) (key v) = None
        then bind_eff (lift_result (expect (ser c v))) (tree_insert S T (key v)) else return_eff ())
      (\<lambda>_ db'. table_ok S content T c dec rd key fits db' \<and>
        row_at content T dec db' = (row_at content T dec db)(key v :=
          (case row_at content T dec db (key v) of None \<Rightarrow> Some v | Some w \<Rightarrow> Some w)) \<and> changes_only T db db')
      (\<lambda>db'. db' = db) db"
    proof (cases "row_at content T dec db (key v)")
      case None
      then have "content (db T) (key v) = None" by (simp add: row_at_None [OF assms(1)])
      with None show ?thesis
        by (auto simp: wp_simps b intro!: wp_tree_insert [OF ok] row_at_write [OF assms(1) b])
    next
      case (Some w)
      then have "content (db T) (key v) \<noteq> None" by (auto simp: row_at_def bind_eq_Some_conv)
      with Some assms(1) show ?thesis by (auto simp: wp_simps fun_upd_idem)
    qed
  qed simp
qed

lemma wp_remove_row:
  assumes "table_ok S content T c dec rd key fits db"
  shows "wp (tree_remove S T k) (\<lambda>_ db'. table_ok S content T c dec rd key fits db' \<and>
      row_at content T dec db' = (row_at content T dec db)(k := None) \<and> changes_only T db db')
    (\<lambda>db'. db' = db) db"
  using assms unfolding table_ok_def
  by (intro wp_tree_remove [of S content]) (auto simp: row_at_def fun_eq_iff)

lemma wp_clear_rows:
  assumes "table_ok S content T c dec rd key fits db"
  shows "wp (tree_clear S T) (\<lambda>_ db'. table_ok S content T c dec rd key fits db' \<and>
      row_at content T dec db' = Map.empty \<and> changes_only T db db')
    (\<lambda>db'. db' = db) db"
  using assms unfolding table_ok_def
  by (intro wp_tree_clear [of S content]) (auto simp: row_at_def fun_eq_iff)

lemma wp_collect_rows:
  assumes "table_ok S content T c dec rd key fits db"
  shows "wp (collect_rows S T rd) (\<lambda>vs db'. db' = db \<and> sorted_wrt (<) (map key vs) \<and>
      set vs = ran (row_at content T dec db)) (\<lambda>db'. db' = db) db"
proof -
  from assms have ok: "sled_ok S content" and cd: "row_codec c dec rd key fits"
    and rows: "\<And>k b. content (db T) k = Some b \<Longrightarrow> \<exists>v. dec k b = Some v \<and> key v = k"
    by (auto simp: table_ok_def)
  from sled_okD(7) [OF ok, of "db T"] obtain kvs where kvs: "sorted_wrt (<) (map fst kvs)"
    "map_of kvs = content (db T)" "list_all2 (\<lambda>r kv. sat (\<lambda>x. x = kv) r) (sl_iter S (db T)) kvs"
    by blast
  have d: "distinct (map fst kvs)" using kvs(1) by (simp add: strict_sorted_iff)
  define vs where "vs = map (\<lambda>(k, b). the (dec k b)) kvs"
  have mem: "\<exists>v. dec k b = Some v \<and> key v = k" if "(k, b) \<in> set kvs" for k b
    using that d kvs(2) by (intro rows) (simp add: map_of_eq_Some_iff [symmetric])
  have val: "dec k b = Some (the (dec k b))" "key (the (dec k b)) = k" if "(k, b) \<in> set kvs" for k b
    using mem [OF that] by auto
  have "rd k b = Ok (the (dec k b))" if "(k, b) \<in> set kvs" for k b
    using val(1) [OF that] cd unfolding row_codec_def by blast
  then have rd: "list_all2 (\<lambda>kv y. rd (fst kv) (snd kv) = Ok y) kvs vs"
    by (auto simp: vs_def list_all2_map2 list_all2_same)
  have keys: "map key vs = map fst kvs"
    using val(2) by (auto simp: vs_def)
  have "set vs = ran (row_at content T dec db)"
  proof (rule set_eqI)
    fix v
    have "v \<in> ran (row_at content T dec db) \<longleftrightarrow> (\<exists>k b. (k, b) \<in> set kvs \<and> dec k b = Some v)"
      using d by (simp add: ran_def row_at_def bind_eq_Some_conv kvs(2) [symmetric])
    also have "\<dots> \<longleftrightarrow> (\<exists>k b. (k, b) \<in> set kvs \<and> v = the (dec k b))"
      using val(1) by (metis option.inject)
    also have "\<dots> \<longleftrightarrow> v \<in> set vs" by (force simp: vs_def image_iff)
    finally show "v \<in> set vs \<longleftrightarrow> v \<in> ran (row_at content T dec db)" ..
  qed
  with fold_rows [OF kvs(3) rd, of "[]"] keys kvs(1) show ?thesis
    unfolding wp_def collect_rows_def
    by (auto simp: sat_def split: result.splits)
qed

lemma row_table_rows: "row_table (table_ok S content T c dec rd key fits) (row_at content T dec) key fits
    (changes_only T) (\<lambda>v. insert_row S T c (key v) v) (\<lambda>v. insert_new_row S T c (key v) v)
    (tree_remove S T) (tree_clear S T) (collect_rows S T rd)"
proof
  fix s k v
  assume "table_ok S content T c dec rd key fits s" "row_at content T dec s k = Some v"
  then show "key v = k" by (fastforce simp: table_ok_def row_at_def bind_eq_Some_conv)
qed (simp, erule (1) changes_only_trans, erule wp_insert_row, erule (1) wp_insert_new_row,
    erule wp_remove_row, erule wp_clear_rows, erule wp_collect_rows)

section \<open>The four tables\<close>

definition utxo_row :: "('t, 'b, 'e, 'kp, 'pp) store \<Rightarrow> u8 list \<Rightarrow> 'b \<Rightarrow> utxo option" where
  "utxo_row S k b = Option.bind (de_out_point S k) (\<lambda>op. map_option (\<lambda>u. u\<lparr>ut_outpoint := op\<rparr>) (de (c_utxo S) b))"

definition utxo_read :: "('t, 'b, 'e, 'kp, 'pp) store \<Rightarrow> u8 list \<Rightarrow> 'b \<Rightarrow> ('e db_error, utxo) result" where
  "utxo_read S k v = bind_result (expect (de_out_point S k)) (\<lambda>op.
     bind_result (expect (de (c_utxo S) v)) (\<lambda>u. Ok (u\<lparr>ut_outpoint := op\<rparr>)))"

abbreviation utxo_key :: "utxo \<Rightarrow> u8 list" where
  "utxo_key u \<equiv> out_point_to_bytes (ut_outpoint u)"

abbreviation tracked_key :: "tracked_tx \<Rightarrow> u8 list" where
  "tracked_key tx \<equiv> txid_bytes (tr_txid tx)"

abbreviation request_key :: "pegout_request \<Rightarrow> u8 list" where
  "request_key r \<equiv> pegout_id_as_bytes (pr_id r)"

abbreviation finalized_key :: "finalized_pegout \<Rightarrow> u8 list" where
  "finalized_key p \<equiv> pegout_id_as_bytes (fp_id p)"

definition encodable :: "('t, 'b, 'e, 'kp, 'pp) store \<Rightarrow> tracked_tx \<Rightarrow> bool" where
  "encodable S tx \<longleftrightarrow> ser (c_tx S) tx \<noteq> None"

definition utxos_ok where
  "utxos_ok S content = table_ok S content Utxos (c_utxo S) (utxo_row S) (utxo_read S) utxo_key (\<lambda>_. True)"

definition tracked_txs_ok where
  "tracked_txs_ok S content = table_ok S content TrackedTxs (c_tx S) (\<lambda>_. de (c_tx S))
     (\<lambda>_ v. expect (de (c_tx S) v)) tracked_key (encodable S)"

definition pending_ok where
  "pending_ok S content = table_ok S content PendingPegouts (c_request S) (\<lambda>_. de (c_request S))
     (\<lambda>_ v. expect (de (c_request S) v)) request_key (\<lambda>_. True)"

definition finalized_ok where
  "finalized_ok S content = table_ok S content FinalizedPegoutIds (c_finalized S) (\<lambda>_. de (c_finalized S))
     (\<lambda>_ v. expect (de (c_finalized S) v)) finalized_key (\<lambda>_. True)"

text \<open>The rows of a table by the key of the source.\<close>

definition utxo_at :: "('t, 'b, 'e, 'kp, 'pp) store \<Rightarrow> ('t \<Rightarrow> u8 list \<Rightarrow> 'b option) \<Rightarrow> 't db \<Rightarrow> u8 list \<Rightarrow> utxo option" where
  "utxo_at S content = row_at content Utxos (utxo_row S)"

definition tracked_at :: "('t, 'b, 'e, 'kp, 'pp) store \<Rightarrow> ('t \<Rightarrow> u8 list \<Rightarrow> 'b option) \<Rightarrow> 't db \<Rightarrow> u8 list \<Rightarrow> tracked_tx option" where
  "tracked_at S content = row_at content TrackedTxs (\<lambda>_. de (c_tx S))"

definition pending_at :: "('t, 'b, 'e, 'kp, 'pp) store \<Rightarrow> ('t \<Rightarrow> u8 list \<Rightarrow> 'b option) \<Rightarrow> 't db \<Rightarrow> u8 list \<Rightarrow> pegout_request option" where
  "pending_at S content = row_at content PendingPegouts (\<lambda>_. de (c_request S))"

definition finalized_at :: "('t, 'b, 'e, 'kp, 'pp) store \<Rightarrow> ('t \<Rightarrow> u8 list \<Rightarrow> 'b option) \<Rightarrow> 't db \<Rightarrow> u8 list \<Rightarrow> finalized_pegout option" where
  "finalized_at S content = row_at content FinalizedPegoutIds (\<lambda>_. de (c_finalized S))"

interpretation utxos: row_table "utxos_ok S content" "utxo_at S content" utxo_key "\<lambda>_. True"
    "changes_only Utxos" "\<lambda>u. insert_row S Utxos (c_utxo S) (utxo_key u) u"
    "\<lambda>u. insert_new_row S Utxos (c_utxo S) (utxo_key u) u" "tree_remove S Utxos" "tree_clear S Utxos"
    "collect_rows S Utxos (utxo_read S)" for S content
  unfolding utxos_ok_def utxo_at_def by (rule row_table_rows)

interpretation tracked: row_table "tracked_txs_ok S content" "tracked_at S content" tracked_key "encodable S"
    "changes_only TrackedTxs" "\<lambda>tx. insert_row S TrackedTxs (c_tx S) (tracked_key tx) tx"
    "\<lambda>tx. insert_new_row S TrackedTxs (c_tx S) (tracked_key tx) tx" "tree_remove S TrackedTxs"
    "tree_clear S TrackedTxs" "get_tracked_txs S" for S content
  unfolding tracked_txs_ok_def tracked_at_def get_tracked_txs_def by (rule row_table_rows)

interpretation pending: row_table "pending_ok S content" "pending_at S content" request_key "\<lambda>_. True"
    "changes_only PendingPegouts" "\<lambda>r. insert_row S PendingPegouts (c_request S) (request_key r) r"
    "\<lambda>r. insert_new_row S PendingPegouts (c_request S) (request_key r) r" "tree_remove S PendingPegouts"
    "tree_clear S PendingPegouts" "get_pending_pegouts S" for S content
  unfolding pending_ok_def pending_at_def get_pending_pegouts_def by (rule row_table_rows)

interpretation finalized: row_table "finalized_ok S content" "finalized_at S content" finalized_key "\<lambda>_. True"
    "changes_only FinalizedPegoutIds" "\<lambda>p. insert_row S FinalizedPegoutIds (c_finalized S) (finalized_key p) p"
    "\<lambda>p. insert_new_row S FinalizedPegoutIds (c_finalized S) (finalized_key p) p" "tree_remove S FinalizedPegoutIds"
    "tree_clear S FinalizedPegoutIds" "get_finalized_pegout_ids S" for S content
  unfolding finalized_ok_def finalized_at_def get_finalized_pegout_ids_def by (rule row_table_rows)

lemma get_all_utxos_rows: "get_all_utxos S = collect_rows S Utxos (utxo_read S)"
  by (simp add: get_all_utxos_def utxo_read_def [abs_def])

text \<open>A table is not touched by what changes another tree.\<close>

lemma table_ok_other: "table_ok S content T c dec rd key fits db \<Longrightarrow> db' T = db T \<Longrightarrow> table_ok S content T c dec rd key fits db'"
  by (simp add: table_ok_def)

lemma row_at_other: "db' T = db T \<Longrightarrow> row_at content T dec db' = row_at content T dec db"
  by (simp add: row_at_def fun_eq_iff)

lemmas tables_ok_def = utxos_ok_def tracked_txs_ok_def pending_ok_def finalized_ok_def
lemmas tables_at_def = utxo_at_def tracked_at_def pending_at_def finalized_at_def

text \<open>The stored Merkle roots have 32 bytes and the stored block hash decodes.\<close>

definition roots_ok :: "('t, 'b, 'e, 'kp, 'pp) store \<Rightarrow> ('t \<Rightarrow> u8 list \<Rightarrow> 'b option) \<Rightarrow> 't db \<Rightarrow> bool" where
  "roots_ok S content db \<longleftrightarrow>
     (\<forall>k b. k \<in> {KEY_UTXO_MERKLE_ROOT, KEY_TRACKED_TX_MERKLE_ROOT, KEY_PENDING_PEGOUTS_MERKLE_ROOT,
          KEY_FINALIZED_PEGOUT_IDS_MERKLE_ROOT} \<longrightarrow> content (db DefaultTree) k = Some b \<longrightarrow> length (unraw S b) = 32) \<and>
     (\<forall>b. content (db DefaultTree) KEY_PEGOUTMGR_TIP = Some b \<longrightarrow> de_block_hash S (unraw S b) \<noteq> None)"

definition db_ok :: "('t, 'b, 'e, 'kp, 'pp) store \<Rightarrow> ('t \<Rightarrow> u8 list \<Rightarrow> 'b option) \<Rightarrow> 't db \<Rightarrow> bool" where
  "db_ok S content db \<longleftrightarrow> sled_ok S content \<and> codecs_ok S \<and> utxos_ok S content db \<and>
     tracked_txs_ok S content db \<and> pending_ok S content db \<and> finalized_ok S content db \<and> roots_ok S content db"

lemma db_ok_sled: "db_ok S content db \<Longrightarrow> sled_ok S content"
  and db_ok_codecs: "db_ok S content db \<Longrightarrow> codecs_ok S"
  and db_ok_utxos: "db_ok S content db \<Longrightarrow> utxos_ok S content db"
  and db_ok_tracked: "db_ok S content db \<Longrightarrow> tracked_txs_ok S content db"
  and db_ok_pending: "db_ok S content db \<Longrightarrow> pending_ok S content db"
  and db_ok_finalized: "db_ok S content db \<Longrightarrow> finalized_ok S content db"
  and db_ok_roots: "db_ok S content db \<Longrightarrow> roots_ok S content db"
  by (simp_all add: db_ok_def)

lemma roots_ok_other: "roots_ok S content db \<Longrightarrow> db' DefaultTree = db DefaultTree \<Longrightarrow> roots_ok S content db'"
  by (simp add: roots_ok_def)

lemma tables_ok_other:
  "utxos_ok S content db \<Longrightarrow> db' Utxos = db Utxos \<Longrightarrow> utxos_ok S content db'"
  "tracked_txs_ok S content db \<Longrightarrow> db' TrackedTxs = db TrackedTxs \<Longrightarrow> tracked_txs_ok S content db'"
  "pending_ok S content db \<Longrightarrow> db' PendingPegouts = db PendingPegouts \<Longrightarrow> pending_ok S content db'"
  "finalized_ok S content db \<Longrightarrow> db' FinalizedPegoutIds = db FinalizedPegoutIds \<Longrightarrow> finalized_ok S content db'"
  unfolding tables_ok_def by (rule table_ok_other; assumption)+

lemma db_ok_other:
  assumes "db_ok S content db"
    and "db' Utxos = db Utxos \<or> utxos_ok S content db'"
    and "db' TrackedTxs = db TrackedTxs \<or> tracked_txs_ok S content db'"
    and "db' PendingPegouts = db PendingPegouts \<or> pending_ok S content db'"
    and "db' FinalizedPegoutIds = db FinalizedPegoutIds \<or> finalized_ok S content db'"
    and "db' DefaultTree = db DefaultTree \<or> roots_ok S content db'"
  shows "db_ok S content db'"
  using assms unfolding db_ok_def
  by (blast intro: tables_ok_other roots_ok_other)

lemma db_ok_change:
  assumes "db_ok S content db"
  shows "changes_only Utxos db db' \<Longrightarrow> utxos_ok S content db' \<Longrightarrow> db_ok S content db'"
    and "changes_only TrackedTxs db db' \<Longrightarrow> tracked_txs_ok S content db' \<Longrightarrow> db_ok S content db'"
    and "changes_only PendingPegouts db db' \<Longrightarrow> pending_ok S content db' \<Longrightarrow> db_ok S content db'"
    and "changes_only FinalizedPegoutIds db db' \<Longrightarrow> finalized_ok S content db' \<Longrightarrow> db_ok S content db'"
    and "changes_only DefaultTree db db' \<Longrightarrow> roots_ok S content db' \<Longrightarrow> db_ok S content db'"
    and "changes_only KeyPackages db db' \<Longrightarrow> db_ok S content db'"
    and "changes_only PubkeyPackages db db' \<Longrightarrow> db_ok S content db'"
  by (rule db_ok_other [OF assms]; simp add: changes_only_def)+

end
