(* ===== verification/BtcDbOps.thy ===== *)
theory BtcDbOps
  imports BtcDbTables
begin

text \<open>
  What each operation of the database does to its tables, as weakest preconditions over a database
  that satisfies \<open>db_ok\<close>: the result on success, and what an error in the middle leaves behind.
\<close>

definition changes_in :: "tree_id set \<Rightarrow> 't db \<Rightarrow> 't db \<Rightarrow> bool" where
  "changes_in A db db' \<longleftrightarrow> (\<forall>T. T \<notin> A \<longrightarrow> db' T = db T)"

lemma changes_in_refl [simp]: "changes_in A db db"
  by (simp add: changes_in_def)

lemma changes_in_trans: "changes_in A a b \<Longrightarrow> changes_in A b c \<Longrightarrow> changes_in A a c"
  by (simp add: changes_in_def)

lemma changes_in_mono: "changes_in A a b \<Longrightarrow> A \<subseteq> B \<Longrightarrow> changes_in B a b"
  by (auto simp: changes_in_def)

lemma changes_only_in: "changes_only T db db' \<Longrightarrow> T \<in> A \<Longrightarrow> changes_in A db db'"
  by (auto simp: changes_in_def changes_only_def)

lemma changes_in_at:
  assumes "changes_in A db db'"
  shows "Utxos \<notin> A \<Longrightarrow> utxo_at S content db' = utxo_at S content db"
    and "TrackedTxs \<notin> A \<Longrightarrow> tracked_at S content db' = tracked_at S content db"
    and "PendingPegouts \<notin> A \<Longrightarrow> pending_at S content db' = pending_at S content db"
    and "FinalizedPegoutIds \<notin> A \<Longrightarrow> finalized_at S content db' = finalized_at S content db"
  using assms unfolding tables_at_def changes_in_def by (auto intro!: row_at_other)

lemma default_at:
  assumes "changes_only DefaultTree a b"
  shows "utxo_at S content b = utxo_at S content a" and "tracked_at S content b = tracked_at S content a"
    and "pending_at S content b = pending_at S content a" and "finalized_at S content b = finalized_at S content a"
  using changes_only_in [OF assms, of "{DefaultTree}"] by (auto dest: changes_in_at)

section \<open>Unspent outputs\<close>

lemma utxo_at_content:
  assumes "db_ok S content db"
  shows "utxo_at S content db (out_point_to_bytes op) =
    map_option (\<lambda>u. u\<lparr>ut_outpoint := op\<rparr>) (Option.bind (content (db Utxos) (out_point_to_bytes op)) (de (c_utxo S)))"
  using db_ok_codecs [OF assms]
  by (cases "content (db Utxos) (out_point_to_bytes op)")
    (simp_all add: utxo_at_def row_at_def utxo_row_def codecs_ok_def)

lemma wp_get_utxo:
  assumes ok: "db_ok S content db" and Q: "Q (utxo_at S content db (out_point_to_bytes op)) db" and "E db"
  shows "wp (get_utxo S op) Q E db"
  unfolding get_utxo_def wp_bind
proof (rule wp_tree_get [OF db_ok_sled [OF ok]])
  show "wp (case content (db Utxos) (out_point_to_bytes op) of None \<Rightarrow> return_eff None
     | Some b \<Rightarrow> bind_eff (lift_result (ok_or DataCorruption (de (c_utxo S) b)))
         (\<lambda>ret. return_eff (Some (ret\<lparr>ut_outpoint := op\<rparr>)))) Q E db"
    using Q \<open>E db\<close>
    by (auto simp: utxo_at_content [OF ok] wp_simps split: option.splits result.splits)
      (auto simp: result_simps)
qed fact

lemma wp_store_utxos:
  assumes ok: "db_ok S content db"
  shows "wp (store_utxos S us) (\<lambda>_ db'. db_ok S content db' \<and> changes_only Utxos db db' \<and>
      utxo_at S content db' = map_of (map (\<lambda>u. (utxo_key u, u)) us) ++ utxo_at S content db)
    (\<lambda>db'. db' = db) db"
proof -
  note table = db_ok_utxos [OF ok]
  consider "us = []" | (one) u where "us = [u]" | (many) "store_utxos S us = store_utxos_atomically S us"
    by (cases us rule: remdups_adj.cases) (auto simp: store_utxos_def)
  then show ?thesis
  proof cases
    case 1
    then show ?thesis by (simp add: store_utxos_def wp_simps ok)
  next
    case (one u)
    have new: "content (db Utxos) (utxo_key u) = None \<longleftrightarrow> utxo_at S content db (utxo_key u) = None"
      using row_at_None [OF table [unfolded utxos_ok_def]] by (simp add: utxo_at_def)
    show ?thesis
      unfolding one store_utxos_def list.case store_utxo_def wp_bind
    proof (rule wp_tree_contains_key [OF db_ok_sled [OF ok]])
      show "wp (if \<not> content (db Utxos) (utxo_key u) \<noteq> None
          then bind_eff (insert_row S Utxos (c_utxo S) (utxo_key u) u) (\<lambda>_. return_eff True) else return_eff False)
        (\<lambda>_ db'. db_ok S content db' \<and> changes_only Utxos db db' \<and>
          utxo_at S content db' = map_of (map (\<lambda>u. (utxo_key u, u)) [u]) ++ utxo_at S content db) (\<lambda>db'. db' = db) db"
        using new ok
        by (auto simp: wp_simps map_add_def fun_eq_iff intro!: wp_mono [OF utxos.put [OF table]]
            db_ok_change(1) [OF ok] split: option.splits)
    qed simp
  next
    case many
    have "list_all (\<lambda>_. True) us" by (simp add: list.pred_True)
    from utxos.put_new_list [OF table this] show ?thesis
      unfolding many store_utxos_atomically_def wp_bind
      by (intro wp_transaction, elim wp_mono) (auto simp: wp_simps intro: db_ok_change(1) [OF ok])
  qed
qed

lemma wp_remove_utxo:
  assumes ok: "db_ok S content db"
  shows "wp (remove_utxo S op) (\<lambda>_ db'. db_ok S content db' \<and> changes_only Utxos db db' \<and>
      utxo_at S content db' = (utxo_at S content db)(out_point_to_bytes op := None))
    (\<lambda>db'. db' = db) db"
  unfolding remove_utxo_def
  by (rule wp_mono [OF utxos.remove [OF db_ok_utxos [OF ok]]]) (auto intro: db_ok_change(1) [OF ok])

lemma wp_reset_utxos:
  assumes ok: "db_ok S content db"
  shows "wp (reset_utxos S us) (\<lambda>_ db'. db_ok S content db' \<and> changes_only Utxos db db' \<and>
      utxo_at S content db' = map_of (map (\<lambda>u. (utxo_key u, u)) us))
    (\<lambda>db'. db_ok S content db' \<and> changes_only Utxos db db') db"
proof -
  have "wp (clear_utxos S) (\<lambda>_ db'. db_ok S content db' \<and> changes_only Utxos db db' \<and> utxo_at S content db' = Map.empty)
      (\<lambda>db'. db_ok S content db' \<and> changes_only Utxos db db') db"
    unfolding clear_utxos_def
    by (rule wp_mono [OF utxos.clear [OF db_ok_utxos [OF ok]]]) (auto intro: db_ok_change(1) [OF ok] simp: ok)
  then show ?thesis
    unfolding reset_utxos_def wp_bind wp_return
  proof (rule wp_mono)
    fix s
    assume s: "db_ok S content s \<and> changes_only Utxos db s \<and> utxo_at S content s = Map.empty"
    show "wp (store_utxos S us) (\<lambda>_ db'. db_ok S content db' \<and> changes_only Utxos db db' \<and>
        utxo_at S content db' = map_of (map (\<lambda>u. (utxo_key u, u)) us))
      (\<lambda>db'. db_ok S content db' \<and> changes_only Utxos db db') s"
      by (rule wp_mono [OF wp_store_utxos]) (use s in \<open>auto intro: changes_only_trans\<close>)
  qed auto
qed

lemma wp_get_all_utxos:
  assumes ok: "db_ok S content db"
  shows "wp (get_all_utxos S) (\<lambda>us db'. db' = db \<and> sorted_wrt (<) (map utxo_key us) \<and>
      set us = ran (utxo_at S content db)) (\<lambda>db'. db' = db) db"
  unfolding get_all_utxos_rows by (rule utxos.rows [OF db_ok_utxos [OF ok]])

section \<open>Merkle roots\<close>

abbreviation root_keys :: "u8 list set" where
  "root_keys \<equiv> {KEY_UTXO_MERKLE_ROOT, KEY_TRACKED_TX_MERKLE_ROOT, KEY_PENDING_PEGOUTS_MERKLE_ROOT,
     KEY_FINALIZED_PEGOUT_IDS_MERKLE_ROOT}"

lemma root_keys_not_tip: "k \<in> root_keys \<Longrightarrow> k \<noteq> KEY_PEGOUTMGR_TIP"
  by (auto simp: KEY_UTXO_MERKLE_ROOT_def KEY_TRACKED_TX_MERKLE_ROOT_def KEY_PENDING_PEGOUTS_MERKLE_ROOT_def
      KEY_FINALIZED_PEGOUT_IDS_MERKLE_ROOT_def KEY_PEGOUTMGR_TIP_def bytes_of_def)

lemma wp_store_merkle_root:
  assumes ok: "db_ok S content db" and k: "k \<in> root_keys"
  shows "wp (store_merkle_root S k hs) (\<lambda>_ db'. db_ok S content db' \<and> changes_only DefaultTree db db' \<and>
      content (db' DefaultTree) k =
        (if hs = [] then content (db DefaultTree) k else map_option (raw S) (calculate_root S (sort hs))))
    (\<lambda>db'. db' = db) db"
proof (cases "hs = [] \<or> calculate_root S (sort hs) = None")
  case True
  then show ?thesis using ok by (auto simp: store_merkle_root_def wp_simps)
next
  case False
  then obtain r where r: "hs \<noteq> []" "calculate_root S (sort hs) = Some r" by auto
  with db_ok_codecs [OF ok] have len: "length (unraw S (raw S r)) = 32" by (auto simp: codecs_ok_def)
  have "db_ok S content db'"
    if "content (db' DefaultTree) = (content (db DefaultTree))(k \<mapsto> raw S r)" "changes_only DefaultTree db db'" for db'
    using db_ok_roots [OF ok] len root_keys_not_tip [OF k] that(1)
    by (intro db_ok_change(5) [OF ok that(2)]) (auto simp: roots_ok_def)
  then show ?thesis
    using r by (auto simp: store_merkle_root_def wp_simps intro!: wp_tree_insert [OF db_ok_sled [OF ok]])
qed

lemma wp_get_merkle_root:
  assumes ok: "db_ok S content db" and k: "k \<in> root_keys"
    and "Q (map_option (unraw S) (content (db DefaultTree) k)) db" and "E db"
  shows "wp (get_merkle_root S k) Q E db"
  unfolding get_merkle_root_def wp_bind
  by (rule wp_tree_get [OF db_ok_sled [OF ok]])
    (use assms db_ok_roots [OF ok] in \<open>auto simp: wp_simps roots_ok_def assert_that_def split: option.splits\<close>)

section \<open>Tracked transactions and pending pegouts\<close>

lemma wp_update_tracked_root:
  assumes ok: "db_ok S content db"
  shows "wp (update_tracked_tx_merkle_root S) (\<lambda>_ db'. db_ok S content db' \<and> changes_only DefaultTree db db')
    (\<lambda>db'. db' = db) db"
  unfolding update_tracked_tx_merkle_root_def wp_bind
  by (rule wp_mono [OF tracked.rows [OF db_ok_tracked [OF ok]]])
    (auto intro!: wp_mono [OF wp_store_merkle_root [OF ok]])

lemma wp_update_pending_root:
  assumes ok: "db_ok S content db"
  shows "wp (update_pending_pegouts_merkle_root S) (\<lambda>_ db'. db_ok S content db' \<and> changes_only DefaultTree db db')
    (\<lambda>db'. db' = db) db"
  unfolding update_pending_pegouts_merkle_root_def wp_bind
  by (rule wp_mono [OF pending.rows [OF db_ok_pending [OF ok]]])
    (auto intro!: wp_mono [OF wp_store_merkle_root [OF ok]])

text \<open>A root update after a change of one tree.\<close>

lemma wp_then_root:
  assumes "wp m (\<lambda>_ db'. f db' = v \<and> db_ok S content db' \<and> changes_only T db db') (\<lambda>db'. db' = db) db"
    and "db_ok S content db"
    and "\<And>db. db_ok S content db \<Longrightarrow> wp root (\<lambda>_ db'. db_ok S content db' \<and> changes_only DefaultTree db db') (\<lambda>db'. db' = db) db"
    and "\<And>a b. changes_only DefaultTree a b \<Longrightarrow> f b = f a"
  shows "wp (bind_eff m (\<lambda>_. root)) (\<lambda>_ db'. f db' = v \<and> db_ok S content db' \<and> changes_in {T, DefaultTree} db db')
    (\<lambda>db'. db_ok S content db' \<and> changes_in {T, DefaultTree} db db') db"
  unfolding wp_bind
proof (rule wp_mono [OF assms(1)])
  fix a
  assume a: "f a = v \<and> db_ok S content a \<and> changes_only T db a"
  then have c: "changes_in {T, DefaultTree} db a" by (auto intro: changes_only_in)
  have "f b = v \<and> changes_in {T, DefaultTree} db b" if "changes_only DefaultTree a b" for b
    using a assms(4) [OF that] changes_in_trans [OF c changes_only_in [OF that]] by simp
  with a c show "wp root (\<lambda>_ db'. f db' = v \<and> db_ok S content db' \<and> changes_in {T, DefaultTree} db db')
      (\<lambda>db'. db_ok S content db' \<and> changes_in {T, DefaultTree} db db') a"
    by (intro wp_mono [OF assms(3)]) auto
qed (use assms(2) in simp)

definition after_store :: "('v \<Rightarrow> 'k) \<Rightarrow> 'v list \<Rightarrow> ('k \<Rightarrow> 'v option) \<Rightarrow> 'k \<Rightarrow> 'v option" where
  "after_store key vs m = (case vs of [v] \<Rightarrow> m(key v \<mapsto> v) | _ \<Rightarrow> map_of (map (\<lambda>v. (key v, v)) vs) ++ m)"

lemma wp_store_pending_pegouts:
  assumes ok: "db_ok S content db"
  shows "wp (store_pending_pegouts S reqs) (\<lambda>_ db'.
      pending_at S content db' = after_store request_key reqs (pending_at S content db) \<and>
      db_ok S content db' \<and> changes_in {PendingPegouts, DefaultTree} db db')
    (\<lambda>db'. db_ok S content db' \<and> changes_in {PendingPegouts, DefaultTree} db db') db"
proof -
  note table = db_ok_pending [OF ok]
  consider "reqs = []" | (one) r where "reqs = [r]"
    | (many) "store_pending_pegouts S reqs = store_pending_pegouts_atomically S reqs"
      "after_store request_key reqs = (\<lambda>m. map_of (map (\<lambda>v. (request_key v, v)) reqs) ++ m)"
    by (cases reqs rule: remdups_adj.cases) (auto simp: store_pending_pegouts_def after_store_def fun_eq_iff)
  then show ?thesis
  proof cases
    case 1
    then show ?thesis by (simp add: store_pending_pegouts_def wp_simps ok after_store_def)
  next
    case (one r)
    show ?thesis
      unfolding one store_pending_pegouts_def list.case store_pending_pegout_def
      by (rule wp_then_root [OF wp_mono [OF pending.put [OF table]] ok wp_update_pending_root default_at(3)])
        (auto intro: db_ok_change(3) [OF ok] simp: after_store_def)
  next
    case many
    have fits: "list_all (\<lambda>_. True) reqs" by (simp add: list.pred_True)
    show ?thesis
      unfolding many store_pending_pegouts_atomically_def
      by (rule wp_then_root [OF wp_transaction [OF wp_mono [OF pending.put_new_list [OF table fits]]] ok
            wp_update_pending_root default_at(3)])
        (auto intro: db_ok_change(3) [OF ok])
  qed
qed

lemma wp_store_tracked_txs:
  assumes ok: "db_ok S content db" and fits: "list_all (encodable S) txs"
  shows "wp (store_tracked_txs S txs) (\<lambda>_ db'.
      tracked_at S content db' = after_store tracked_key txs (tracked_at S content db) \<and>
      db_ok S content db' \<and> changes_in {TrackedTxs, DefaultTree} db db')
    (\<lambda>db'. db_ok S content db' \<and> changes_in {TrackedTxs, DefaultTree} db db') db"
proof -
  note table = db_ok_tracked [OF ok]
  consider "txs = []" | (one) tx where "txs = [tx]"
    | (many) "store_tracked_txs S txs = store_tracked_txs_atomically S txs"
      "after_store tracked_key txs = (\<lambda>m. map_of (map (\<lambda>v. (tracked_key v, v)) txs) ++ m)"
    by (cases txs rule: remdups_adj.cases) (auto simp: store_tracked_txs_def after_store_def fun_eq_iff)
  then show ?thesis
  proof cases
    case 1
    then show ?thesis by (simp add: store_tracked_txs_def wp_simps ok after_store_def)
  next
    case (one tx)
    show ?thesis
      unfolding one store_tracked_txs_def list.case store_tracked_tx_def
      by (rule wp_then_root [OF wp_mono [OF tracked.put [OF table]] ok wp_update_tracked_root default_at(2)])
        (auto intro: db_ok_change(2) [OF ok] simp: after_store_def)
  next
    case many
    from tracked.put_new_list [OF table fits] show ?thesis
      unfolding many store_tracked_txs_atomically_def
      by (intro wp_transaction, elim wp_mono) (auto intro: db_ok_change(2) [OF ok] changes_only_in simp: ok)
  qed
qed

lemma wp_remove_tracked_tx:
  assumes ok: "db_ok S content db"
  shows "wp (remove_tracked_tx S t) (\<lambda>_ db'. db_ok S content db' \<and> changes_only TrackedTxs db db' \<and>
      tracked_at S content db' = (tracked_at S content db)(txid_bytes t := None))
    (\<lambda>db'. db' = db) db"
  unfolding remove_tracked_tx_def
  by (rule wp_mono [OF tracked.remove [OF db_ok_tracked [OF ok]]]) (auto intro: db_ok_change(2) [OF ok])

lemma wp_remove_pending_pegout:
  assumes ok: "db_ok S content db"
  shows "wp (remove_pending_pegout S ids) (\<lambda>_ db'. db_ok S content db' \<and> changes_only PendingPegouts db db' \<and>
      pending_at S content db' = (pending_at S content db) |` (- pegout_id_as_bytes ` set ids))
    (\<lambda>db'. db_ok S content db' \<and> changes_only PendingPegouts db db') db"
proof -
  have eq: "remove_pending_pegout S ids = for_each (tree_remove S PendingPegouts) (map pegout_id_as_bytes ids)"
    by (simp add: remove_pending_pegout_def for_each_map)
  show ?thesis
    unfolding eq
    by (rule wp_mono [OF pending.remove_list [OF db_ok_pending [OF ok]]]) (auto intro: db_ok_change(3) [OF ok])
qed

section \<open>Finalized pegouts\<close>

lemma wp_store_finalized_atomically:
  assumes ok: "db_ok S content db"
  shows "wp (store_finalized_pegout_ids_atomically S ps) (\<lambda>_ db'. db_ok S content db' \<and> changes_only FinalizedPegoutIds db db' \<and>
      finalized_at S content db' = map_of (map (\<lambda>p. (finalized_key p, p)) ps) ++ finalized_at S content db)
    (\<lambda>db'. db' = db) db"
proof -
  have fits: "list_all (\<lambda>_. True) ps" by (simp add: list.pred_True)
  show ?thesis
    unfolding store_finalized_pegout_ids_atomically_def
    by (rule wp_transaction [OF wp_mono [OF finalized.put_new_list [OF db_ok_finalized [OF ok] fits]]])
      (auto intro: db_ok_change(4) [OF ok])
qed

lemma wp_store_finalized:
  assumes ok: "db_ok S content db"
  shows "wp (store_finalized_pegout_ids S ps) (\<lambda>_ db'. db_ok S content db' \<and> changes_only FinalizedPegoutIds db db' \<and>
      finalized_at S content db' = after_store finalized_key ps (finalized_at S content db))
    (\<lambda>db'. db' = db) db"
proof -
  consider "ps = []" | (one) p where "ps = [p]"
    | (many) "store_finalized_pegout_ids S ps = store_finalized_pegout_ids_atomically S ps"
      "after_store finalized_key ps = (\<lambda>m. map_of (map (\<lambda>v. (finalized_key v, v)) ps) ++ m)"
    by (cases ps rule: remdups_adj.cases) (auto simp: store_finalized_pegout_ids_def after_store_def fun_eq_iff)
  then show ?thesis
  proof cases
    case 1
    then show ?thesis by (simp add: store_finalized_pegout_ids_def wp_simps ok after_store_def)
  next
    case (one p)
    show ?thesis
      unfolding one store_finalized_pegout_ids_def list.case store_finalized_pegout_id_def
      by (rule wp_mono [OF finalized.put [OF db_ok_finalized [OF ok]]])
        (auto intro: db_ok_change(4) [OF ok] simp: after_store_def)
  next
    case many
    with wp_store_finalized_atomically [OF ok] show ?thesis by simp
  qed
qed

text \<open>What pruning makes of a row.\<close>

definition pruned :: "u64 \<Rightarrow> finalized_pegout \<Rightarrow> finalized_pegout option" where
  "pruned now p = (case fp_timestamp p of
     None \<Rightarrow> Some (p\<lparr>fp_timestamp := Some now\<rparr>)
   | Some t \<Rightarrow> if t < saturating_sub now RETENTION_WINDOW_SECONDS then None else Some p)"

lemma wp_prune_row:
  assumes ok: "db_ok S content db" and p: "finalized_at S content db (finalized_key p) = Some p"
  shows "wp (prune_row S now (saturating_sub now RETENTION_WINDOW_SECONDS) p)
    (\<lambda>_ db'. db_ok S content db' \<and> changes_only FinalizedPegoutIds db db' \<and>
      finalized_at S content db' = (finalized_at S content db)(finalized_key p := pruned now p)) (\<lambda>_. True) db"
proof (cases "fp_timestamp p")
  case None
  have "wp (insert_row S FinalizedPegoutIds (c_finalized S) (finalized_key p) (p\<lparr>fp_timestamp := Some now\<rparr>))
      (\<lambda>_ db'. db_ok S content db' \<and> changes_only FinalizedPegoutIds db db' \<and>
        finalized_at S content db' = (finalized_at S content db)(finalized_key p := pruned now p)) (\<lambda>_. True) db"
    by (rule wp_mono [OF finalized.put [OF db_ok_finalized [OF ok], of "p\<lparr>fp_timestamp := Some now\<rparr>", simplified]])
      (auto intro: db_ok_change(4) [OF ok] simp: pruned_def None)
  with None show ?thesis by (simp add: prune_row_def)
next
  case (Some t)
  show ?thesis
  proof (cases "t < saturating_sub now RETENTION_WINDOW_SECONDS")
    case True
    with Some show ?thesis
      using finalized.remove [OF db_ok_finalized [OF ok], of "finalized_key p"]
      by (auto simp: prune_row_def pruned_def elim!: wp_mono intro: db_ok_change(4) [OF ok])
  next
    case False
    with Some p ok show ?thesis by (auto simp: prune_row_def wp_simps pruned_def fun_upd_idem)
  qed
qed

lemma wp_prune:
  assumes ok: "db_ok S content db"
  shows "wp (prune_finalized_pegout_ids S clock) (\<lambda>_ db'. db_ok S content db' \<and> changes_only FinalizedPegoutIds db db' \<and>
      finalized_at S content db' = (\<lambda>k. Option.bind (finalized_at S content db k) (pruned (the clock))))
    (\<lambda>db'. db' = db) db"
proof (cases clock)
  case (Some now)
  let ?cut = "saturating_sub now RETENTION_WINDOW_SECONDS" and ?at = "finalized_at S content db"
  let ?I = "\<lambda>ys db'. db_ok S content db' \<and> changes_only FinalizedPegoutIds db db' \<and>
    finalized_at S content db' = (\<lambda>k. if k \<in> finalized_key ` set ys then Option.bind (?at k) (pruned now) else ?at k)"
  have loop: "wp (for_each (prune_row S now ?cut) ps) (\<lambda>_ db'. db_ok S content db' \<and> changes_only FinalizedPegoutIds db db' \<and>
      finalized_at S content db' = (\<lambda>k. Option.bind (?at k) (pruned now))) (\<lambda>_. True) db"
    if sorted: "sorted_wrt (<) (map finalized_key ps)" and rows: "set ps = ran ?at" for ps
  proof (rule wp_for_each_prefix [where I = ?I])
    fix ys x zs s
    assume ps: "ps = ys @ x # zs" and I: "?I ys s"
    have at_x: "?at (finalized_key x) = Some x"
      using ps rows finalized.keyed [OF db_ok_finalized [OF ok]] by (auto simp: ran_def set_eq_iff)
    have new: "finalized_key x \<notin> finalized_key ` set ys"
      using sorted ps by (auto simp: sorted_wrt_append)
    with I at_x have "finalized_at S content s (finalized_key x) = Some x" by simp
    with I have "wp (prune_row S now ?cut x) (\<lambda>_ db'. db_ok S content db' \<and> changes_only FinalizedPegoutIds s db' \<and>
        finalized_at S content db' = (finalized_at S content s)(finalized_key x := pruned now x)) (\<lambda>_. True) s"
      by (intro wp_prune_row) auto
    then show "wp (prune_row S now ?cut x) (\<lambda>_. ?I (ys @ [x])) (\<lambda>_. True) s"
      by (rule wp_mono) (use I at_x in \<open>auto intro: changes_only_trans\<close>)
  next
    fix s
    assume I: "?I ps s"
    have "?at k = None" if "k \<notin> finalized_key ` set ps" for k
      using that rows finalized.keyed [OF db_ok_finalized [OF ok], of k] by (cases "?at k") (auto intro: ranI)
    with I show "db_ok S content s \<and> changes_only FinalizedPegoutIds db s \<and>
        finalized_at S content s = (\<lambda>k. Option.bind (?at k) (pruned now))"
      by (auto simp: fun_eq_iff)
  qed (simp add: ok)
  show ?thesis
    unfolding prune_finalized_pegout_ids_def wp_bind
    using loop
    by (auto simp: wp_simps Some intro!: wp_mono [OF finalized.rows [OF db_ok_finalized [OF ok]]] wp_transaction)
qed (simp add: prune_finalized_pegout_ids_def wp_simps)

lemma wp_remove_finalized:
  assumes ok: "db_ok S content db"
  shows "wp (remove_finalized_pegout_ids S ps) (\<lambda>_ db'. db_ok S content db' \<and> changes_only FinalizedPegoutIds db db' \<and>
      finalized_at S content db' = (finalized_at S content db) |` (- finalized_key ` set ps))
    (\<lambda>db'. db_ok S content db' \<and> changes_only FinalizedPegoutIds db db') db"
proof -
  have eq: "remove_finalized_pegout_ids S ps = for_each (tree_remove S FinalizedPegoutIds) (map finalized_key ps)"
    by (simp add: remove_finalized_pegout_ids_def for_each_map)
  show ?thesis
    unfolding eq
    by (rule wp_mono [OF finalized.remove_list [OF db_ok_finalized [OF ok]]]) (auto intro: db_ok_change(4) [OF ok])
qed

section \<open>Resets\<close>

lemma wp_reset:
  assumes "wp clear (\<lambda>_ db'. db_ok S content db') (db_ok S content) db"
    and "\<And>db. db_ok S content db \<Longrightarrow> wp m (\<lambda>_. db_ok S content) (db_ok S content) db"
  shows "wp (bind_eff clear (\<lambda>_. m)) (\<lambda>_. db_ok S content) (db_ok S content) db"
  unfolding wp_bind by (rule wp_mono [OF assms(1)]) (auto intro: assms(2))

lemma wp_clear_tables:
  assumes ok: "db_ok S content db"
  shows "wp (clear_tracked_txs S) (\<lambda>_. db_ok S content) (db_ok S content) db"
    and "wp (clear_pending_pegouts S) (\<lambda>_. db_ok S content) (db_ok S content) db"
    and "wp (clear_finalized_pegout_ids S) (\<lambda>_. db_ok S content) (db_ok S content) db"
  unfolding clear_tracked_txs_def clear_pending_pegouts_def clear_finalized_pegout_ids_def
  by (rule wp_mono [OF tracked.clear [OF db_ok_tracked [OF ok]]], auto intro: db_ok_change(2) [OF ok] simp: ok)
    (rule wp_mono [OF pending.clear [OF db_ok_pending [OF ok]]], auto intro: db_ok_change(3) [OF ok] simp: ok,
     rule wp_mono [OF finalized.clear [OF db_ok_finalized [OF ok]]], auto intro: db_ok_change(4) [OF ok] simp: ok)

section \<open>Roots of unspent outputs and finalized pegouts\<close>

lemma fold_collect:
  "fold_result (\<lambda>ret res. bind_result (h res) (\<lambda>y. Ok (ret @ [y]))) acc rs =
     bind_result (collect_results (map h rs)) (\<lambda>ys. Ok (acc @ ys))"
proof (induction rs arbitrary: acc)
  case (Cons r rs)
  show ?case
    by (cases "h r"; cases "collect_results (map h rs)") (simp_all add: Cons.IH)
qed simp

lemma collect_rows_results:
  "collect_rows S T f db =
     (collect_results (map (\<lambda>res. bind_result (map_err Db res) (\<lambda>(k, v). f k v)) (sl_iter S (db T))), db)"
  unfolding collect_rows_def fold_collect
  by (cases "collect_results (map (\<lambda>res. bind_result (map_err Db res) (\<lambda>(k, v). f k v)) (sl_iter S (db T)))") simp_all

lemma table_ok_read:
  assumes "table_ok S content T c dec rd key fits db" and "\<And>k b v. dec k b = Some v \<Longrightarrow> rd' k b = Ok v"
  shows "table_ok S content T c dec rd' key fits db"
  using assms by (simp add: table_ok_def row_codec_def)

lemma wp_iter_utxos:
  assumes ok: "db_ok S content db"
  shows "wp (\<lambda>db. (collect_results (iter_utxos S db), db)) (\<lambda>us db'. db' = db \<and> sorted_wrt (<) (map utxo_key us) \<and>
      set us = ran (utxo_at S content db)) (\<lambda>db'. db' = db) db"
proof -
  let ?rd = "\<lambda>k v. bind_result (ok_or DataCorruption (de (c_utxo S) v)) (\<lambda>ret.
     bind_result (expect (de_out_point S k)) (\<lambda>op. Ok (ret\<lparr>ut_outpoint := op\<rparr>)))"
  have eq: "(\<lambda>db. (collect_results (iter_utxos S db), db)) = collect_rows S Utxos ?rd"
    by (simp add: fun_eq_iff collect_rows_results iter_utxos_def)
  have "table_ok S content Utxos (c_utxo S) (utxo_row S) ?rd utxo_key (\<lambda>_. True) db"
    by (rule table_ok_read [OF db_ok_utxos [OF ok, unfolded utxos_ok_def]])
      (auto simp: utxo_row_def bind_eq_Some_conv)
  from wp_collect_rows [OF this] show ?thesis unfolding eq utxo_at_def .
qed

lemma wp_iter_finalized:
  assumes ok: "db_ok S content db"
  shows "wp (\<lambda>db. (collect_results (iter_finalized_pegout_ids S db), db)) (\<lambda>ps db'. db' = db \<and>
      sorted_wrt (<) (map finalized_key ps) \<and> set ps = ran (finalized_at S content db)) (\<lambda>db'. db' = db) db"
proof -
  let ?rd = "\<lambda>k v. ok_or DataCorruption (de (c_finalized S) v)"
  have eq: "(\<lambda>db. (collect_results (iter_finalized_pegout_ids S db), db)) = collect_rows S FinalizedPegoutIds ?rd"
    by (simp add: fun_eq_iff collect_rows_results iter_finalized_pegout_ids_def)
  have "table_ok S content FinalizedPegoutIds (c_finalized S) (\<lambda>_. de (c_finalized S)) ?rd finalized_key (\<lambda>_. True) db"
    by (rule table_ok_read [OF db_ok_finalized [OF ok, unfolded finalized_ok_def]]) simp
  from wp_collect_rows [OF this] show ?thesis unfolding eq finalized_at_def .
qed

lemma wp_update_other_roots:
  assumes ok: "db_ok S content db"
  shows "wp (update_utxo_merkle_root S) (\<lambda>_. db_ok S content) (db_ok S content) db"
    and "wp (update_finalized_pegout_ids_merkle_root S) (\<lambda>_. db_ok S content) (db_ok S content) db"
  unfolding update_utxo_merkle_root_def update_finalized_pegout_ids_merkle_root_def wp_bind
  by (rule wp_mono [OF wp_iter_utxos [OF ok]], auto intro!: wp_mono [OF wp_store_merkle_root [OF ok]] simp: ok)
    (rule wp_mono [OF wp_iter_finalized [OF ok]], auto intro!: wp_mono [OF wp_store_merkle_root [OF ok]] simp: ok)

section \<open>The last finalized block\<close>

lemma wp_store_tip:
  assumes ok: "db_ok S content db"
  shows "wp (store_pegout_mgr_finalized_block S h) (\<lambda>_. db_ok S content) (db_ok S content) db"
  unfolding store_pegout_mgr_finalized_block_def
proof (rule wp_tree_insert [OF db_ok_sled [OF ok]])
  fix db'
  assume c: "content (db' DefaultTree) = (content (db DefaultTree))(KEY_PEGOUTMGR_TIP \<mapsto> raw S (txid_bytes h))"
    and d: "changes_only DefaultTree db db'"
  have "KEY_PEGOUTMGR_TIP \<notin> root_keys" using root_keys_not_tip by blast
  with db_ok_roots [OF ok] db_ok_codecs [OF ok] show "db_ok S content db'"
    by (intro db_ok_change(5) [OF ok d]) (auto simp: roots_ok_def c codecs_ok_def)
qed (rule ok)

lemma wp_get_tip:
  assumes ok: "db_ok S content db"
  shows "wp (get_pegout_mgr_finalized_block S) (\<lambda>_ db'. db' = db) (\<lambda>db'. db' = db) db"
  unfolding get_pegout_mgr_finalized_block_def wp_bind
  by (rule wp_tree_get [OF db_ok_sled [OF ok]])
    (use db_ok_roots [OF ok] in \<open>auto simp: wp_simps roots_ok_def split: option.splits\<close>)

lemma wp_get_pending_pegout:
  assumes ok: "db_ok S content db"
  shows "wp (get_pending_pegout S i) (\<lambda>r db'. db' = db \<and> r = pending_at S content db (pegout_id_as_bytes i))
    (\<lambda>db'. db' = db) db"
proof -
  have row: "content (db PendingPegouts) k = Some b \<Longrightarrow> \<exists>v. de (c_request S) b = Some v" for k b
    using db_ok_pending [OF ok] unfolding pending_ok_def table_ok_def by blast
  show ?thesis
    unfolding get_pending_pegout_def wp_bind
    by (rule wp_tree_get [OF db_ok_sled [OF ok]])
      (auto simp: wp_simps pending_at_def row_at_def split: option.splits dest!: row)
qed

end
