(* ===== verification/BtcDbProps.thy ===== *)
theory BtcDbProps
  imports BtcDbOps "HOL-Library.RBT"
begin

text \<open>
  Properties of the database: its own operations never corrupt it, the batches of pending pegouts
  that coordinators agree on, the stream of finalized pegouts, pruning and the Merkle roots. A
  red-black tree serves as an instance of the storage engine.
\<close>

section \<open>An instance of the engine\<close>

text \<open>The 32 bytes of a hash, read back.\<close>

fun hash_of_bytes :: "u8 list \<Rightarrow> 256 word" where
  "hash_of_bytes [] = 0"
| "hash_of_bytes (b # bs) = or (push_bit 8 (hash_of_bytes bs)) (ucast b)"

lemma bit_hash_of_bytes:
  "n < 256 \<Longrightarrow> bit (hash_of_bytes bs) n \<longleftrightarrow> n div 8 < length bs \<and> bit (bs ! (n div 8)) (n mod 8)"
proof (induction bs arbitrary: n)
  case (Cons b bs)
  show ?case
  proof (cases "n < 8")
    case True
    then show ?thesis using Cons.prems by (simp add: bit_simps)
  next
    case False
    then have n: "n div 8 = Suc ((n - 8) div 8)" "n mod 8 = (n - 8) mod 8"
      by (simp_all add: le_div_geq le_mod_geq)
    have "\<not> bit b n" using False by (auto dest: bit_imp_le_length)
    with False Cons.IH [of "n - 8"] Cons.prems show ?thesis by (simp add: bit_simps n)
  qed
qed simp

lemma hash_of_txid_bytes [simp]: "hash_of_bytes (txid_bytes t) = t"
proof (rule bit_word_eqI)
  fix n
  assume "n < LENGTH(256)"
  then have n: "n < 256" "n div 8 < 32" by simp_all
  then have "txid_bytes t ! (n div 8) = ucast (drop_bit (8 * (n div 8)) t)"
    unfolding txid_bytes_def by (simp only: nth_map nth_upt length_upt add_0 diff_zero)
  with n show "bit (hash_of_bytes (txid_bytes t)) n = bit t n"
    by (simp add: bit_hash_of_bytes bit_simps)
qed

datatype sample_bytes = BUtxo utxo | BTx tracked_tx | BRequest pegout_request | BFinalized finalized_pegout
  | BKey u8 | BRaw "u8 list"

definition sample_store :: "((u8 list, sample_bytes) rbt, sample_bytes, unit, u8, u8) store" where
  "sample_store = \<lparr>
     sl_get = (\<lambda>t k. Ok (RBT.lookup t k)),
     sl_contains_key = (\<lambda>t k. Ok (RBT.lookup t k \<noteq> None)),
     sl_insert = (\<lambda>t k v. Ok (RBT.insert k v t)),
     sl_remove = (\<lambda>t k. Ok (RBT.delete k t)),
     sl_clear = (\<lambda>t. Ok RBT.empty),
     sl_iter = (\<lambda>t. map Ok (RBT.entries t)),
     sl_flush = (\<lambda>t. Ok ()),
     c_utxo = \<lparr>ser = (\<lambda>u. Some (BUtxo (skip_outpoint u))), de = (\<lambda>b. case b of BUtxo u \<Rightarrow> Some u | _ \<Rightarrow> None)\<rparr>,
     c_tx = \<lparr>ser = (\<lambda>tx. Some (BTx tx)), de = (\<lambda>b. case b of BTx tx \<Rightarrow> Some tx | _ \<Rightarrow> None)\<rparr>,
     c_request = \<lparr>ser = (\<lambda>r. Some (BRequest r)), de = (\<lambda>b. case b of BRequest r \<Rightarrow> Some r | _ \<Rightarrow> None)\<rparr>,
     c_finalized = \<lparr>ser = (\<lambda>p. Some (BFinalized p)), de = (\<lambda>b. case b of BFinalized p \<Rightarrow> Some p | _ \<Rightarrow> None)\<rparr>,
     c_key = \<lparr>ser = (\<lambda>k. Some (BKey k)), de = (\<lambda>b. case b of BKey k \<Rightarrow> Some k | _ \<Rightarrow> None)\<rparr>,
     c_pubkey = \<lparr>ser = (\<lambda>k. Some (BKey k)), de = (\<lambda>b. case b of BKey k \<Rightarrow> Some k | _ \<Rightarrow> None)\<rparr>,
     raw = BRaw,
     unraw = (\<lambda>b. case b of BRaw bs \<Rightarrow> bs | _ \<Rightarrow> []),
     de_out_point = (\<lambda>bs. map_option (\<lambda>v. \<lparr>op_txid = hash_of_bytes (take 32 bs), op_vout = v\<rparr>)
        (u32_from_le_bytes (drop 32 bs))),
     de_block_hash = (\<lambda>bs. if length bs = 32 then Some (hash_of_bytes bs) else None),
     consensus_out_point = out_point_to_bytes,
     consensus_txid = txid_bytes,
     consensus_u32 = le_bytes_u32,
     consensus_bytes = (\<lambda>bs. bs),
     consensus_u64 = (\<lambda>w. map (\<lambda>i. ucast (drop_bit (8 * i) w)) [0..<8]),
     sha256 = (\<lambda>bs. take 32 (bs @ replicate 32 0)),
     calculate_root = (\<lambda>hs. if hs = [] then None else Some (take 32 (hd hs @ replicate 32 0)))\<rparr>"

definition sample_content :: "(u8 list, sample_bytes) rbt \<Rightarrow> u8 list \<Rightarrow> sample_bytes option" where
  "sample_content = RBT.lookup"

definition sample_db :: "(u8 list, sample_bytes) rbt db" where
  "sample_db = (\<lambda>_. RBT.empty)"

lemma sample_sled_ok: "sled_ok sample_store sample_content"
proof -
  have "sorted_wrt (<) (map fst (RBT.entries t)) \<and> map_of (RBT.entries t) = RBT.lookup t \<and>
      list_all2 (\<lambda>r kv. sat (\<lambda>x. x = kv) r) (map Ok (RBT.entries t)) (RBT.entries t)"
    for t :: "(u8 list, sample_bytes) rbt"
    by (simp add: strict_sorted_iff sorted_entries distinct_entries map_of_entries list_all2_map1
        list_all2_same sat_def)
  then have iter: "\<exists>kvs. sorted_wrt (<) (map fst kvs) \<and> map_of kvs = RBT.lookup t \<and>
      list_all2 (\<lambda>r kv. sat (\<lambda>x. x = kv) r) (sl_iter sample_store t) kvs" for t
    by (auto simp: sample_store_def intro!: exI [of _ "RBT.entries t"])
  have rest: "sat (\<lambda>b. b = RBT.lookup t k) (sl_get sample_store t k)"
    "sat (\<lambda>b. b = (RBT.lookup t k \<noteq> None)) (sl_contains_key sample_store t k)"
    "sat (\<lambda>t'. RBT.lookup t' = (RBT.lookup t)(k \<mapsto> v)) (sl_insert sample_store t k v)"
    "sat (\<lambda>t'. RBT.lookup t' = (RBT.lookup t)(k := None)) (sl_remove sample_store t k)"
    "sat (\<lambda>t'. RBT.lookup t' = Map.empty) (sl_clear sample_store t)"
    "sat (\<lambda>_. True) (sl_flush sample_store t)" for t k v
    by (auto simp: sample_store_def sat_def fun_eq_iff restrict_map_def)
  show ?thesis
    unfolding sled_ok_def sample_content_def by (intro conjI allI iter rest)
qed

lemma sample_codecs_ok: "codecs_ok sample_store"
  by (simp add: codecs_ok_def codec_ok_def sample_store_def out_point_to_bytes_def min_def)

lemma sample_de:
  "de (c_request sample_store) (BRequest r) = Some r"
  "de (c_finalized sample_store) (BFinalized p) = Some p"
  "de (c_tx sample_store) (BTx tx) = Some tx"
  "de (c_utxo sample_store) (BUtxo u) = Some u"
  "de (c_pubkey sample_store) (BKey k) = Some k"
  by (simp_all add: sample_store_def)

text \<open>A database without rows is well-formed.\<close>

lemma row_codecs:
  assumes "codecs_ok S"
  shows "row_codec (c_utxo S) (utxo_row S) (utxo_read S) utxo_key (\<lambda>_. True)"
    and "row_codec (c_tx S) (\<lambda>_. de (c_tx S)) (\<lambda>_ v. expect (de (c_tx S) v)) tracked_key (encodable S)"
    and "row_codec (c_request S) (\<lambda>_. de (c_request S)) (\<lambda>_ v. expect (de (c_request S) v)) request_key (\<lambda>_. True)"
    and "row_codec (c_finalized S) (\<lambda>_. de (c_finalized S)) (\<lambda>_ v. expect (de (c_finalized S) v)) finalized_key (\<lambda>_. True)"
proof -
  have "utxo_row S (utxo_key u) b = Some u" if "ser (c_utxo S) u = Some b" for u b
    using assms that by (simp add: codecs_ok_def utxo_row_def skip_outpoint_def)
  moreover have "utxo_read S k b = Ok u" if "utxo_row S k b = Some u" for k b u
    using that by (auto simp: utxo_row_def utxo_read_def bind_eq_Some_conv)
  ultimately show "row_codec (c_utxo S) (utxo_row S) (utxo_read S) utxo_key (\<lambda>_. True)"
    using assms by (simp add: row_codec_def codecs_ok_def)
qed (use assms in \<open>simp_all add: row_codec_def codecs_ok_def codec_ok_def encodable_def\<close>)

lemma empty_db_ok:
  assumes "sled_ok S content" and "codecs_ok S" and "\<And>T. content (db T) = Map.empty"
  shows "db_ok S content db"
  using assms row_codecs [OF assms(2)] unfolding db_ok_def tables_ok_def table_ok_def roots_ok_def by simp

lemma sample_db_ok: "db_ok sample_store sample_content sample_db"
  by (rule empty_db_ok [OF sample_sled_ok sample_codecs_ok]) (simp add: sample_content_def sample_db_def)

section \<open>The database is never corrupted\<close>

text \<open>The operations of the database, as one type.\<close>

datatype db_op =
    StoreUtxos "utxo list" | RemoveUtxo out_point | ResetUtxos "utxo list" | GetUtxo out_point | GetAllUtxos
  | UpdateUtxoRoot | GetUtxoRoot
  | StoreTrackedTxs "tracked_tx list" | RemoveTrackedTx txid | ResetTrackedTxs "tracked_tx list"
  | GetTrackedTxs | GetTrackedTxRoot | StoreTip block_hash | GetTip
  | StorePendingPegouts "pegout_request list" | RemovePendingPegouts "pegout_id list"
  | ResetPendingPegouts "pegout_request list" | GetPendingPegout pegout_id | CoordPendingPegouts nat
  | GetPendingRoot
  | StoreFinalizedPegouts "finalized_pegout list" | RemoveFinalizedPegouts "finalized_pegout list"
  | ResetFinalizedPegouts "finalized_pegout list" | PruneFinalizedPegouts "u64 option" | GetFinalizedPegouts
  | UpdateFinalizedRoot | GetFinalizedRoot | Flush

definition ignore_value :: "('s, 'e, 'a) eff \<Rightarrow> ('s, 'e, unit) eff" where
  "ignore_value m = bind_eff m (\<lambda>_. return_eff ())"

fun run_db_op :: "('t, 'b, 'e, 'kp, 'pp) store \<Rightarrow> db_op \<Rightarrow> ('t db, 'e db_error, unit) eff" where
  "run_db_op S (StoreUtxos us) = ignore_value (store_utxos S us)"
| "run_db_op S (RemoveUtxo op) = remove_utxo S op"
| "run_db_op S (ResetUtxos us) = reset_utxos S us"
| "run_db_op S (GetUtxo op) = ignore_value (get_utxo S op)"
| "run_db_op S GetAllUtxos = ignore_value (get_all_utxos S)"
| "run_db_op S UpdateUtxoRoot = update_utxo_merkle_root S"
| "run_db_op S GetUtxoRoot = ignore_value (get_utxo_merkle_root S)"
| "run_db_op S (StoreTrackedTxs txs) = store_tracked_txs S txs"
| "run_db_op S (RemoveTrackedTx t) = remove_tracked_tx S t"
| "run_db_op S (ResetTrackedTxs txs) = reset_tracked_txs S txs"
| "run_db_op S GetTrackedTxs = ignore_value (get_tracked_txs S)"
| "run_db_op S GetTrackedTxRoot = ignore_value (get_tracked_tx_merkle_root S)"
| "run_db_op S (StoreTip h) = store_pegout_mgr_finalized_block S h"
| "run_db_op S GetTip = ignore_value (get_pegout_mgr_finalized_block S)"
| "run_db_op S (StorePendingPegouts rs) = store_pending_pegouts S rs"
| "run_db_op S (RemovePendingPegouts ids) = remove_pending_pegout S ids"
| "run_db_op S (ResetPendingPegouts rs) = reset_pending_pegouts S rs"
| "run_db_op S (GetPendingPegout i) = ignore_value (get_pending_pegout S i)"
| "run_db_op S (CoordPendingPegouts n) = ignore_value (coord_pending_pegouts S n)"
| "run_db_op S GetPendingRoot = ignore_value (get_pending_pegouts_merkle_root S)"
| "run_db_op S (StoreFinalizedPegouts ps) = store_finalized_pegout_ids S ps"
| "run_db_op S (RemoveFinalizedPegouts ps) = remove_finalized_pegout_ids S ps"
| "run_db_op S (ResetFinalizedPegouts ps) = reset_finalized_pegout_ids S ps"
| "run_db_op S (PruneFinalizedPegouts clock) = prune_finalized_pegout_ids S clock"
| "run_db_op S GetFinalizedPegouts = ignore_value (get_finalized_pegout_ids S)"
| "run_db_op S UpdateFinalizedRoot = update_finalized_pegout_ids_merkle_root S"
| "run_db_op S GetFinalizedRoot = ignore_value (get_finalized_pegout_ids_merkle_root S)"
| "run_db_op S Flush = db_flush S"

text \<open>A client that goes on after an error: the outcomes of its operations and the final state.\<close>

fun run_db_ops ::
    "('t, 'b, 'e, 'kp, 'pp) store \<Rightarrow> db_op list \<Rightarrow> 't db \<Rightarrow> ('e db_error, unit) result list \<times> 't db" where
  "run_db_ops S [] db = ([], db)"
| "run_db_ops S (op # ops) db = (case run_db_op S op db of (r, db') \<Rightarrow>
     case run_db_ops S ops db' of (rs, db'') \<Rightarrow> (r # rs, db''))"

fun op_fits :: "('t, 'b, 'e, 'kp, 'pp) store \<Rightarrow> db_op \<Rightarrow> bool" where
  "op_fits S (StoreTrackedTxs txs) = list_all (encodable S) txs"
| "op_fits S (ResetTrackedTxs txs) = list_all (encodable S) txs"
| "op_fits S _ = True"

lemma wp_ignore [wp_simps]: "wp (ignore_value m) Q E = wp m (\<lambda>_. Q ()) E"
  by (simp add: ignore_value_def wp_simps)

lemma run_db_op_ok:
  assumes ok: "db_ok S content db" and fits: "op_fits S op"
  shows "wp (run_db_op S op) (\<lambda>_. db_ok S content) (db_ok S content) db"
proof (cases op)
  case (ResetTrackedTxs txs)
  then show ?thesis
    using fits by (auto simp: reset_tracked_txs_def intro!: wp_reset wp_clear_tables ok wp_mono [OF wp_store_tracked_txs])
next
  case (ResetPendingPegouts rs)
  then show ?thesis
    by (auto simp: reset_pending_pegouts_def intro!: wp_reset wp_clear_tables ok wp_mono [OF wp_store_pending_pegouts])
next
  case (ResetFinalizedPegouts ps)
  then show ?thesis
    by (auto simp: reset_finalized_pegout_ids_def intro!: wp_reset wp_clear_tables ok wp_mono [OF wp_store_finalized])
next
  case (CoordPendingPegouts n)
  then show ?thesis
    by (auto simp: coord_pending_pegouts_def wp_simps Let_def ok
        intro!: wp_mono [OF pending.rows [OF db_ok_pending [OF ok]]])
next
  case (StoreTrackedTxs txs)
  then show ?thesis using fits by (auto intro!: wp_mono [OF wp_store_tracked_txs [OF ok]])
qed (auto simp: wp_simps ok get_utxo_merkle_root_def get_tracked_tx_merkle_root_def
    get_pending_pegouts_merkle_root_def get_finalized_pegout_ids_merkle_root_def
    intro!: wp_update_other_roots wp_store_tip wp_get_utxo [OF ok] wp_get_merkle_root [OF ok] wp_flush [OF db_ok_sled [OF ok]]
      wp_mono [OF wp_store_utxos [OF ok]] wp_mono [OF wp_remove_utxo [OF ok]] wp_mono [OF wp_reset_utxos [OF ok]]
      wp_mono [OF wp_get_all_utxos [OF ok]] wp_mono [OF wp_remove_tracked_tx [OF ok]]
      wp_mono [OF tracked.rows [OF db_ok_tracked [OF ok]]] wp_mono [OF wp_get_tip [OF ok]]
      wp_mono [OF wp_store_pending_pegouts [OF ok]] wp_mono [OF wp_remove_pending_pegout [OF ok]]
      wp_mono [OF wp_get_pending_pegout [OF ok]] wp_mono [OF wp_store_finalized [OF ok]]
      wp_mono [OF wp_remove_finalized [OF ok]] wp_mono [OF wp_prune [OF ok]]
      wp_mono [OF finalized.rows [OF db_ok_finalized [OF ok]]])

text \<open>
  (C18) The tables of unspent outputs, tracked transactions, pending and finalized pegouts and the
  Merkle roots cannot be corrupted through their interface. From a well-formed database, any sequence of
  operations on them, also one that continues after storage errors, never panics (no ``corrupt db''
  is reached) and leaves a well-formed database: every row decodes and lies under its own key. The
  tracked transactions that are stored must be encodable; the encoder refuses one whose time of creation
  lies before the epoch, and storing several with such a one panics.
\<close>

theorem db_never_corrupted:
  assumes "db_ok S content db" and "list_all (op_fits S) ops"
    and "run_db_ops S ops db = (outcomes, db')"
  shows "Panic \<notin> set outcomes \<and> db_ok S content db'"
  using assms
proof (induction ops arbitrary: db outcomes)
  case (Cons op ops)
  obtain r db1 where r: "run_db_op S op db = (r, db1)" by fastforce
  with Cons.prems(3) obtain rs where rs: "run_db_ops S ops db1 = (rs, db')" "outcomes = r # rs"
    by (auto split: prod.splits)
  have "r \<noteq> Panic \<and> db_ok S content db1"
    using run_db_op_ok [OF Cons.prems(1), of op] Cons.prems(2) by (auto simp: wp_def r split: result.splits)
  with Cons.IH [OF _ _ rs(1)] Cons.prems(2) rs(2) show ?case by auto
qed simp

definition sample_pending :: "u64 \<Rightarrow> u32 \<Rightarrow> pegout_request" where
  "sample_pending height i = \<lparr>pr_id = \<lparr>pg_txid = replicate 32 0, pg_idx = i\<rparr>, pr_spk = [], pr_value = 1000,
     botanix_height = height, pr_timestamp = None\<rparr>"

definition sample_ops :: "db_op list" where
  "sample_ops = [StorePendingPegouts [sample_pending 7 1, sample_pending 5 2], CoordPendingPegouts 1,
     RemovePendingPegouts [pr_id (sample_pending 7 1)], GetPendingRoot, PruneFinalizedPegouts None]"

theorem db_never_corrupted_witness:
  "case run_db_ops sample_store sample_ops sample_db of (outcomes, db') \<Rightarrow>
     Panic \<notin> set outcomes \<and> db_ok sample_store sample_content db'"
  using db_never_corrupted [OF sample_db_ok, of sample_ops] by (auto simp: sample_ops_def split: prod.split)

section \<open>Batches of pending pegouts\<close>

text \<open>Taking the first elements of a sorted list leaves only larger ones.\<close>

lemma take_sort_key_least:
  assumes "x \<in> set (take n (sort_key f xs))" and "y \<in> set xs" and "y \<notin> set (take n (sort_key f xs))"
  shows "f x \<le> f y"
proof -
  have "sorted (map f (take n (sort_key f xs) @ drop n (sort_key f xs)))" by simp
  moreover have "y \<in> set (drop n (sort_key f xs))"
    using assms(2,3) set_append [of "take n (sort_key f xs)" "drop n (sort_key f xs)"] by simp
  ultimately show ?thesis using assms(1) by (auto simp del: append_take_drop_id simp: sorted_append)
qed

lemma coord_pending_Ok:
  assumes ok: "db_ok S content db" and run: "coord_pending_pegouts S n db = (Ok batch, db')"
  obtains rs where "get_pending_pegouts S db = (Ok rs, db)" "set rs = ran (pending_at S content db)"
    "distinct rs" "batch = take n (sort_key botanix_height rs)" "db' = db"
proof -
  note rows = pending.rows [OF db_ok_pending [OF ok]]
  from run obtain rs where rs: "get_pending_pegouts S db = (Ok rs, db')" "batch = take n (sort_key botanix_height rs)"
    by (auto simp: coord_pending_pegouts_def bind_eff_def Let_def return_eff_def split: prod.splits result.splits if_splits)
  from wp_Ok [OF rows rs(1)] have "db' = db" "set rs = ran (pending_at S content db)" "distinct rs"
    by (auto simp: strict_sorted_iff distinct_map)
  with rs that show ?thesis by simp
qed

text \<open>
  (C19) The batch of pegouts a coordinator takes holds the given number of pending requests, or all
  of them if there are fewer, oldest first and without repetition, and none that is left out is
  older than one that is taken. It is a function of the pending table alone: two servers with the
  same pending pegouts, whatever their storage, take the same batch in the same order.
\<close>

theorem coord_batch_is_oldest_and_agreed:
  assumes "db_ok S content db" and "coord_pending_pegouts S n db = (Ok batch, db')"
    and "db_ok S2 content2 db2" and "coord_pending_pegouts S2 n db2 = (Ok batch2, db2')"
    and "pending_at S content db = pending_at S2 content2 db2"
  shows "batch2 = batch \<and> length batch = min n (card (ran (pending_at S content db))) \<and>
    distinct batch \<and> sorted (map botanix_height batch) \<and> set batch \<subseteq> ran (pending_at S content db) \<and>
    (\<forall>taken \<in> set batch. \<forall>left \<in> ran (pending_at S content db) - set batch. botanix_height taken \<le> botanix_height left)"
proof -
  obtain rs where rs: "get_pending_pegouts S db = (Ok rs, db)" "set rs = ran (pending_at S content db)"
    "distinct rs" "batch = take n (sort_key botanix_height rs)"
    using assms(1,2) by (rule coord_pending_Ok)
  obtain rs2 where rs2: "get_pending_pegouts S2 db2 = (Ok rs2, db2)" "set rs2 = ran (pending_at S2 content2 db2)"
    "distinct rs2" "batch2 = take n (sort_key botanix_height rs2)"
    using assms(3,4) by (rule coord_pending_Ok)
  have "map request_key rs = map request_key rs2"
    using wp_Ok [OF pending.rows [OF db_ok_pending [OF assms(1)]] rs(1)]
      wp_Ok [OF pending.rows [OF db_ok_pending [OF assms(3)]] rs2(1)] assms(5)
    by (intro sorted_distinct_set_unique) (auto simp: strict_sorted_iff)
  moreover have "inj_on request_key (set rs \<union> set rs2)"
    using wp_Ok [OF pending.rows [OF db_ok_pending [OF assms(1)]] rs(1)] rs(2) rs2(2) assms(5)
    by (simp add: strict_sorted_iff distinct_map Un_absorb1)
  ultimately have "rs = rs2" by (rule map_inj_on)
  moreover have "length batch = min n (card (ran (pending_at S content db)))"
    using rs by (simp add: min.commute distinct_card [symmetric])
  moreover have "sorted (map botanix_height batch)" using rs(4) by (simp add: take_map [symmetric])
  moreover have "set batch \<subseteq> set rs" using rs(4) set_take_subset [of n "sort_key botanix_height rs"] by simp
  ultimately show ?thesis
    using rs rs2 take_sort_key_least [of _ n botanix_height rs] by auto
qed

text \<open>Two pending pegouts, the second of which is older.\<close>

definition sample_pending_db :: "(u8 list, sample_bytes) rbt db" where
  "sample_pending_db = sample_db(PendingPegouts :=
     RBT.insert (request_key (sample_pending 5 2)) (BRequest (sample_pending 5 2))
       (RBT.insert (request_key (sample_pending 7 1)) (BRequest (sample_pending 7 1)) RBT.empty))"

lemma sample_pending_db_ok: "db_ok sample_store sample_content sample_pending_db"
proof (rule db_ok_other [OF sample_db_ok])
  have "row_codec (c_request sample_store) (\<lambda>_. de (c_request sample_store))
      (\<lambda>_ v. expect (de (c_request sample_store) v)) request_key (\<lambda>_. True)"
    by (rule row_codecs [OF sample_codecs_ok])
  then have "pending_ok sample_store sample_content sample_pending_db"
    unfolding pending_ok_def table_ok_def
    by (auto simp: sample_sled_ok [unfolded sample_content_def] sample_content_def sample_pending_db_def sample_db_def
        sample_de split: if_splits)
  then show "sample_pending_db PendingPegouts = sample_db PendingPegouts \<or>
      pending_ok sample_store sample_content sample_pending_db" ..
qed (simp_all add: sample_pending_db_def)

lemma entries_unique:
  assumes "sorted_wrt (<) (map fst kvs)" and "map_of kvs = RBT.lookup t"
  shows "RBT.entries t = kvs"
proof (rule map_sorted_distinct_set_unique [where f = fst])
  have "distinct (map fst kvs)" using assms(1) by (simp add: strict_sorted_iff)
  then have "(k, v) \<in> set (RBT.entries t) \<longleftrightarrow> (k, v) \<in> set kvs" for k v
    using assms(2) map_of_entries [of t] distinct_entries [of t] by (metis map_of_eq_Some_iff)
  then show "set (RBT.entries t) = set kvs" by auto
  then show "inj_on fst (set (RBT.entries t) \<union> set kvs)"
    using distinct_entries [of t] by (simp add: distinct_map)
qed (use assms(1) in \<open>simp_all add: strict_sorted_iff sorted_entries distinct_entries\<close>)

lemma append_less_cancel: "xs @ a < xs @ b \<longleftrightarrow> a < (b :: 'a::linorder list)"
  by (induction xs) simp_all

lemma sample_keys_less: "request_key (sample_pending 7 1) < request_key (sample_pending 5 2)"
  by (simp add: sample_pending_def pegout_id_as_bytes_def append_less_cancel be_bytes_u32_def)

lemma sample_pending_rows:
  "get_pending_pegouts sample_store sample_pending_db = (Ok [sample_pending 7 1, sample_pending 5 2], sample_pending_db)"
proof -
  have "RBT.entries (sample_pending_db PendingPegouts) =
      map (\<lambda>r. (request_key r, BRequest r)) [sample_pending 7 1, sample_pending 5 2]"
    by (rule entries_unique)
      (use sample_keys_less in \<open>auto simp: sample_pending_db_def fun_eq_iff\<close>)
  then show ?thesis
    by (simp add: get_pending_pegouts_def collect_rows_def sample_store_def)
qed

theorem coord_batch_is_oldest_and_agreed_witness:
  "coord_pending_pegouts sample_store 1 sample_pending_db = (Ok [sample_pending 5 2], sample_pending_db) \<and>
   db_ok sample_store sample_content sample_pending_db \<and>
   [sample_pending 5 2] = [sample_pending 5 2] \<and>
   set [sample_pending 5 2] \<subseteq> ran (pending_at sample_store sample_content sample_pending_db)"
proof -
  have run: "coord_pending_pegouts sample_store 1 sample_pending_db = (Ok [sample_pending 5 2], sample_pending_db)"
    by (simp add: coord_pending_pegouts_def bind_eff_def return_eff_def sample_pending_rows)
      (simp add: sample_pending_def)
  note coord_batch_is_oldest_and_agreed [OF sample_pending_db_ok run sample_pending_db_ok run refl]
  with run sample_pending_db_ok show ?thesis by blast
qed

section \<open>The stream of finalized pegouts\<close>

lemma concat_chunks: "0 < n \<Longrightarrow> concat (chunks n xs) = xs"
  by (induction n xs rule: chunks.induct) (subst chunks.simps, simp)

lemma chunks_nonempty: "c \<in> set (chunks n xs) \<Longrightarrow> c \<noteq> [] \<and> length c \<le> n"
proof (induction n xs rule: chunks.induct)
  case (1 n xs)
  then show ?case by (cases "n = 0 \<or> xs = []") (auto simp: chunks.simps [of n xs])
qed

lemma length_chunks: "0 < n \<Longrightarrow> length (chunks n xs) = div_ceil (length xs) n"
proof (induction n xs rule: chunks.induct)
  case (1 n xs)
  show ?case
  proof (cases "xs = []")
    case True
    then show ?thesis by (simp add: chunks.simps div_ceil_def)
  next
    case False
    with 1 have IH: "length (chunks n (drop n xs)) = div_ceil (length xs - n) n" by simp
    have "Suc (div_ceil (length xs - n) n) = div_ceil (length xs) n"
    proof (cases "n \<le> length xs")
      case True
      with 1(2) show ?thesis by (simp add: div_ceil_def le_div_geq le_mod_geq Let_def)
    next
      case 2: False
      with False show ?thesis by (simp add: div_ceil_def Let_def)
    qed
    with IH False 1(2) show ?thesis by (simp add: chunks.simps [of n xs])
  qed
qed

text \<open>The row of a key in the table of that moment.\<close>

abbreviation row_then :: "('t, 'b, 'e, 'kp, 'pp) store \<Rightarrow> ('t \<Rightarrow> u8 list \<Rightarrow> 'b option) \<Rightarrow> (u8 list \<Rightarrow> 't) \<Rightarrow>
    u8 list \<Rightarrow> finalized_pegout option" where
  "row_then S content tables k \<equiv> Option.bind (content (tables k) k) (de (c_finalized S))"

lemma chunk_items_Ok:
  assumes "sled_ok S content" and "\<And>k. \<exists>b. sl_get S (tables k) k = Ok b"
    and "\<And>k v. content (tables k) k = Some v \<Longrightarrow> \<exists>p. de (c_finalized S) v = Some p"
  shows "chunk_items S tables ks = Ok (List.map_filter (row_then S content tables) ks)"
proof (induction ks)
  case (Cons k ks)
  have "sl_get S (tables k) k = Ok (content (tables k) k)"
    using assms(2) [of k] sled_okD(1) [OF assms(1), of "tables k" k] by (auto simp: sat_def)
  with Cons assms(3) [of k] show ?case
    by (cases "content (tables k) k") (auto simp: List.map_filter_simps)
qed (simp add: List.map_filter_simps)

lemma stream_chunks_Ok:
  assumes "\<And>c. chunk_items S tables c = Ok (f c)"
  defines "ds css \<equiv> filter (\<lambda>c. c \<noteq> []) (map f css)"
  shows "stream_chunks S tables i m css = map (\<lambda>j. Ok (ds css ! j, i + of_nat j, m)) [0..<length (ds css)]"
proof (induction css arbitrary: i)
  case (Cons c css)
  show ?case
  proof (cases "f c = []")
    case True
    then show ?thesis using Cons.IH by (simp add: assms(1) ds_def)
  next
    case False
    then have ds: "ds (c # css) = f c # ds css" by (simp add: ds_def)
    have "[0..<length (f c # ds css)] = 0 # map Suc [0..<length (ds css)]"
      by (simp add: map_Suc_upt upt_conv_Cons del: upt_Suc)
    with False Cons.IH [of "i + 1"] show ?thesis
      unfolding ds by (simp add: assms(1) algebra_simps comp_def del: upt_Suc)
  qed
qed (simp add: ds_def)

lemma map_filter_concat: "List.map_filter f (concat css) = concat (filter (\<lambda>c. c \<noteq> []) (map (List.map_filter f) css))"
  by (induction css) (simp_all add: List.map_filter_def)

lemma map_filter_all:
  assumes "list_all2 (\<lambda>x y. f x = Some y) xs ys"
  shows "List.map_filter f xs = ys"
  using assms by (induction rule: list_all2_induct) (simp_all add: List.map_filter_simps)

lemma map_filter_chunks:
  assumes "0 < n" and "list_all2 (\<lambda>x y. f x = Some y) xs ys"
  shows "length (filter (\<lambda>c. c \<noteq> []) (map (List.map_filter f) (chunks n xs))) = div_ceil (length ys) n"
proof -
  have "List.map_filter f c \<noteq> []" if c: "c \<in> set (chunks n xs)" for c
  proof -
    obtain x where "x \<in> set c" using chunks_nonempty [OF c] by (cases c) auto
    moreover from this c have "x \<in> set (concat (chunks n xs))" by auto
    then have "x \<in> set xs" by (simp only: concat_chunks [OF assms(1)])
    then have "f x \<noteq> None" using assms(2) by (auto simp: list_all2_conv_all_nth in_set_conv_nth)
    ultimately show ?thesis by (auto simp: List.map_filter_def filter_empty_conv)
  qed
  then have "filter (\<lambda>c. c \<noteq> []) (map (List.map_filter f) (chunks n xs)) = map (List.map_filter f) (chunks n xs)"
    by (auto simp: filter_id_conv)
  with list_all2_lengthD [OF assms(2)] show ?thesis by (simp add: length_chunks [OF assms(1)])
qed

lemma collect_results_Ok: "collect_results (map h rs) = Ok ys \<longleftrightarrow> list_all2 (\<lambda>r y. h r = Ok y) rs ys"
  by (induction rs arbitrary: ys) (auto simp: result_simps list_all2_Cons1)

lemma collect_results_map_Ok [simp]: "collect_results (map Ok xs) = Ok xs"
  by (induction xs) simp_all

text \<open>The rows behind a successful read.\<close>

lemma read_finalized_rows:
  assumes ok: "db_ok S content db" and run: "get_finalized_pegout_ids S db = (Ok ps, db')"
  obtains kvs where "sl_iter S (db FinalizedPegoutIds) = map Ok kvs"
    "map_of kvs = content (db FinalizedPegoutIds)" "distinct (map fst kvs)"
    "list_all2 (\<lambda>kv p. de (c_finalized S) (snd kv) = Some p) kvs ps"
proof -
  let ?rs = "sl_iter S (db FinalizedPegoutIds)"
  from sled_okD(7) [OF db_ok_sled [OF ok], of "db FinalizedPegoutIds"] obtain kvs
    where kvs: "sorted_wrt (<) (map fst kvs)" "map_of kvs = content (db FinalizedPegoutIds)"
      "list_all2 (\<lambda>r kv. sat (\<lambda>x. x = kv) r) ?rs kvs" by blast
  from run have "collect_results (map (\<lambda>r. bind_result (map_err Db r) (\<lambda>(k, v). expect (de (c_finalized S) v))) ?rs) = Ok ps"
    unfolding get_finalized_pegout_ids_def collect_rows_results by (rule prod.inject [THEN iffD1, THEN conjunct1])
  then have all: "list_all2 (\<lambda>r p. bind_result (map_err Db r) (\<lambda>(k, v). expect (de (c_finalized S) v)) = Ok p) ?rs ps"
    unfolding collect_results_Ok .
  have "?rs ! i = Ok (kvs ! i)" if "i < length ?rs" for i
    using list_all2_nthD [OF kvs(3) that] list_all2_nthD [OF all that]
    by (cases "?rs ! i") (simp_all add: sat_def)
  with kvs(3) have rs: "?rs = map Ok kvs" by (auto simp: list_all2_conv_all_nth intro: nth_equalityI)
  from all have "list_all2 (\<lambda>kv p. bind_result (map_err Db (Ok kv :: ('c, _) result)) (\<lambda>(k, v). expect (de (c_finalized S) v)) = Ok p) kvs ps"
    by (simp only: rs list_all2_map1)
  then have "list_all2 (\<lambda>kv p. de (c_finalized S) (snd kv) = Some p) kvs ps"
    by (rule list_all2_mono) (auto simp: result_simps split: prod.splits)
  with kvs(1,2) rs that show ?thesis by (simp add: strict_sorted_iff)
qed

text \<open>
  (C38) The stream of finalized pegouts is complete while no read of the storage fails. It starts from the
  keys of the rows that \<open>get_finalized_pegout_ids\<close> returns, and delivers, in their order, the row each
  key has when it is read, cut into non-empty chunks of at most the given size and numbered from zero; a row
  removed in the meantime is left out. Each chunk announces the number of chunks that all rows fill.
  When the table does not change while the stream runs, the chunks are that many and together
  exactly the list that \<open>get_finalized_pegout_ids\<close> returns.
\<close>

theorem finalized_stream_is_complete:
  assumes ok: "db_ok S content db" and n: "0 < n" and run: "get_finalized_pegout_ids S db = (Ok ps, db')"
    and reads: "\<And>k. \<exists>b. sl_get S (tables k) k = Ok b"
    and sound: "\<And>k v. content (tables k) k = Some v \<Longrightarrow> \<exists>p. de (c_finalized S) v = Some p"
  shows "\<exists>cs. list_all (\<lambda>c. c \<noteq> [] \<and> length c \<le> n) cs \<and>
    concat cs = List.map_filter (row_then S content tables) (map finalized_key ps) \<and>
    get_finalized_pegout_ids_stream S n tables db =
      map (\<lambda>i. Ok (cs ! i, of_nat i, of_nat (div_ceil (length ps) n))) [0..<length cs] \<and>
    ((\<forall>k. tables k = db FinalizedPegoutIds) \<longrightarrow> concat cs = ps \<and> length cs = div_ceil (length ps) n)"
proof -
  let ?t = "db FinalizedPegoutIds" and ?f = "row_then S content tables"
  obtain kvs where kvs: "sl_iter S ?t = map Ok kvs" "map_of kvs = content ?t" "distinct (map fst kvs)"
    "list_all2 (\<lambda>kv p. de (c_finalized S) (snd kv) = Some p) kvs ps"
    using ok run by (rule read_finalized_rows)
  have row: "content ?t (fst kv) = Some (snd kv)" if "kv \<in> set kvs" for kv
    using that kvs(2,3) by (metis map_of_eq_Some_iff prod.collapse)
  have keys: "map fst kvs = map finalized_key ps"
  proof -
    have "list_all2 (\<lambda>kv p. fst kv = finalized_key p) kvs ps"
      using kvs(4)
    proof (rule list.rel_mono_strong)
      fix kv p
      assume "kv \<in> set kvs" "de (c_finalized S) (snd kv) = Some p"
      with row [of kv] have "finalized_at S content db (fst kv) = Some p" by (simp add: tables_at_def row_at_def)
      from finalized.keyed [OF db_ok_finalized [OF ok] this] show "fst kv = finalized_key p" by simp
    qed
    then show ?thesis by (induction rule: list_all2_induct) simp_all
  qed
  have len: "length kvs = length ps" using kvs(4) by (rule list_all2_lengthD)
  define cs where "cs = filter (\<lambda>c. c \<noteq> []) (map (List.map_filter ?f) (chunks n (map finalized_key ps)))"
  have "get_finalized_pegout_ids_stream S n tables db =
      stream_chunks S tables 0 (of_nat (div_ceil (length ps) n)) (chunks n (map finalized_key ps))"
    using n by (simp add: get_finalized_pegout_ids_stream_def kvs(1) Let_def len flip: keys)
  also have "\<dots> = map (\<lambda>j. Ok (cs ! j, of_nat j, of_nat (div_ceil (length ps) n))) [0..<length cs]"
    unfolding cs_def using stream_chunks_Ok [OF chunk_items_Ok [OF db_ok_sled [OF ok] reads sound]] by simp
  finally have stream: "get_finalized_pegout_ids_stream S n tables db =
      map (\<lambda>j. Ok (cs ! j, of_nat j, of_nat (div_ceil (length ps) n))) [0..<length cs]" .
  have all: "concat cs = List.map_filter ?f (map finalized_key ps)"
    unfolding cs_def map_filter_concat [symmetric] concat_chunks [OF n] ..
  have size: "length (List.map_filter ?f c) \<le> n" if "c \<in> set (chunks n (map finalized_key ps))" for c
    using chunks_nonempty [OF that] unfolding List.map_filter_def length_map
    by (elim conjE) (rule le_trans [OF length_filter_le])
  then have "list_all (\<lambda>c. c \<noteq> [] \<and> length c \<le> n) cs" by (auto simp: cs_def list_all_iff)
  moreover have "concat cs = ps \<and> length cs = div_ceil (length ps) n" if "\<forall>k. tables k = ?t"
  proof -
    from kvs(4) have "list_all2 (\<lambda>kv p. ?f (fst kv) = Some p) kvs ps"
      by (rule list.rel_mono_strong) (simp add: that row)
    then have "list_all2 (\<lambda>k p. ?f k = Some p) (map finalized_key ps) ps" by (simp add: list_all2_map1 flip: keys)
    from map_filter_all [OF this] map_filter_chunks [OF n this] all show ?thesis by (simp add: cs_def)
  qed
  ultimately show ?thesis using stream all by blast
qed

text \<open>Three finalized pegouts: an old one, a recent one and one without a time.\<close>

definition sample_settled :: "u32 \<Rightarrow> u64 option \<Rightarrow> finalized_pegout" where
  "sample_settled i ts = \<lparr>fp_id = \<lparr>pg_txid = replicate 32 0, pg_idx = i\<rparr>, fp_block_number = 5, fp_timestamp = ts\<rparr>"

definition sample_settled_rows :: "finalized_pegout list" where
  "sample_settled_rows = [sample_settled 1 (Some 100), sample_settled 2 (Some 7900000), sample_settled 3 None]"

definition sample_settled_db :: "(u8 list, sample_bytes) rbt db" where
  "sample_settled_db = sample_db(FinalizedPegoutIds :=
     fold (\<lambda>p. RBT.insert (finalized_key p) (BFinalized p)) sample_settled_rows RBT.empty)"

lemma sample_settled_keys:
  "finalized_key (sample_settled i a) < finalized_key (sample_settled j b) \<longleftrightarrow> be_bytes_u32 i < be_bytes_u32 j"
  "finalized_key (sample_settled i a) = finalized_key (sample_settled j b) \<longleftrightarrow> be_bytes_u32 i = be_bytes_u32 j"
  by (simp_all add: sample_settled_def pegout_id_as_bytes_def append_less_cancel)

lemma sample_settled_entries:
  "RBT.entries (sample_settled_db FinalizedPegoutIds) = map (\<lambda>p. (finalized_key p, BFinalized p)) sample_settled_rows"
  by (rule entries_unique)
    (auto simp: sample_settled_db_def sample_settled_rows_def sample_settled_keys be_bytes_u32_def fun_eq_iff)

lemma sample_settled_at:
  "finalized_at sample_store sample_content sample_settled_db = map_of (map (\<lambda>p. (finalized_key p, p)) sample_settled_rows)"
proof
  fix k
  have "RBT.lookup (sample_settled_db FinalizedPegoutIds) k =
      map_option BFinalized (map_of (map (\<lambda>p. (finalized_key p, p)) sample_settled_rows) k)"
    unfolding map_of_entries [symmetric] sample_settled_entries
    by (simp add: sample_settled_rows_def)
  then show "finalized_at sample_store sample_content sample_settled_db k =
      map_of (map (\<lambda>p. (finalized_key p, p)) sample_settled_rows) k"
    by (cases "map_of (map (\<lambda>p. (finalized_key p, p)) sample_settled_rows) k")
      (simp_all add: tables_at_def row_at_def sample_content_def sample_de)
qed

lemma sample_settled_db_ok: "db_ok sample_store sample_content sample_settled_db"
proof (rule db_ok_other [OF sample_db_ok])
  have "row_codec (c_finalized sample_store) (\<lambda>_. de (c_finalized sample_store))
      (\<lambda>_ v. expect (de (c_finalized sample_store) v)) finalized_key (\<lambda>_. True)"
    by (rule row_codecs [OF sample_codecs_ok])
  then have "finalized_ok sample_store sample_content sample_settled_db"
    unfolding finalized_ok_def table_ok_def
    by (auto simp: sample_sled_ok [unfolded sample_content_def] sample_content_def sample_settled_db_def sample_db_def
        sample_settled_rows_def sample_de split: if_splits)
  then show "sample_settled_db FinalizedPegoutIds = sample_db FinalizedPegoutIds \<or>
      finalized_ok sample_store sample_content sample_settled_db" ..
qed (simp_all add: sample_settled_db_def)

lemma sample_settled_read:
  "get_finalized_pegout_ids sample_store sample_settled_db = (Ok sample_settled_rows, sample_settled_db)"
proof -
  have "sl_iter sample_store (sample_settled_db FinalizedPegoutIds) =
      map Ok (map (\<lambda>p. (finalized_key p, BFinalized p)) sample_settled_rows)"
    by (simp add: sample_store_def sample_settled_entries)
  then show ?thesis
    by (simp add: get_finalized_pegout_ids_def collect_rows_def sample_de sample_settled_rows_def)
qed

theorem finalized_stream_is_complete_witness:
  "\<exists>cs. get_finalized_pegout_ids_stream sample_store 2 (\<lambda>_. sample_settled_db FinalizedPegoutIds) sample_settled_db =
      map (\<lambda>i. Ok (cs ! i, of_nat i, 2)) [0..<length cs] \<and>
    concat cs = [sample_settled 1 (Some 100), sample_settled 2 (Some 7900000), sample_settled 3 None] \<and> length cs = 2"
proof -
  have "\<exists>b. sl_get sample_store (sample_settled_db FinalizedPegoutIds) k = Ok b" for k
    by (simp add: sample_store_def)
  moreover have "\<exists>p. de (c_finalized sample_store) v = Some p"
    if "sample_content (sample_settled_db FinalizedPegoutIds) k = Some v" for k v
    using that unfolding sample_content_def map_of_entries [symmetric] sample_settled_entries
    by (auto simp: sample_de dest!: map_of_SomeD)
  ultimately show ?thesis
    using finalized_stream_is_complete [OF sample_settled_db_ok _ sample_settled_read, of 2 "\<lambda>_. sample_settled_db FinalizedPegoutIds"]
    by (auto simp: sample_settled_rows_def div_ceil_def)
qed

section \<open>Pruning\<close>

lemma pruned_Some_iff:
  "pruned now p = Some q \<longleftrightarrow>
     (case fp_timestamp p of None \<Rightarrow> q = p\<lparr>fp_timestamp := Some now\<rparr>
      | Some t \<Rightarrow> q = p \<and> unat now \<le> unat t + 90 * 24 * 60 * 60)"
proof -
  have "unat RETENTION_WINDOW_SECONDS = 90 * 24 * 60 * 60" by (simp add: RETENTION_WINDOW_SECONDS_def)
  then have "t < saturating_sub now RETENTION_WINDOW_SECONDS \<longleftrightarrow> \<not> unat now \<le> unat t + 90 * 24 * 60 * 60" for t
    by (simp add: word_less_nat_alt unat_saturating_sub less_diff_conv not_le)
  then show ?thesis by (auto simp: pruned_def split: option.splits)
qed

text \<open>
  (C33) Pruning at time \<open>now\<close> keeps exactly the finalized pegouts whose timestamp is at most 90 days
  old, stamps those without a timestamp with \<open>now\<close>, and touches nothing else; doing it again at
  the same time changes nothing.
\<close>

theorem prune_keeps_retention_window:
  assumes "db_ok S content db" and "prune_finalized_pegout_ids S (Some now) db = (Ok (), db')"
  shows "(\<forall>k q. finalized_at S content db' k = Some q \<longleftrightarrow>
      (\<exists>p. finalized_at S content db k = Some p \<and>
         (case fp_timestamp p of None \<Rightarrow> q = p\<lparr>fp_timestamp := Some now\<rparr>
          | Some t \<Rightarrow> q = p \<and> unat now \<le> unat t + 90 * 24 * 60 * 60))) \<and>
    changes_only FinalizedPegoutIds db db' \<and>
    (\<forall>db''. prune_finalized_pegout_ids S (Some now) db' = (Ok (), db'') \<longrightarrow>
       finalized_at S content db'' = finalized_at S content db')"
proof -
  have at: "db_ok S content b \<and> changes_only FinalizedPegoutIds a b \<and>
      finalized_at S content b = (\<lambda>k. Option.bind (finalized_at S content a k) (pruned now))"
    if "db_ok S content a" "prune_finalized_pegout_ids S (Some now) a = (Ok (), b)" for a b
    using wp_Ok [OF wp_prune [OF that(1)] that(2)] by simp
  note first = at [OF assms]
  have "pruned now q = Some q" if "pruned now p = Some q" for p q
    using that by (auto simp: pruned_Some_iff split: option.splits)
  then have "Option.bind (Option.bind x (pruned now)) (pruned now) = Option.bind x (pruned now)" for x
    by (cases x; cases "pruned now (the x)") simp_all
  with first at [of db'] have "finalized_at S content db'' = finalized_at S content db'"
    if "prune_finalized_pegout_ids S (Some now) db' = (Ok (), db'')" for db''
    using that by simp
  with first show ?thesis by (simp add: bind_eq_Some_conv pruned_Some_iff)
qed

theorem prune_keeps_retention_window_witness:
  "\<exists>db'. prune_finalized_pegout_ids sample_store (Some 8000000) sample_settled_db = (Ok (), db') \<and>
     finalized_at sample_store sample_content db' (finalized_key (sample_settled 1 None)) = None \<and>
     finalized_at sample_store sample_content db' (finalized_key (sample_settled 2 None)) = Some (sample_settled 2 (Some 7900000)) \<and>
     finalized_at sample_store sample_content db' (finalized_key (sample_settled 3 None)) = Some (sample_settled 3 (Some 8000000))"
proof -
  obtain db' where run: "prune_finalized_pegout_ids sample_store (Some 8000000) sample_settled_db = (Ok (), db')"
    by (simp add: prune_finalized_pegout_ids_def bind_eff_def lift_result_def transaction_eff_def sample_settled_read)
      (simp add: sample_settled_rows_def sample_settled_def prune_row_def insert_row_def bind_eff_def return_eff_def
        lift_result_def tree_insert_def tree_remove_def write_tree_def sample_store_def saturating_sub_def RETENTION_WINDOW_SECONDS_def)
  have at: "finalized_at sample_store sample_content sample_settled_db (finalized_key (sample_settled i None)) = Some p"
    if "(i, p) \<in> {(1, sample_settled 1 (Some 100)), (2, sample_settled 2 (Some 7900000)), (3, sample_settled 3 None)}" for i p
    unfolding sample_settled_at using that
    by (auto simp: sample_settled_rows_def sample_settled_keys be_bytes_u32_def)
  have stamps: "fp_timestamp (sample_settled i ts) = ts" "sample_settled i ts\<lparr>fp_timestamp := t\<rparr> = sample_settled i t" for i ts t
    by (simp_all add: sample_settled_def)
  note kept = prune_keeps_retention_window [OF sample_settled_db_ok run, THEN conjunct1, rule_format]
  have "finalized_at sample_store sample_content db' (finalized_key (sample_settled 1 None)) = None"
    using kept [of "finalized_key (sample_settled 1 None)"] at [of 1 "sample_settled 1 (Some 100)"]
    by (cases "finalized_at sample_store sample_content db' (finalized_key (sample_settled 1 None))") (auto simp: stamps)
  moreover have "finalized_at sample_store sample_content db' (finalized_key (sample_settled 2 None)) = Some (sample_settled 2 (Some 7900000))"
    using at [of 2 "sample_settled 2 (Some 7900000)"] by (simp add: kept stamps)
  moreover have "finalized_at sample_store sample_content db' (finalized_key (sample_settled 3 None)) = Some (sample_settled 3 (Some 8000000))"
    using at [of 3 "sample_settled 3 None"] by (simp add: kept stamps)
  ultimately show ?thesis using run by blast
qed

end
