(* ===== verification/KeyPackages.thy ===== *)
theory KeyPackages
  imports BtcDbProps
begin

text \<open>
  The parts of the database that hold keys and signing sessions (\<open>btc-server/src/database/mod.rs\<close>):
  the key packages of each multisig, the migration of the single legacy package, its encrypted
  export and import, the packages of the two rounds of key generation and the sessions of partially
  signed transactions. The cipher and the transcript that derives its keys are a parameter.
\<close>

section \<open>Packages by multisig\<close>

definition TREE_PUBKEY_PACKAGE :: "u8 list" where "TREE_PUBKEY_PACKAGE = bytes_of ''pubpk''"
definition TREE_KEY_PACKAGE :: "u8 list" where "TREE_KEY_PACKAGE = bytes_of ''keypk''"
definition LEGACY_MULTISIG_ID :: u32 where "LEGACY_MULTISIG_ID = 0"

text \<open>A lookup that decodes the value it finds.\<close>

definition read_row ::
    "('t, 'b, 'e, 'kp, 'pp) store \<Rightarrow> tree_id \<Rightarrow> ('v, 'b) codec \<Rightarrow> u8 list \<Rightarrow> ('t db, 'e db_error, 'v option) eff" where
  "read_row S T c k = bind_eff (tree_get S T k) (\<lambda>b. case b of
     Some b \<Rightarrow> bind_eff (lift_result (ok_or DataCorruption (de c b))) (\<lambda>ret. return_eff (Some ret))
   | None \<Rightarrow> return_eff None)"

text \<open>A write whose encoder panics when it fails.\<close>

definition write_row ::
    "('t, 'b, 'e, 'kp, 'pp) store \<Rightarrow> tree_id \<Rightarrow> ('v, 'b) codec \<Rightarrow> u8 list \<Rightarrow> 'v \<Rightarrow> ('t db, 'e db_error, unit) eff" where
  "write_row S T c k v = bind_eff (lift_result (expect (ser c v))) (\<lambda>bytes. tree_insert S T k bytes)"

definition get_legacy_public_key_package ::
    "('t, 'b, 'e, 'kp, 'pp) store \<Rightarrow> ('t db, 'e db_error, 'pp option) eff" where
  "get_legacy_public_key_package S = read_row S DefaultTree (c_pubkey S) TREE_PUBKEY_PACKAGE"

definition get_legacy_key_package ::
    "('t, 'b, 'e, 'kp, 'pp) store \<Rightarrow> ('t db, 'e db_error, 'kp option) eff" where
  "get_legacy_key_package S = read_row S DefaultTree (c_key S) TREE_KEY_PACKAGE"

definition get_key_package_by_id ::
    "('t, 'b, 'e, 'kp, 'pp) store \<Rightarrow> u32 \<Rightarrow> ('t db, 'e db_error, 'kp option) eff" where
  "get_key_package_by_id S multisig_id = read_row S KeyPackages (c_key S) (le_bytes_u32 multisig_id)"

definition get_public_key_package_by_id ::
    "('t, 'b, 'e, 'kp, 'pp) store \<Rightarrow> u32 \<Rightarrow> ('t db, 'e db_error, 'pp option) eff" where
  "get_public_key_package_by_id S multisig_id = read_row S PubkeyPackages (c_pubkey S) (le_bytes_u32 multisig_id)"

definition set_key_package_by_id ::
    "('t, 'b, 'e, 'kp, 'pp) store \<Rightarrow> u32 \<Rightarrow> 'kp \<Rightarrow> ('t db, 'e db_error, unit) eff" where
  "set_key_package_by_id S multisig_id key_package =
     write_row S KeyPackages (c_key S) (le_bytes_u32 multisig_id) key_package"

definition set_pubkey_package_by_id ::
    "('t, 'b, 'e, 'kp, 'pp) store \<Rightarrow> u32 \<Rightarrow> 'pp \<Rightarrow> ('t db, 'e db_error, unit) eff" where
  "set_pubkey_package_by_id S multisig_id pk_package =
     write_row S PubkeyPackages (c_pubkey S) (le_bytes_u32 multisig_id) pk_package"

definition get_public_key_package ::
    "('t, 'b, 'e, 'kp, 'pp) store \<Rightarrow> ('t db, 'e db_error, 'pp option) eff" where
  "get_public_key_package S = get_public_key_package_by_id S LEGACY_MULTISIG_ID"

definition get_key_package ::
    "('t, 'b, 'e, 'kp, 'pp) store \<Rightarrow> ('t db, 'e db_error, 'kp option) eff" where
  "get_key_package S = get_key_package_by_id S LEGACY_MULTISIG_ID"

definition set_key_package ::
    "('t, 'b, 'e, 'kp, 'pp) store \<Rightarrow> 'kp \<Rightarrow> ('t db, 'e db_error, unit) eff" where
  "set_key_package S = set_key_package_by_id S LEGACY_MULTISIG_ID"

definition set_pubkey_package ::
    "('t, 'b, 'e, 'kp, 'pp) store \<Rightarrow> 'pp \<Rightarrow> ('t db, 'e db_error, unit) eff" where
  "set_pubkey_package S = set_pubkey_package_by_id S LEGACY_MULTISIG_ID"

definition list_multisig_ids :: "('t, 'b, 'e, 'kp, 'pp) store \<Rightarrow> ('t db, 'e db_error, u32 list) eff" where
  "list_multisig_ids S = bind_eff (collect_rows S KeyPackages (\<lambda>key_bytes _.
       if length key_bytes \<noteq> 4 then Err (InvalidMultisigIdKeyLength (length key_bytes))
       else ok_or Serialization (u32_from_le_bytes key_bytes)))
     (\<lambda>ids. return_eff (sort ids))"

definition migrate_legacy_key_package ::
    "('t, 'b, 'e, 'kp, 'pp) store \<Rightarrow> ('t db, 'e db_error, bool) eff" where
  "migrate_legacy_key_package S =
     bind_eff (get_key_package_by_id S LEGACY_MULTISIG_ID) (\<lambda>k.
     bind_eff (if k \<noteq> None then get_public_key_package_by_id S LEGACY_MULTISIG_ID else return_eff None) (\<lambda>p.
     if k \<noteq> None \<and> p \<noteq> None then return_eff False
     else
       bind_eff (get_legacy_key_package S) (\<lambda>legacy_key_package.
       bind_eff (get_legacy_public_key_package S) (\<lambda>legacy_pubkey_package.
       case (legacy_key_package, legacy_pubkey_package) of
         (Some key_package, Some pk_package) \<Rightarrow>
           bind_eff (set_key_package_by_id S LEGACY_MULTISIG_ID key_package) (\<lambda>_.
           bind_eff (set_pubkey_package_by_id S LEGACY_MULTISIG_ID pk_package) (\<lambda>_.
           return_eff True))
       | _ \<Rightarrow> return_eff False))))"

section \<open>Export and import\<close>

definition EXPORTED_PACKAGE_VERSION :: u16 where "EXPORTED_PACKAGE_VERSION = 0"

record 'c exported_key_package =
  ex_version :: u16
  ex_iv :: "u8 list"
  enc_key_package :: 'c
  enc_pk_package :: 'c

text \<open>The Merlin transcript and ChaCha20-Poly1305. A challenge also advances the transcript.
  \<open>'b\<close> is the type of the encoded packages and \<open>'c\<close> that of their ciphertexts.\<close>

record ('tr, 'b, 'c) cipher =
  transcript_new :: "u8 list \<Rightarrow> 'tr"
  append_message :: "'tr \<Rightarrow> u8 list \<Rightarrow> u8 list \<Rightarrow> 'tr"
  challenge_bytes :: "'tr \<Rightarrow> u8 list \<Rightarrow> u8 list \<times> 'tr"
  encrypt :: "u8 list \<Rightarrow> u8 list \<Rightarrow> 'b \<Rightarrow> 'c"
  decrypt :: "u8 list \<Rightarrow> u8 list \<Rightarrow> 'c \<Rightarrow> 'b option"

definition cipher_ok :: "('tr, 'b, 'c) cipher \<Rightarrow> bool" where
  "cipher_ok C \<longleftrightarrow> (\<forall>key nonce m. decrypt C key nonce (encrypt C key nonce m) = Some m)"

definition export_transcript :: "('tr, 'b, 'c) cipher \<Rightarrow> u8 list \<Rightarrow> u8 list \<Rightarrow> 'tr" where
  "export_transcript C nonce passphrase =
     append_message C
       (append_message C (transcript_new C (bytes_of ''Botanix_Macbeth_BtcServer_ExportedKeyPackage''))
          (bytes_of ''salt'') nonce)
       (bytes_of ''passphrase'') passphrase"

definition export_key_package_by_id ::
    "('t, 'b, 'e, 'kp, 'pp) store \<Rightarrow> ('tr, 'b, 'c) cipher \<Rightarrow> u8 list \<Rightarrow> u32 \<Rightarrow> u8 list \<Rightarrow>
     ('t db, 'e db_error, 'c exported_key_package option) eff" where
  "export_key_package_by_id S C random_iv multisig_id passphrase =
     bind_eff (get_key_package_by_id S multisig_id) (\<lambda>k. case k of
       None \<Rightarrow> return_eff None
     | Some key_package \<Rightarrow>
         bind_eff (get_public_key_package_by_id S multisig_id) (\<lambda>p. case p of
           None \<Rightarrow> return_eff None
         | Some pk_package \<Rightarrow>
             bind_eff (lift_result (expect (ser (c_key S) key_package))) (\<lambda>key_package_bytes.
             bind_eff (lift_result (expect (ser (c_pubkey S) pk_package))) (\<lambda>pk_package_bytes.
             let (master, t) = challenge_bytes C (export_transcript C random_iv passphrase) (bytes_of ''secret_key_package'');
                 enc_key = encrypt C master random_iv key_package_bytes;
                 (master', t') = challenge_bytes C t (bytes_of ''public_key_package'');
                 enc_pk = encrypt C master' random_iv pk_package_bytes
             in return_eff (Some \<lparr>ex_version = EXPORTED_PACKAGE_VERSION, ex_iv = random_iv,
                  enc_key_package = enc_key, enc_pk_package = enc_pk\<rparr>)))))"

definition import_key_package_by_id ::
    "('t, 'b, 'e, 'kp, 'pp) store \<Rightarrow> ('tr, 'b, 'c) cipher \<Rightarrow> u32 \<Rightarrow> u8 list \<Rightarrow> 'c exported_key_package \<Rightarrow>
     ('t db, 'e db_error, unit) eff" where
  "import_key_package_by_id S C multisig_id passphrase export =
     (if ex_version export \<noteq> EXPORTED_PACKAGE_VERSION then raise_eff BadExportedPackageFormatVersion
      else
        let nonce = ex_iv export;
            (master, t) = challenge_bytes C (export_transcript C nonce passphrase) (bytes_of ''secret_key_package'')
        in
        bind_eff (lift_result (ok_or BadDecryptionPassphrase (decrypt C master nonce (enc_key_package export)))) (\<lambda>b.
        bind_eff (lift_result (ok_or DataCorruption (de (c_key S) b))) (\<lambda>key_package.
        let (master', t') = challenge_bytes C t (bytes_of ''public_key_package'') in
        bind_eff (lift_result (ok_or BadDecryptionPassphrase (decrypt C master' nonce (enc_pk_package export)))) (\<lambda>b'.
        bind_eff (lift_result (ok_or DataCorruption (de (c_pubkey S) b'))) (\<lambda>pk_package.
        bind_eff (set_key_package_by_id S multisig_id key_package) (\<lambda>_.
        set_pubkey_package_by_id S multisig_id pk_package))))))"

definition export_key_package where
  "export_key_package S C random_iv passphrase = export_key_package_by_id S C random_iv LEGACY_MULTISIG_ID passphrase"

definition import_key_package where
  "import_key_package S C passphrase export = import_key_package_by_id S C LEGACY_MULTISIG_ID passphrase export"

section \<open>Rounds of key generation\<close>

text \<open>\<open>size_of\<close> is the length of the bytes written. A package that is already there is kept.\<close>

definition add_dkg ::
    "('t, 'b, 'e, 'kp, 'pp) store \<Rightarrow> ('b \<Rightarrow> nat) \<Rightarrow> tree_id \<Rightarrow> ('r, 'b) codec \<Rightarrow> ('id \<Rightarrow> u8 list) \<Rightarrow> 'id \<Rightarrow> 'r \<Rightarrow>
     ('t db, 'e db_error, nat) eff" where
  "add_dkg S size_of T c id_ser peer_id package =
     bind_eff (tree_contains_key S T (id_ser peer_id)) (\<lambda>known.
       if known then return_eff 0
       else bind_eff (lift_result (ok_or CiboriumWrite (ser c package))) (\<lambda>bytes.
            bind_eff (tree_insert S T (id_ser peer_id) bytes) (\<lambda>_. return_eff (size_of bytes))))"

definition add_round1_dkg where
  "add_round1_dkg S size_of c id_ser peer_id package = add_dkg S size_of Round1DkgPackages c id_ser peer_id package"

definition add_round2_dkg where
  "add_round2_dkg S size_of c id_ser peer_id package = add_dkg S size_of Round2DkgPackages c id_ser peer_id package"

definition get_dkg_packages ::
    "('t, 'b, 'e, 'kp, 'pp) store \<Rightarrow> tree_id \<Rightarrow> ('r, 'b) codec \<Rightarrow> (u8 list \<Rightarrow> 'id option) \<Rightarrow>
     ('t db, 'e db_error, ('id \<times> 'r) list) eff" where
  "get_dkg_packages S T c id_de =
     bind_eff (collect_rows S T (\<lambda>k v.
         if length k \<noteq> 32 then Err Serialization
         else bind_result (ok_or FrostSerialization (id_de k)) (\<lambda>peer_id.
              bind_result (ok_or DataCorruption (de c v)) (\<lambda>package. Ok (peer_id, package)))))
       (\<lambda>rows. return_eff (fold (\<lambda>(i, p) ret. AList.update i p ret) rows []))"

definition get_round1_dkg_packages where
  "get_round1_dkg_packages S c id_de = get_dkg_packages S Round1DkgPackages c id_de"

definition get_round2_dkg_packages where
  "get_round2_dkg_packages S c id_de = get_dkg_packages S Round2DkgPackages c id_de"

section \<open>Signing sessions\<close>

datatype signing_status = SigningRunning | SigningFinalized | SigningFailed

definition update_psbt ::
    "('t, 'b, 'e, 'kp, 'pp) store \<Rightarrow> ('b \<Rightarrow> nat) \<Rightarrow> ('ps, 'b) codec \<Rightarrow> ('ps \<Rightarrow> 'ps \<Rightarrow> 'ps option) \<Rightarrow> u8 list \<Rightarrow> 'ps \<Rightarrow>
     ('t db, 'e db_error, nat) eff" where
  "update_psbt S size_of c combine_psbt signing_session_id psbt =
     bind_eff (tree_get S PsbtTree signing_session_id) (\<lambda>old.
     bind_eff (case old of
         Some b \<Rightarrow>
           bind_eff (lift_result (ok_or DataCorruption (de c b))) (\<lambda>existing_psbt.
           bind_eff (lift_result (ok_or PsbtError (combine_psbt existing_psbt psbt))) (\<lambda>merged.
           lift_result (expect (ser c merged))))
       | None \<Rightarrow> lift_result (expect (ser c psbt))) (\<lambda>bytes.
     bind_eff (tree_insert S PsbtTree signing_session_id bytes) (\<lambda>_. return_eff (size_of bytes))))"

definition get_psbt ::
    "('t, 'b, 'e, 'kp, 'pp) store \<Rightarrow> ('ps, 'b) codec \<Rightarrow> u8 list \<Rightarrow> ('t db, 'e db_error, 'ps option) eff" where
  "get_psbt S c signing_session_id = read_row S PsbtTree c signing_session_id"

fun session_loop :: "u32 \<Rightarrow> u32 \<Rightarrow> ('e, u8 list \<times> 'b) result list \<Rightarrow> ('e db_error, u8 list list) result" where
  "session_loop max_results results [] = Ok []"
| "session_loop max_results results (res # rest) =
     bind_result (map_err Db res) (\<lambda>(k, _).
       if length k \<noteq> 32 then Err Serialization
       else if max_results = results + 1 then Ok []
       else bind_result (session_loop max_results (results + 1) rest) (\<lambda>ret. Ok (k # ret)))"

definition get_session_ids ::
    "('t, 'b, 'e, 'kp, 'pp) store \<Rightarrow> u32 \<Rightarrow> ('t db, 'e db_error, u8 list list) eff" where
  "get_session_ids S max_results db = (session_loop max_results 0 (sl_iter S (db PsbtTree)), db)"

definition get_signing_status ::
    "('t, 'b, 'e, 'kp, 'pp) store \<Rightarrow> ('ps, 'b) codec \<Rightarrow> ('ps \<Rightarrow> bool) \<Rightarrow> u8 list \<Rightarrow> ('t db, 'e db_error, signing_status) eff" where
  "get_signing_status S c finalizes signing_session_id =
     bind_eff (get_psbt S c signing_session_id) (\<lambda>p. case p of
       Some psbt \<Rightarrow> return_eff (if finalizes psbt then SigningFinalized else SigningRunning)
     | None \<Rightarrow> return_eff SigningFailed)"

section \<open>Lemmas\<close>

definition value_at :: "('t \<Rightarrow> u8 list \<Rightarrow> 'b option) \<Rightarrow> tree_id \<Rightarrow> ('v, 'b) codec \<Rightarrow> 't db \<Rightarrow> u8 list \<Rightarrow> 'v option" where
  "value_at content T c db k = Option.bind (content (db T) k) (de c)"

definition key_package_at where
  "key_package_at S content db i = value_at content KeyPackages (c_key S) db (le_bytes_u32 i)"

definition pubkey_package_at where
  "pubkey_package_at S content db i = value_at content PubkeyPackages (c_pubkey S) db (le_bytes_u32 i)"

lemma le_bytes_u32_inj: "le_bytes_u32 a = le_bytes_u32 b \<longleftrightarrow> a = b"
  by (metis option.inject u32_le_roundtrip)

lemma wp_read_row:
  assumes "sled_ok S content" and "Q (value_at content T c db k) db" and "E db"
  shows "wp (read_row S T c k) Q E db"
  unfolding read_row_def wp_bind
  by (rule wp_tree_get [OF assms(1)])
    (use assms(2,3) in \<open>auto simp: wp_simps value_at_def split: option.splits result.splits, auto simp: result_simps\<close>)

lemma read_row_Ok:
  assumes "sled_ok S content" and "read_row S T c k db = (r, db')"
  shows "db' = db" and "r = Ok v \<Longrightarrow> v = value_at content T c db k"
proof -
  have "wp (read_row S T c k) (\<lambda>v db'. db' = db \<and> v = value_at content T c db k) (\<lambda>db'. db' = db) db"
    by (rule wp_read_row [OF assms(1)]) simp_all
  with assms(2) show "db' = db" "r = Ok v \<Longrightarrow> v = value_at content T c db k"
    by (auto simp: wp_def split: result.splits)
qed

lemma wp_write_row:
  assumes "sled_ok S content" and "codec_ok c" and "ser c v \<noteq> None"
  shows "wp (write_row S T c k v) (\<lambda>_ db'. changes_only T db db' \<and>
      (\<forall>k'. value_at content T c db' k' = (if k' = k then Some v else value_at content T c db k')))
    (\<lambda>db'. db' = db) db"
proof -
  from assms(3) obtain b where b: "ser c v = Some b" by auto
  with assms(2) have "de c b = Some v" by (simp add: codec_ok_def)
  with b show ?thesis
    by (auto simp: write_row_def wp_simps value_at_def intro!: wp_tree_insert [OF assms(1)])
qed

lemma write_row_Err:
  assumes "ser c v \<noteq> None" and "write_row S T c k v db = (Err e, db')"
  shows "\<exists>e'. e = Db e'"
  using assms by (auto simp: write_row_def bind_eff_def lift_result_def tree_insert_def write_tree_def
      split: result.splits prod.splits)

lemma codecs_okD:
  assumes "codecs_ok S"
  shows "codec_ok (c_key S)" "codec_ok (c_pubkey S)" "ser (c_key S) k \<noteq> None" "ser (c_pubkey S) p \<noteq> None"
  using assms by (simp_all add: codecs_ok_def)

text \<open>Writing both packages of a multisig.\<close>

lemma set_packages:
  assumes "sled_ok S content" and "codecs_ok S"
  shows "wp (bind_eff (set_key_package_by_id S i k) (\<lambda>_. set_pubkey_package_by_id S i p))
    (\<lambda>_ db'. changes_in {KeyPackages, PubkeyPackages} db db' \<and>
      key_package_at S content db' = (key_package_at S content db)(i \<mapsto> k) \<and>
      pubkey_package_at S content db' = (pubkey_package_at S content db)(i \<mapsto> p))
    (changes_in {KeyPackages} db) db"
  unfolding wp_bind set_key_package_by_id_def set_pubkey_package_by_id_def
proof (rule wp_mono [OF wp_write_row [OF assms(1) codecs_okD(1,3) [OF assms(2)]]])
  fix a
  assume a: "changes_only KeyPackages db a \<and> (\<forall>k'. value_at content KeyPackages (c_key S) a k' =
    (if k' = le_bytes_u32 i then Some k else value_at content KeyPackages (c_key S) db k'))"
  show "wp (write_row S PubkeyPackages (c_pubkey S) (le_bytes_u32 i) p)
      (\<lambda>_ db'. changes_in {KeyPackages, PubkeyPackages} db db' \<and>
        key_package_at S content db' = (key_package_at S content db)(i \<mapsto> k) \<and>
        pubkey_package_at S content db' = (pubkey_package_at S content db)(i \<mapsto> p))
      (changes_in {KeyPackages} db) a"
  proof (rule wp_mono [OF wp_write_row [OF assms(1) codecs_okD(2,4) [OF assms(2)]]])
    fix b
    assume b: "changes_only PubkeyPackages a b \<and> (\<forall>k'. value_at content PubkeyPackages (c_pubkey S) b k' =
      (if k' = le_bytes_u32 i then Some p else value_at content PubkeyPackages (c_pubkey S) a k'))"
    have "a PubkeyPackages = db PubkeyPackages" "b KeyPackages = a KeyPackages"
      using a b by (simp_all add: changes_only_def)
    then have "value_at content PubkeyPackages (c_pubkey S) a = value_at content PubkeyPackages (c_pubkey S) db"
      "value_at content KeyPackages (c_key S) b = value_at content KeyPackages (c_key S) a"
      by (simp_all add: value_at_def fun_eq_iff)
    with a b show "changes_in {KeyPackages, PubkeyPackages} db b \<and>
        key_package_at S content b = (key_package_at S content db)(i \<mapsto> k) \<and>
        pubkey_package_at S content b = (pubkey_package_at S content db)(i \<mapsto> p)"
      by (simp add: changes_in_def changes_only_def key_package_at_def [abs_def] pubkey_package_at_def [abs_def]
          fun_eq_iff le_bytes_u32_inj)
  qed (use a in \<open>auto intro: changes_only_in\<close>)
qed simp

section \<open>Properties\<close>

lemma export_Some:
  assumes sled: "sled_ok S content" and codecs: "codecs_ok S"
    and run: "export_key_package_by_id S C iv i passphrase db = (Ok (Some ex), db')"
  obtains k p kb pb m t m' t' where "key_package_at S content db i = Some k" "pubkey_package_at S content db i = Some p"
    "ser (c_key S) k = Some kb" "ser (c_pubkey S) p = Some pb"
    "challenge_bytes C (export_transcript C iv passphrase) (bytes_of ''secret_key_package'') = (m, t)"
    "challenge_bytes C t (bytes_of ''public_key_package'') = (m', t')"
    "ex = \<lparr>ex_version = EXPORTED_PACKAGE_VERSION, ex_iv = iv, enc_key_package = encrypt C m iv kb,
       enc_pk_package = encrypt C m' iv pb\<rparr>"
proof -
  obtain rk dk where rk: "get_key_package_by_id S i db = (rk, dk)" by fastforce
  obtain rp dp where rp: "get_public_key_package_by_id S i db = (rp, dp)" by fastforce
  have dk: "dk = db" and vk: "\<And>v. rk = Ok v \<Longrightarrow> v = key_package_at S content db i"
    using read_row_Ok [OF sled rk [unfolded get_key_package_by_id_def]] by (simp_all add: key_package_at_def)
  have vp: "\<And>v. rp = Ok v \<Longrightarrow> v = pubkey_package_at S content db i"
    using read_row_Ok [OF sled rp [unfolded get_public_key_package_by_id_def]] by (simp add: pubkey_package_at_def)
  from run rk dk obtain k where k: "rk = Ok (Some k)"
    by (auto simp: export_key_package_by_id_def bind_eff_def return_eff_def split: result.splits option.splits)
  with run rk dk rp obtain p where p: "rp = Ok (Some p)"
    by (auto simp: export_key_package_by_id_def bind_eff_def return_eff_def split: result.splits option.splits)
  obtain kb pb where b: "ser (c_key S) k = Some kb" "ser (c_pubkey S) p = Some pb"
    using codecs_okD(3) [OF codecs, of k] codecs_okD(4) [OF codecs, of p] by auto
  obtain m t where m: "challenge_bytes C (export_transcript C iv passphrase) (bytes_of ''secret_key_package'') = (m, t)"
    by fastforce
  obtain m' t' where m': "challenge_bytes C t (bytes_of ''public_key_package'') = (m', t')" by fastforce
  from run have "ex = \<lparr>ex_version = EXPORTED_PACKAGE_VERSION, ex_iv = iv, enc_key_package = encrypt C m iv kb,
       enc_pk_package = encrypt C m' iv pb\<rparr>"
    by (simp add: export_key_package_by_id_def bind_eff_def rk k dk rp p lift_result_def b Let_def m m' return_eff_def)
  then show ?thesis by (rule that [OF vk [OF k, symmetric] vp [OF p, symmetric] b m m'])
qed

text \<open>
  (C31) What a server exports another imports: with the same passphrase, importing an export never
  fails for the passphrase or the data, and once it succeeds the target multisig has exactly the
  secret and public packages that were exported, all other multisigs being left alone. A storage
  error is the only way it can fail.
\<close>

theorem export_import_roundtrip:
  assumes "sled_ok S content" and "codecs_ok S" and "cipher_ok C"
    and export: "export_key_package_by_id S C iv i passphrase db = (Ok (Some ex), db')"
    and import: "import_key_package_by_id S C j passphrase ex target = (r, target')"
  shows "(r = Ok () \<and>
      key_package_at S content target' = (key_package_at S content target)(j := key_package_at S content db i) \<and>
      pubkey_package_at S content target' = (pubkey_package_at S content target)(j := pubkey_package_at S content db i)) \<or>
    (\<exists>e. r = Err (Db e))"
proof -
  obtain k p kb pb m t m' t' where at: "key_package_at S content db i = Some k" "pubkey_package_at S content db i = Some p"
    and b: "ser (c_key S) k = Some kb" "ser (c_pubkey S) p = Some pb"
    and m: "challenge_bytes C (export_transcript C iv passphrase) (bytes_of ''secret_key_package'') = (m, t)"
      "challenge_bytes C t (bytes_of ''public_key_package'') = (m', t')"
    and ex: "ex = \<lparr>ex_version = EXPORTED_PACKAGE_VERSION, ex_iv = iv, enc_key_package = encrypt C m iv kb,
       enc_pk_package = encrypt C m' iv pb\<rparr>"
    using assms(1,2) export by (rule export_Some)
  have d: "de (c_key S) kb = Some k" "de (c_pubkey S) pb = Some p"
    using b codecs_okD(1,2) [OF assms(2)] by (simp_all add: codec_ok_def)
  have "import_key_package_by_id S C j passphrase ex =
      bind_eff (set_key_package_by_id S j k) (\<lambda>_. set_pubkey_package_by_id S j p)"
    using assms(3) by (simp add: fun_eq_iff import_key_package_by_id_def ex Let_def m cipher_ok_def bind_eff_def lift_result_def d)
  with import have run: "bind_eff (set_key_package_by_id S j k) (\<lambda>_. set_pubkey_package_by_id S j p) target = (r, target')"
    by simp
  have "r \<noteq> Panic" using wp_no_panic [OF set_packages [OF assms(1,2)], of j k p target] run by simp
  moreover have "\<exists>e'. e = Db e'" if "r = Err e" for e
    using run that write_row_Err [OF codecs_okD(3) [OF assms(2)]] write_row_Err [OF codecs_okD(4) [OF assms(2)]]
    by (auto simp: bind_eff_def set_key_package_by_id_def set_pubkey_package_by_id_def split: prod.splits result.splits)
  ultimately show ?thesis
    using wp_Ok [OF set_packages [OF assms(1,2)], of j k p target] run at by (cases r) auto
qed

definition sample_cipher :: "(u8 list, sample_bytes, u8 list \<times> sample_bytes) cipher" where
  "sample_cipher = \<lparr>transcript_new = (\<lambda>l. l), append_message = (\<lambda>t l m. t @ l @ m),
     challenge_bytes = (\<lambda>t l. (take 32 (t @ l), t @ l)),
     encrypt = (\<lambda>key nonce m. (key, m)),
     decrypt = (\<lambda>key nonce ct. if fst ct = key then Some (snd ct) else None)\<rparr>"

text \<open>The key packages of multisig 3, in two databases.\<close>

definition sample_key_db :: "(u8 list, sample_bytes) rbt db" where
  "sample_key_db = sample_db(KeyPackages := RBT.insert (le_bytes_u32 3) (BKey 7) RBT.empty,
     PubkeyPackages := RBT.insert (le_bytes_u32 3) (BKey 9) RBT.empty)"

theorem export_import_roundtrip_witness:
  "\<exists>ex target'.
     export_key_package_by_id sample_store sample_cipher [1, 2, 3] 3 [4] sample_key_db = (Ok (Some ex), sample_key_db) \<and>
     import_key_package_by_id sample_store sample_cipher 0 [4] ex sample_db = (Ok (), target') \<and>
     key_package_at sample_store sample_content target' =
       (key_package_at sample_store sample_content sample_db)(0 := key_package_at sample_store sample_content sample_key_db 3)"
proof -
  have c: "cipher_ok sample_cipher" by (simp add: cipher_ok_def sample_cipher_def)
  have "\<exists>ex. export_key_package_by_id sample_store sample_cipher [1, 2, 3] 3 [4] sample_key_db = (Ok (Some ex), sample_key_db)"
    by (simp add: export_key_package_by_id_def get_key_package_by_id_def get_public_key_package_by_id_def read_row_def
        tree_get_def bind_eff_def lift_result_def return_eff_def sample_key_db_def sample_store_def Let_def case_prod_beta)
  then obtain ex where ex: "export_key_package_by_id sample_store sample_cipher [1, 2, 3] 3 [4] sample_key_db = (Ok (Some ex), sample_key_db)" ..
  obtain r target' where run: "import_key_package_by_id sample_store sample_cipher 0 [4] ex sample_db = (r, target')" by fastforce
  have "r \<noteq> Err (Db e)" for e :: unit
    using run by (auto simp: import_key_package_by_id_def set_key_package_by_id_def set_pubkey_package_by_id_def
        write_row_def tree_insert_def write_tree_def bind_eff_def lift_result_def raise_eff_def Let_def
        sample_store_def result_simps split: prod.splits if_splits result.splits)
  with export_import_roundtrip [OF sample_sled_ok sample_codecs_ok c ex run] ex run show ?thesis by auto
qed

lemma wp_migrate:
  assumes sled: "sled_ok S content" and codecs: "codecs_ok S"
  shows "wp (migrate_legacy_key_package S) (\<lambda>migrated db'.
     if migrated
     then key_package_at S content db' = (key_package_at S content db)(0 := value_at content DefaultTree (c_key S) db TREE_KEY_PACKAGE) \<and>
       pubkey_package_at S content db' = (pubkey_package_at S content db)(0 := value_at content DefaultTree (c_pubkey S) db TREE_PUBKEY_PACKAGE) \<and>
       key_package_at S content db' 0 \<noteq> None \<and> pubkey_package_at S content db' 0 \<noteq> None \<and>
       \<not> (key_package_at S content db 0 \<noteq> None \<and> pubkey_package_at S content db 0 \<noteq> None) \<and>
       changes_in {KeyPackages, PubkeyPackages} db db'
     else db' = db \<and>
       (key_package_at S content db 0 \<noteq> None \<and> pubkey_package_at S content db 0 \<noteq> None \<or>
        value_at content DefaultTree (c_key S) db TREE_KEY_PACKAGE = None \<or>
        value_at content DefaultTree (c_pubkey S) db TREE_PUBKEY_PACKAGE = None)) (\<lambda>_. True) db"
    (is "wp _ ?Q _ db")
proof -
  define Q where "Q = ?Q"
  let ?lk = "value_at content DefaultTree (c_key S) db TREE_KEY_PACKAGE"
    and ?lp = "value_at content DefaultTree (c_pubkey S) db TREE_PUBKEY_PACKAGE"
    and ?k = "key_package_at S content db 0" and ?p = "pubkey_package_at S content db 0"
  have copy: "wp (case (?lk, ?lp) of
      (Some key_package, Some pk_package) \<Rightarrow>
        bind_eff (set_key_package_by_id S 0 key_package) (\<lambda>_.
        bind_eff (set_pubkey_package_by_id S 0 pk_package) (\<lambda>_. return_eff True))
    | _ \<Rightarrow> return_eff False) Q (\<lambda>_. True) db" if "\<not> (?k \<noteq> None \<and> ?p \<noteq> None)"
  proof (cases ?lk; cases ?lp)
    fix k p
    assume kp: "?lk = Some k" "?lp = Some p"
    have "wp (bind_eff (set_key_package_by_id S 0 k) (\<lambda>_. set_pubkey_package_by_id S 0 p)) (\<lambda>_. Q True) (\<lambda>_. True) db"
      by (rule wp_mono [OF set_packages [OF sled codecs]]) (use that kp in \<open>auto simp: Q_def\<close>)
    then show ?thesis unfolding kp by (simp add: wp_bind wp_return)
  qed (simp_all add: wp_simps Q_def)
  have rest: "wp (if ?k \<noteq> None \<and> (if ?k \<noteq> None then ?p else None) \<noteq> None then return_eff False
     else
       bind_eff (get_legacy_key_package S) (\<lambda>legacy_key_package.
       bind_eff (get_legacy_public_key_package S) (\<lambda>legacy_pubkey_package.
       case (legacy_key_package, legacy_pubkey_package) of
         (Some key_package, Some pk_package) \<Rightarrow>
           bind_eff (set_key_package_by_id S 0 key_package) (\<lambda>_.
           bind_eff (set_pubkey_package_by_id S 0 pk_package) (\<lambda>_. return_eff True))
       | _ \<Rightarrow> return_eff False))) Q (\<lambda>_. True) db"
  proof (cases "?k \<noteq> None \<and> ?p \<noteq> None")
    case True
    then show ?thesis by (simp add: wp_simps Q_def)
  next
    case False
    then show ?thesis
      unfolding get_legacy_key_package_def get_legacy_public_key_package_def
      using copy by (auto simp: wp_bind intro!: wp_read_row [OF sled])
  qed
  show ?thesis
    unfolding Q_def [symmetric] migrate_legacy_key_package_def get_key_package_by_id_def get_public_key_package_by_id_def
      LEGACY_MULTISIG_ID_def wp_bind
  proof (rule wp_read_row [OF sled])
    show "wp (if value_at content KeyPackages (c_key S) db (le_bytes_u32 0) \<noteq> None
        then read_row S PubkeyPackages (c_pubkey S) (le_bytes_u32 0) else return_eff None)
      (\<lambda>p. wp (if value_at content KeyPackages (c_key S) db (le_bytes_u32 0) \<noteq> None \<and> p \<noteq> None then return_eff False
        else
          bind_eff (get_legacy_key_package S) (\<lambda>legacy_key_package.
          bind_eff (get_legacy_public_key_package S) (\<lambda>legacy_pubkey_package.
          case (legacy_key_package, legacy_pubkey_package) of
            (Some key_package, Some pk_package) \<Rightarrow>
              bind_eff (set_key_package_by_id S 0 key_package) (\<lambda>_.
              bind_eff (set_pubkey_package_by_id S 0 pk_package) (\<lambda>_. return_eff True))
          | _ \<Rightarrow> return_eff False))) Q (\<lambda>_. True)) (\<lambda>_. True) db"
      using rest [unfolded key_package_at_def pubkey_package_at_def]
      by (cases "value_at content KeyPackages (c_key S) db (le_bytes_u32 0)")
        (simp_all add: wp_return wp_read_row [OF sled] key_package_at_def pubkey_package_at_def)
  qed simp
qed

text \<open>
  (C32) The migration of the legacy key package. It reports success exactly when it has copied both
  legacy packages to multisig 0; it reports that it was skipped only without changing anything,
  because both packages were already there or a legacy package is missing. Whatever it reports, the
  legacy packages and every other multisig stay as they are, and running it again after a success
  is skipped. The two packages are written one after the other, so when the storage fails in between, an
  error is reported with the first of them copied.
\<close>

theorem migration_copies_legacy_once:
  assumes sled: "sled_ok S content" and codecs: "codecs_ok S"
    and run: "migrate_legacy_key_package S db = (Ok migrated, db')"
  shows "(if migrated
     then key_package_at S content db' = (key_package_at S content db)(0 := value_at content DefaultTree (c_key S) db TREE_KEY_PACKAGE) \<and>
       pubkey_package_at S content db' = (pubkey_package_at S content db)(0 := value_at content DefaultTree (c_pubkey S) db TREE_PUBKEY_PACKAGE) \<and>
       key_package_at S content db' 0 \<noteq> None \<and> pubkey_package_at S content db' 0 \<noteq> None \<and>
       changes_in {KeyPackages, PubkeyPackages} db db' \<and>
       (\<forall>again db''. migrate_legacy_key_package S db' = (Ok again, db'') \<longrightarrow> \<not> again \<and> db'' = db')
     else db' = db \<and>
       (key_package_at S content db 0 \<noteq> None \<and> pubkey_package_at S content db 0 \<noteq> None \<or>
        value_at content DefaultTree (c_key S) db TREE_KEY_PACKAGE = None \<or>
        value_at content DefaultTree (c_pubkey S) db TREE_PUBKEY_PACKAGE = None))"
proof -
  note first = wp_Ok [OF wp_migrate [OF sled codecs] run]
  have "\<not> again \<and> db'' = db'" if "migrated" "migrate_legacy_key_package S db' = (Ok again, db'')" for again db''
    using wp_Ok [OF wp_migrate [OF sled codecs] that(2)] first that(1) by (auto split: if_splits)
  with first show ?thesis by (auto split: if_splits)
qed

definition sample_legacy_db :: "(u8 list, sample_bytes) rbt db" where
  "sample_legacy_db = sample_db(DefaultTree :=
     RBT.insert TREE_KEY_PACKAGE (BKey 7) (RBT.insert TREE_PUBKEY_PACKAGE (BKey 9) RBT.empty))"

theorem migration_copies_legacy_once_witness:
  "\<exists>db'. migrate_legacy_key_package sample_store sample_legacy_db = (Ok True, db') \<and>
     key_package_at sample_store sample_content db' 0 \<noteq> None \<and>
     pubkey_package_at sample_store sample_content db' 0 \<noteq> None"
proof -
  have "TREE_KEY_PACKAGE \<noteq> TREE_PUBKEY_PACKAGE"
    by (simp add: TREE_KEY_PACKAGE_def TREE_PUBKEY_PACKAGE_def bytes_of_def)
  then have "\<exists>db'. migrate_legacy_key_package sample_store sample_legacy_db = (Ok True, db')"
    by (simp add: migrate_legacy_key_package_def get_key_package_by_id_def get_public_key_package_by_id_def
        get_legacy_key_package_def get_legacy_public_key_package_def read_row_def tree_get_def bind_eff_def
        lift_result_def return_eff_def set_key_package_by_id_def set_pubkey_package_by_id_def write_row_def
        tree_insert_def write_tree_def sample_legacy_db_def sample_db_def sample_store_def)
  then obtain db' where run: "migrate_legacy_key_package sample_store sample_legacy_db = (Ok True, db')" ..
  from migration_copies_legacy_once [OF sample_sled_ok sample_codecs_ok run] run show ?thesis by auto
qed

end
