(* ===== verification/PegoutScheduler.thy ===== *)
theory PegoutScheduler
  imports KeyPackages
begin

text \<open>
  The pegout scheduler (\<open>btc-server/src/pegout_scheduler/mod.rs\<close>): it tracks the transactions that
  deliver pegouts through the last blocks of the Bitcoin chain, returns their pegouts to the pending
  ones when a block is rolled back and finalizes them when a block is deeply confirmed. The state is
  the struct of the source with its database; \<open>HashMap\<close>s are association lists and the iteration
  order of a map or a set is that of its list. The telemetry is reduced to whether there is one, which
  decides on an extra read of the database. \<open>spk_of\<close> derives the change script from the public key
  package, \<open>compute_txid\<close> and \<open>block_hash\<close> are the hashes of the bitcoin crate, and \<open>clock\<close> is the time
  read when the pegouts of a transaction are finalized.
\<close>

section \<open>State\<close>

record block_info =
  bi_hash :: block_hash
  relevant_txs :: "txid list"
  relevant_inputs :: "out_point list"

record 't scheduler =
  conf_window :: u32
  txs :: "(txid \<times> tracked_tx) list"
  txs_by_input :: "(out_point \<times> txid list) list"
  txs_by_pegout :: "(tx_out \<times> txid list) list"
  confirmed_txs :: "txid list"
  last_blocks :: "block_info list"
  last_finalized :: block_hash
  sc_db :: "'t db"
  telemetry :: bool

record block =
  bk_header :: header
  bk_txdata :: "transaction list"

datatype 'e change_output_error = KeyConversion | ChangeDb "'e db_error"

definition on_db :: "('t db, 'e, 'a) eff \<Rightarrow> ('t scheduler, 'e, 'a) eff" where
  "on_db m = on_part sc_db (\<lambda>db s. s\<lparr>sc_db := db\<rparr>) m"

definition get_change_spk ::
    "('t, 'b, 'e, 'kp, 'pp) store \<Rightarrow> ('pp \<Rightarrow> script option) \<Rightarrow> ('t db, 'e change_output_error, script) eff" where
  "get_change_spk S spk_of =
     bind_eff (map_err_eff ChangeDb (get_public_key_package S)) (\<lambda>p.
     bind_eff (lift_result (expect p)) (\<lambda>agg_pk.
     lift_result (ok_or KeyConversion (spk_of agg_pk))))"

section \<open>Tracking\<close>

text \<open>\<open>entry(k).or_default().push(t)\<close>\<close>

definition entry_push :: "'k \<Rightarrow> 'v \<Rightarrow> ('k \<times> 'v list) list \<Rightarrow> ('k \<times> 'v list) list" where
  "entry_push k t m = AList.update k ((case map_of m k of Some ts \<Rightarrow> ts | None \<Rightarrow> []) @ [t]) m"

definition track_tx :: "tracked_tx \<Rightarrow> ('t scheduler, 'e, unit) eff" where
  "track_tx tx =
     bind_eff (modify (\<lambda>s. s\<lparr>txs_by_input := fold (\<lambda>i. entry_push i (tr_txid tx)) (inputs tx) (txs_by_input s)\<rparr>)) (\<lambda>_.
     bind_eff (lift_result (pegouts tx)) (\<lambda>ps.
     bind_eff (modify (\<lambda>s. s\<lparr>txs_by_pegout := fold (\<lambda>p. entry_push (snd p) (tr_txid tx)) ps (txs_by_pegout s)\<rparr>)) (\<lambda>_.
     modify (\<lambda>s. s\<lparr>txs := AList.update (tr_txid tx) tx (txs s)\<rparr>))))"

definition new_scheduler ::
    "u32 \<Rightarrow> tracked_tx list \<Rightarrow> block_hash \<Rightarrow> 't db \<Rightarrow> bool \<Rightarrow> ('e, 't scheduler) result" where
  "new_scheduler window tracked finalized db tel =
     (case for_each track_tx tracked
        \<lparr>conf_window = window, txs = [], txs_by_input = [], txs_by_pegout = [], confirmed_txs = [],
         last_blocks = [\<lparr>bi_hash = finalized, relevant_txs = [], relevant_inputs = []\<rparr>],
         last_finalized = finalized, sc_db = db, telemetry = tel\<rparr> of
        (Ok u, s) \<Rightarrow> Ok s | (Err e, s) \<Rightarrow> Err e | (Panic, s) \<Rightarrow> Panic)"

fun position :: "('a \<Rightarrow> bool) \<Rightarrow> 'a list \<Rightarrow> nat option" where
  "position P [] = None"
| "position P (x # xs) = (if P x then Some 0 else map_option Suc (position P xs))"

fun pegout_indices :: "tx_out list \<Rightarrow> pegout_request list \<Rightarrow> ('e, nat list) result" where
  "pegout_indices outs [] = Ok []"
| "pegout_indices outs (p # ps) =
     bind_result (expect (position (\<lambda>txout. script_pubkey txout = script_pubkey (request_txout p)) outs)) (\<lambda>idx.
     bind_result (pegout_indices outs ps) (\<lambda>ret. Ok (idx # ret)))"

fun change_indices ::
    "('t, 'b, 'e, 'kp, 'pp) store \<Rightarrow> ('pp \<Rightarrow> script option) \<Rightarrow> nat list \<Rightarrow> nat \<Rightarrow> tx_out list \<Rightarrow>
     ('t db, 'f, nat list) eff" where
  "change_indices S spk_of pegout_ixs i [] = return_eff []"
| "change_indices S spk_of pegout_ixs i (txout # rest) =
     (if i \<in> set pegout_ixs then change_indices S spk_of pegout_ixs (i + 1) rest
      else bind_eff (expect_eff (get_change_spk S spk_of)) (\<lambda>spk.
           if script_pubkey txout \<noteq> spk then change_indices S spk_of pegout_ixs (i + 1) rest
           else bind_eff (change_indices S spk_of pegout_ixs (i + 1) rest) (\<lambda>ret. return_eff (i # ret))))"

definition add_tx ::
    "('t, 'b, 'e, 'kp, 'pp) store \<Rightarrow> ('pp \<Rightarrow> script option) \<Rightarrow> (transaction \<Rightarrow> txid) \<Rightarrow> transaction \<Rightarrow>
     pegout_request list \<Rightarrow> system_time \<Rightarrow> ('t scheduler, 'f, tracked_tx) eff" where
  "add_tx S spk_of compute_txid tx requests timestamp =
     bind_eff (lift_result (pegout_indices (tx_output tx) requests)) (\<lambda>pegout_ixs.
     bind_eff (on_db (change_indices S spk_of pegout_ixs 0 (tx_output tx))) (\<lambda>change_ixs.
     let txid = compute_txid tx in
     bind_eff (track_tx \<lparr>tr_txid = txid, tr_tx = tx, pegout_idxs = pegout_ixs, pegout_requests = requests,
                 change_idxs = change_ixs, tr_created = timestamp\<rparr>) (\<lambda>_.
     bind_eff (gets (\<lambda>s. map_of (txs s) txid)) (\<lambda>t. lift_result (expect t)))))"

definition tracked_pegout_request_ids :: "'t scheduler \<Rightarrow> pegout_id list" where
  "tracked_pegout_request_ids s = concat (map (\<lambda>tx. map pr_id (pegout_requests tx)) (map snd (txs s)))"

definition tracked_inputs :: "'t scheduler \<Rightarrow> out_point set" where
  "tracked_inputs s = (\<Union>tx \<in> set (map snd (txs s)). set (inputs tx))"

definition pending_confirmed_utxos :: "'t scheduler \<Rightarrow> out_point set" where
  "pending_confirmed_utxos s =
     (\<Union>tx \<in> set (filter (\<lambda>tx. tr_txid tx \<in> set (confirmed_txs s)) (map snd (txs s))).
        set (map (\<lambda>vout. \<lparr>op_txid = tr_txid tx, op_vout = of_nat vout\<rparr>) [0..<length (tx_output (tr_tx tx))]))"

definition un_track_tx ::
    "('t, 'b, 'e, 'kp, 'pp) store \<Rightarrow> txid \<Rightarrow> ('t scheduler, 'e db_error, unit) eff" where
  "un_track_tx S txid =
     bind_eff (gets (\<lambda>s. map_of (txs s) txid)) (\<lambda>t.
     bind_eff (lift_result (expect t)) (\<lambda>tx.
     bind_eff (modify (\<lambda>s. s\<lparr>txs_by_input := fold AList.delete (inputs tx) (txs_by_input s)\<rparr>)) (\<lambda>_.
     bind_eff (lift_result (pegouts tx)) (\<lambda>ps.
     bind_eff (modify (\<lambda>s. s\<lparr>txs_by_pegout := fold (\<lambda>p. AList.delete (snd p)) ps (txs_by_pegout s)\<rparr>)) (\<lambda>_.
     bind_eff (modify (\<lambda>s. s\<lparr>txs := AList.delete txid (txs s)\<rparr>)) (\<lambda>_.
     on_db (remove_tracked_tx S txid)))))))"

definition add_tx_back_to_pending ::
    "('t, 'b, 'e, 'kp, 'pp) store \<Rightarrow> tracked_tx \<Rightarrow> ('t scheduler, 'e db_error, unit) eff" where
  "add_tx_back_to_pending S tx =
     bind_eff (on_db (store_pending_pegouts S (pegout_requests tx))) (\<lambda>_.
     bind_eff (on_db (db_flush S)) (\<lambda>_.
     bind_eff (gets telemetry) (\<lambda>tel.
     if tel then bind_eff (on_db (get_pending_pegouts S)) (\<lambda>_. return_eff ()) else return_eff ())))"

section \<open>Blocks\<close>

definition rollback_tx ::
    "('t, 'b, 'e, 'kp, 'pp) store \<Rightarrow> txid \<Rightarrow> ('t scheduler, 'f, unit) eff" where
  "rollback_tx S txid =
     bind_eff (gets (\<lambda>s. map_of (txs s) txid)) (\<lambda>t.
     bind_eff (lift_result (expect t)) (\<lambda>tx.
     bind_eff (modify (\<lambda>s. s\<lparr>confirmed_txs := removeAll txid (confirmed_txs s)\<rparr>)) (\<lambda>_.
     bind_eff (expect_eff (un_track_tx S txid)) (\<lambda>_.
     expect_eff (add_tx_back_to_pending S tx)))))"

definition rollback_tip :: "('t, 'b, 'e, 'kp, 'pp) store \<Rightarrow> ('t scheduler, 'f, unit) eff" where
  "rollback_tip S =
     bind_eff (gets last_blocks) (\<lambda>blocks.
     bind_eff (lift_result (assert_that (blocks \<noteq> []))) (\<lambda>_.
     bind_eff (modify (\<lambda>s. s\<lparr>last_blocks := butlast (last_blocks s)\<rparr>)) (\<lambda>_.
     for_each (rollback_tx S) (relevant_txs (last blocks)))))"

text \<open>The change outputs of a finalized transaction that pay the expected script, as unspent outputs.\<close>

fun change_utxos ::
    "('t, 'b, 'e, 'kp, 'pp) store \<Rightarrow> script \<Rightarrow> (out_point \<times> tx_out) list \<Rightarrow> ('t db, 'f, utxo list) eff" where
  "change_utxos S change_spk [] = return_eff []"
| "change_utxos S change_spk ((outpoint, out) # rest) =
     (if script_pubkey out \<noteq> change_spk then change_utxos S change_spk rest
      else bind_eff (try_eff (get_utxo S outpoint)) (\<lambda>r.
           let utxo_version = (case r of Inr (Some u) \<Rightarrow> ut_version u | _ \<Rightarrow> 0) in
           bind_eff (change_utxos S change_spk rest) (\<lambda>ret.
           return_eff (\<lparr>ut_outpoint = outpoint, ut_output = out, ut_eth_address = None,
             ut_version = utxo_version\<rparr> # ret))))"

text \<open>The three loops of \<open>finalize_block\<close>. The first collects the spent inputs.\<close>

fun finalize_outputs ::
    "('t, 'b, 'e, 'kp, 'pp) store \<Rightarrow> 'e change_output_error + script \<Rightarrow> txid list \<Rightarrow> out_point list \<Rightarrow>
     ('t scheduler, 'e db_error, out_point list) eff" where
  "finalize_outputs S spk_res [] all_inputs = return_eff all_inputs"
| "finalize_outputs S spk_res (txid # rest) all_inputs =
     bind_eff (gets (\<lambda>s. map_of (txs s) txid)) (\<lambda>t.
     bind_eff (lift_result (ok_or TrackedTxNotFoundInPegoutScheduler t)) (\<lambda>tx.
     bind_eff (case spk_res of
         Inr change_spk \<Rightarrow> bind_eff (lift_result (change tx)) (\<lambda>cs. on_db (change_utxos S change_spk cs))
       | Inl _ \<Rightarrow> return_eff []) (\<lambda>us.
     bind_eff (on_db (store_utxos S us)) (\<lambda>_.
     bind_eff (on_db (db_flush S)) (\<lambda>_.
     finalize_outputs S spk_res rest (fold List.insert (inputs tx) all_inputs))))))"

definition finalize_input ::
    "('t, 'b, 'e, 'kp, 'pp) store \<Rightarrow> out_point \<Rightarrow> ('t scheduler, 'e db_error, unit) eff" where
  "finalize_input S input =
     bind_eff (gets (\<lambda>s. map_of (txs s) (op_txid input))) (\<lambda>t.
     bind_eff (case t of
         Some _ \<Rightarrow> bind_eff (modify (\<lambda>s. s\<lparr>txs := AList.delete (op_txid input) (txs s)\<rparr>))
                     (\<lambda>_. on_db (remove_tracked_tx S (op_txid input)))
       | None \<Rightarrow> return_eff ()) (\<lambda>_.
     bind_eff (on_db (remove_utxo S input)) (\<lambda>_.
     on_db (db_flush S))))"

definition finalize_tx ::
    "('t, 'b, 'e, 'kp, 'pp) store \<Rightarrow> (txid \<Rightarrow> u64 option) \<Rightarrow> txid \<Rightarrow> ('t scheduler, 'e db_error, unit) eff" where
  "finalize_tx S clock txid =
     bind_eff (gets (\<lambda>s. map_of (txs s) txid)) (\<lambda>t. case t of
       Some tx \<Rightarrow>
         let finalized = map (\<lambda>p. \<lparr>fp_id = pr_id p, fp_block_number = botanix_height p,
                                   fp_timestamp = pr_timestamp p\<rparr>) (pegout_requests tx) in
         bind_eff (if finalized \<noteq> []
           then bind_eff (on_db (store_finalized_pegout_ids_atomically S finalized)) (\<lambda>_.
                bind_eff (on_db (prune_finalized_pegout_ids S (clock txid))) (\<lambda>_.
                on_db (db_flush S)))
           else return_eff ()) (\<lambda>_.
         bind_eff (modify (\<lambda>s. s\<lparr>txs := AList.delete txid (txs s)\<rparr>)) (\<lambda>_.
         on_db (remove_tracked_tx S txid)))
     | None \<Rightarrow> on_db (remove_tracked_tx S txid))"

text \<open>Adding up amounts panics when the sum overflows.\<close>

definition sum_amounts :: "amount list \<Rightarrow> ('e, amount) result" where
  "sum_amounts vs = fold_result (\<lambda>acc v. expect (checked_add acc v)) 0 vs"

definition finalize_block ::
    "('t, 'b, 'e, 'kp, 'pp) store \<Rightarrow> ('pp \<Rightarrow> script option) \<Rightarrow> (txid \<Rightarrow> u64 option) \<Rightarrow> block_info \<Rightarrow>
     ('t scheduler, 'e db_error, unit) eff" where
  "finalize_block S spk_of clock blk =
     bind_eff (try_eff (on_db (get_change_spk S spk_of))) (\<lambda>change_spk_res.
     bind_eff (finalize_outputs S change_spk_res (relevant_txs blk) (remdups (relevant_inputs blk))) (\<lambda>all_inputs.
     bind_eff (for_each (finalize_input S) all_inputs) (\<lambda>_.
     bind_eff (for_each (finalize_tx S clock) (relevant_txs blk)) (\<lambda>_.
     bind_eff (on_db (get_all_utxos S)) (\<lambda>utxos.
     bind_eff (lift_result (sum_amounts (map (\<lambda>u. txo_value (ut_output u)) utxos))) (\<lambda>_.
     bind_eff (modify (\<lambda>s. s\<lparr>last_finalized := bi_hash blk\<rparr>)) (\<lambda>_.
     on_db (db_flush S))))))))"

text \<open>What a new block means for the tracked transactions: those it confirms, and the inputs of
  theirs that other transactions spend.\<close>

fun scan_block ::
    "(transaction \<Rightarrow> txid) \<Rightarrow> 't scheduler \<Rightarrow> transaction list \<Rightarrow> txid list \<times> out_point list" where
  "scan_block compute_txid s [] = ([], [])"
| "scan_block compute_txid s (tx # rest) = (case scan_block compute_txid s rest of (rtxs, rins) \<Rightarrow>
     if map_of (txs s) (compute_txid tx) \<noteq> None then (compute_txid tx # rtxs, rins)
     else (rtxs, filter (\<lambda>i. map_of (txs_by_input s) i \<noteq> None) (map previous_output (tx_input tx)) @ rins))"

definition add_block ::
    "(transaction \<Rightarrow> txid) \<Rightarrow> (header \<Rightarrow> block_hash) \<Rightarrow> block \<Rightarrow> ('t scheduler, 'e, unit) eff" where
  "add_block compute_txid block_hash blk =
     bind_eff (gets last_blocks) (\<lambda>blocks.
     bind_eff (lift_result (assert_that (blocks \<noteq> []))) (\<lambda>_.
     bind_eff (lift_result (assert_that (prev_blockhash (bk_header blk) = bi_hash (last blocks)))) (\<lambda>_.
     modify (\<lambda>s. case scan_block compute_txid s (bk_txdata blk) of (rtxs, rins) \<Rightarrow>
       s\<lparr>confirmed_txs := fold List.insert rtxs (confirmed_txs s),
         last_blocks := last_blocks s @ [\<lparr>bi_hash = block_hash (bk_header blk), relevant_txs = rtxs,
           relevant_inputs = rins\<rparr>]\<rparr>))))"

end
