(* ===== verification/SchedulerBlocks.thy ===== *)
theory SchedulerBlocks
  imports PegoutScheduler
begin

text \<open>
  Properties of the pegout scheduler: rolling back a block returns its pegouts, finalizing one
  settles them, and the indexes of the tracked transactions.
\<close>

section \<open>The invariant\<close>

definition sched_ok ::
    "('t, 'b, 'e, 'kp, 'pp) store \<Rightarrow> ('t \<Rightarrow> u8 list \<Rightarrow> 'b option) \<Rightarrow> 't scheduler \<Rightarrow> bool" where
  "sched_ok S content s \<longleftrightarrow> db_ok S content (sc_db s) \<and> wf_map (txs s) \<and>
     (\<forall>t tx. map_of (txs s) t = Some tx \<longrightarrow> tr_txid tx = t \<and> tracked_ok tx)"

text \<open>What a step on transactions leaves alone.\<close>

definition same_chain :: "'t scheduler \<Rightarrow> 't scheduler \<Rightarrow> bool" where
  "same_chain s s' \<longleftrightarrow> conf_window s' = conf_window s \<and> last_blocks s' = last_blocks s \<and>
     last_finalized s' = last_finalized s \<and> telemetry s' = telemetry s"

lemma same_chain_refl [simp]: "same_chain s s"
  by (simp add: same_chain_def)

lemma same_chain_trans: "same_chain a b \<Longrightarrow> same_chain b c \<Longrightarrow> same_chain a c"
  by (simp add: same_chain_def)

lemma wlp_on_db: "wlp (on_db m) Q s = wlp m (\<lambda>x db. Q x (s\<lparr>sc_db := db\<rparr>)) (sc_db s)"
  by (simp add: on_db_def wlp_simps)

lemma wlp_on_db_fun [wlp_simps]: "wlp (on_db m) Q = (\<lambda>s. wlp m (\<lambda>x db. Q x (s\<lparr>sc_db := db\<rparr>)) (sc_db s))"
  by (simp add: fun_eq_iff wlp_on_db)

lemma wlp_flush: "sled_ok S content \<Longrightarrow> Q () db \<Longrightarrow> wlp (db_flush S) Q db"
  by (rule wlp_wp [OF wp_flush [where Q = "\<lambda>_ s'. s' = db" and E = "\<lambda>_. True"]]) auto

lemma txid_bytes_eq_iff: "txid_bytes a = txid_bytes b \<longleftrightarrow> a = b"
  using txid_bytes_inj by auto

section \<open>Untracking\<close>

text \<open>What the tracked transaction \<open>t\<close> spends and pays, and the requests it delivers.\<close>

definition inputs_of :: "'t scheduler \<Rightarrow> txid \<Rightarrow> out_point set" where
  "inputs_of s t = (case map_of (txs s) t of Some tx \<Rightarrow> set (inputs tx) | None \<Rightarrow> {})"

definition paid_by :: "'t scheduler \<Rightarrow> txid \<Rightarrow> tx_out set" where
  "paid_by s t = (case map_of (txs s) t of Some tx \<Rightarrow> snd ` set (pegout_points tx) | None \<Rightarrow> {})"

definition request_list :: "'t scheduler \<Rightarrow> txid \<Rightarrow> pegout_request list" where
  "request_list s t = (case map_of (txs s) t of Some tx \<Rightarrow> pegout_requests tx | None \<Rightarrow> [])"

definition requests_of :: "'t scheduler \<Rightarrow> txid \<Rightarrow> pegout_request set" where
  "requests_of s t = set (request_list s t)"

lemma same_tx:
  assumes "map_of (txs s') t = map_of (txs s) t"
  shows "inputs_of s' t = inputs_of s t" and "paid_by s' t = paid_by s t" and "request_list s' t = request_list s t"
    and "requests_of s' t = requests_of s t"
  using assms by (simp_all add: inputs_of_def paid_by_def request_list_def requests_of_def)

lemma map_of_delete_all: "map_of (fold AList.delete ks m) = map_of m |` (- set ks)"
  by (induction ks arbitrary: m) (auto simp: alist_simps restrict_map_def fun_eq_iff)

lemma map_of_delete_keys: "map_of (fold (\<lambda>p. AList.delete (f p)) ps m) = map_of m |` (- f ` set ps)"
  by (induction ps arbitrary: m) (auto simp: alist_simps restrict_map_def fun_eq_iff)

lemma wlp_un_track:
  assumes ok: "sched_ok S content s"
  shows "wlp (un_track_tx S t) (\<lambda>_ s'. sched_ok S content s' \<and> same_chain s s' \<and> confirmed_txs s' = confirmed_txs s \<and>
      map_of (txs_by_input s') = map_of (txs_by_input s) |` (- inputs_of s t) \<and>
      map_of (txs_by_pegout s') = map_of (txs_by_pegout s) |` (- paid_by s t) \<and>
      txs s' = AList.delete t (txs s) \<and> changes_only TrackedTxs (sc_db s) (sc_db s') \<and>
      tracked_at S content (sc_db s') = (tracked_at S content (sc_db s))(txid_bytes t := None)) s"
proof (cases "map_of (txs s) t")
  case (Some tx)
  from ok have db: "db_ok S content (sc_db s)" by (simp add: sched_ok_def)
  have "wlp (remove_tracked_tx S t) (\<lambda>_ db'. db_ok S content db' \<and> changes_only TrackedTxs (sc_db s) db' \<and>
      tracked_at S content db' = (tracked_at S content (sc_db s))(txid_bytes t := None)) (sc_db s)"
    by (rule wlp_wp [OF wp_remove_tracked_tx [OF db]])
  moreover have tx: "tracked_ok tx" using ok Some by (simp add: sched_ok_def)
  moreover have "inputs_of s t = set (inputs tx)" "paid_by s t = snd ` set (pegout_points tx)"
    by (simp_all add: inputs_of_def paid_by_def Some)
  ultimately show ?thesis
    using ok by (auto simp: un_track_tx_def wlp_simps Some sched_ok_def same_chain_def alist_simps
        pegouts_ok [OF tx] map_of_delete_all map_of_delete_keys elim!: wlp_mono)
qed (simp add: un_track_tx_def wlp_simps)

lemma wlp_add_back:
  assumes ok: "sched_ok S content s"
  shows "wlp (add_tx_back_to_pending S tx) (\<lambda>_ s'. sched_ok S content s' \<and> (\<exists>d. s' = s\<lparr>sc_db := d\<rparr>) \<and>
      changes_in {PendingPegouts, DefaultTree} (sc_db s) (sc_db s') \<and>
      pending_at S content (sc_db s') = after_store request_key (pegout_requests tx) (pending_at S content (sc_db s))) s"
proof -
  from ok have db: "db_ok S content (sc_db s)" by (simp add: sched_ok_def)
  let ?P = "\<lambda>db'. pending_at S content db' = after_store request_key (pegout_requests tx) (pending_at S content (sc_db s)) \<and>
      db_ok S content db' \<and> changes_in {PendingPegouts, DefaultTree} (sc_db s) db'"
  have store: "wlp (store_pending_pegouts S (pegout_requests tx)) (\<lambda>_. ?P) (sc_db s)"
    by (rule wlp_wp [OF wp_store_pending_pegouts [OF db]])
  have flush: "wlp (db_flush S) (\<lambda>_ d. d = db') db'" if "db_ok S content db'" for db'
    by (rule wlp_flush [OF db_ok_sled [OF that]]) simp
  have read: "wlp (get_pending_pegouts S) (\<lambda>_ d. d = db') db'" if "db_ok S content db'" for db'
    by (rule wlp_wp [OF pending.rows [OF db_ok_pending [OF that]]]) simp
  show ?thesis
    unfolding add_tx_back_to_pending_def wlp_simps
    by (rule wlp_mono [OF store], rule wlp_mono [OF flush])
      (use ok in \<open>auto simp: wlp_simps sched_ok_def intro!: wlp_mono [OF read]\<close>)
qed

section \<open>Rolling back\<close>

text \<open>The state after the transactions \<open>ts\<close> of a block were rolled back, in this order.\<close>

definition rolled_back ::
    "('t, 'b, 'e, 'kp, 'pp) store \<Rightarrow> ('t \<Rightarrow> u8 list \<Rightarrow> 'b option) \<Rightarrow> txid list \<Rightarrow> 't scheduler \<Rightarrow> 't scheduler \<Rightarrow> bool" where
  "rolled_back S content ts s s' \<longleftrightarrow>
     distinct ts \<and> set ts \<subseteq> dom (map_of (txs s)) \<and>
     (\<forall>t. map_of (txs s') t = (if t \<in> set ts then None else map_of (txs s) t)) \<and>
     set (confirmed_txs s') = set (confirmed_txs s) - set ts \<and>
     map_of (txs_by_input s') = map_of (txs_by_input s) |` (- (\<Union>t \<in> set ts. inputs_of s t)) \<and>
     map_of (txs_by_pegout s') = map_of (txs_by_pegout s) |` (- (\<Union>t \<in> set ts. paid_by s t)) \<and>
     tracked_at S content (sc_db s') = tracked_at S content (sc_db s) |` (- txid_bytes ` set ts) \<and>
     pending_at S content (sc_db s') =
       fold (\<lambda>t. after_store request_key (request_list s t)) ts (pending_at S content (sc_db s)) \<and>
     changes_in {TrackedTxs, PendingPegouts, DefaultTree} (sc_db s) (sc_db s')"

lemma upd_None_restrict: "m(k := None) = m |` (- {k})"
  by (auto simp: restrict_map_def fun_eq_iff)

lemma rolled_back_Nil: "rolled_back S content [] s s"
  by (simp add: rolled_back_def restrict_map_def)

lemma rolled_back_trans:
  assumes "rolled_back S content ys a b" and "rolled_back S content zs b c"
  shows "rolled_back S content (ys @ zs) a c"
proof -
  note a = assms(1) [unfolded rolled_back_def] and b = assms(2) [unfolded rolled_back_def]
  have tracked: "map_of (txs b) t \<noteq> None" if "t \<in> set zs" for t using that b by auto
  then have disj: "t \<notin> set ys" if "t \<in> set zs" for t using that a by metis
  then have "map_of (txs b) t = map_of (txs a) t" if "t \<in> set zs" for t using that a by simp
  note same = same_tx [OF this]
  have "distinct (ys @ zs)" "set (ys @ zs) \<subseteq> dom (map_of (txs a))" using a b disj tracked by force+
  moreover have "map_of (txs c) t = (if t \<in> set (ys @ zs) then None else map_of (txs a) t)" for t
    using a b by simp
  moreover have "set (confirmed_txs c) = set (confirmed_txs a) - set (ys @ zs)" using a b by auto
  moreover have "(m |` (- A)) |` (- B) = m |` (- (A \<union> B))" for m :: "'k \<Rightarrow> 'v option" and A B
    by (auto simp: restrict_map_def fun_eq_iff)
  note this [simp]
  have "map_of (txs_by_input c) = map_of (txs_by_input a) |` (- (\<Union>t \<in> set (ys @ zs). inputs_of a t))"
    "map_of (txs_by_pegout c) = map_of (txs_by_pegout a) |` (- (\<Union>t \<in> set (ys @ zs). paid_by a t))"
    using a b same by simp_all
  moreover have "tracked_at S content (sc_db c) = tracked_at S content (sc_db a) |` (- txid_bytes ` set (ys @ zs))"
    using a b by (simp add: image_Un)
  moreover have "fold (\<lambda>t. after_store request_key (request_list b t)) zs m =
      fold (\<lambda>t. after_store request_key (request_list a t)) zs m" for m
    by (rule fold_cong) (simp_all add: same)
  then have "pending_at S content (sc_db c) =
      fold (\<lambda>t. after_store request_key (request_list a t)) (ys @ zs) (pending_at S content (sc_db a))"
    using a b by simp
  moreover have "changes_in {TrackedTxs, PendingPegouts, DefaultTree} (sc_db a) (sc_db c)"
    using a b changes_in_trans by blast
  ultimately show ?thesis unfolding rolled_back_def by blast
qed

lemma rolled_back_one:
  assumes a: "map_of (txs_by_input a) = map_of (txs_by_input s) |` (- inputs_of s t)"
      "map_of (txs_by_pegout a) = map_of (txs_by_pegout s) |` (- paid_by s t)"
      "txs a = AList.delete t (txs s)" "confirmed_txs a = removeAll t (confirmed_txs s)"
      "changes_only TrackedTxs (sc_db s) (sc_db a)"
      "tracked_at S content (sc_db a) = (tracked_at S content (sc_db s))(txid_bytes t := None)"
    and tx: "map_of (txs s) t = Some tx"
    and b: "changes_in {PendingPegouts, DefaultTree} (sc_db a) d"
      "pending_at S content d = after_store request_key (pegout_requests tx) (pending_at S content (sc_db a))"
  shows "rolled_back S content [t] s (a\<lparr>sc_db := d\<rparr>)"
proof -
  have "changes_in {TrackedTxs} (sc_db s) (sc_db a)" using a(5) by (rule changes_only_in) simp
  note at_a = changes_in_at [OF this, of S content]
  note at_d = changes_in_at [OF b(1), of S content]
  have "changes_in {TrackedTxs, PendingPegouts, DefaultTree} (sc_db s) d"
    using changes_only_in [OF a(5), of "{TrackedTxs, PendingPegouts, DefaultTree}"] changes_in_mono [OF b(1)]
    by (blast intro: changes_in_trans)
  then show ?thesis
    using a(1-4,6) b(2) at_a at_d
    by (auto simp: rolled_back_def tx alist_simps request_list_def upd_None_restrict)
qed

lemma wlp_rollback_tx:
  assumes ok: "sched_ok S content s"
  shows "wlp (rollback_tx S t) (\<lambda>_ s'. sched_ok S content s' \<and> same_chain s s' \<and> rolled_back S content [t] s s') s"
proof (cases "map_of (txs s) t")
  case (Some tx)
  let ?s1 = "s\<lparr>confirmed_txs := removeAll t (confirmed_txs s)\<rparr>"
  have ok1: "sched_ok S content ?s1" using ok by (simp add: sched_ok_def)
  have same: "inputs_of ?s1 t = inputs_of s t" "paid_by ?s1 t = paid_by s t" by (rule same_tx; simp)+
  have "wlp (bind_eff (expect_eff (un_track_tx S t)) (\<lambda>_. expect_eff (add_tx_back_to_pending S tx)))
      (\<lambda>_ s'. sched_ok S content s' \<and> same_chain s s' \<and> rolled_back S content [t] s s') ?s1"
    unfolding wlp_simps
  proof (rule wlp_mono [OF wlp_un_track [OF ok1]], elim conjE, unfold same)
    fix a
    assume a: "sched_ok S content a" "same_chain ?s1 a" "confirmed_txs a = confirmed_txs ?s1"
      "map_of (txs_by_input a) = map_of (txs_by_input ?s1) |` (- inputs_of s t)"
      "map_of (txs_by_pegout a) = map_of (txs_by_pegout ?s1) |` (- paid_by s t)"
      "txs a = AList.delete t (txs ?s1)" "changes_only TrackedTxs (sc_db ?s1) (sc_db a)"
      "tracked_at S content (sc_db a) = (tracked_at S content (sc_db ?s1))(txid_bytes t := None)"
    show "wlp (add_tx_back_to_pending S tx)
        (\<lambda>_ s'. sched_ok S content s' \<and> same_chain s s' \<and> rolled_back S content [t] s s') a"
    proof (rule wlp_mono [OF wlp_add_back [OF a(1)]], elim conjE exE, hypsubst)
      fix d
      assume d: "sched_ok S content (a\<lparr>sc_db := d\<rparr>)"
        "changes_in {PendingPegouts, DefaultTree} (sc_db a) (sc_db (a\<lparr>sc_db := d\<rparr>))"
        "pending_at S content (sc_db (a\<lparr>sc_db := d\<rparr>)) =
          after_store request_key (pegout_requests tx) (pending_at S content (sc_db a))"
      have "rolled_back S content [t] s (a\<lparr>sc_db := d\<rparr>)"
        by (rule rolled_back_one [OF _ _ _ _ _ _ Some]) (use a d in simp_all)
      with a(2) d(1) show "sched_ok S content (a\<lparr>sc_db := d\<rparr>) \<and> same_chain s (a\<lparr>sc_db := d\<rparr>) \<and>
          rolled_back S content [t] s (a\<lparr>sc_db := d\<rparr>)"
        by (simp add: same_chain_def)
    qed
  qed
  then show ?thesis by (simp add: rollback_tx_def wlp_simps Some)
qed (simp add: rollback_tx_def wlp_simps)


text \<open>A scheduler that tracks one transaction, confirmed in its newest block.\<close>

definition sample_spend :: "txid \<Rightarrow> transaction" where
  "sample_spend t = \<lparr>tx_version = 2, lock_time = 0,
     tx_input = [\<lparr>previous_output = \<lparr>op_txid = 90, op_vout = 0\<rparr>, script_sig = [], sequence = 0, tx_witness = []\<rparr>],
     tx_output = [\<lparr>txo_value = 1000, script_pubkey = []\<rparr>]\<rparr>"

definition sample_tracked :: "txid \<Rightarrow> tracked_tx" where
  "sample_tracked t = \<lparr>tr_txid = t, tr_tx = sample_spend t, pegout_idxs = [0],
     pegout_requests = [sample_pending 5 2], change_idxs = [], tr_created = 100\<rparr>"

definition sample_scheduler :: "(u8 list, sample_bytes) rbt scheduler" where
  "sample_scheduler = \<lparr>conf_window = 6, txs = [(41, sample_tracked 41)],
     txs_by_input = [(\<lparr>op_txid = 90, op_vout = 0\<rparr>, [41])],
     txs_by_pegout = [(\<lparr>txo_value = 1000, script_pubkey = []\<rparr>, [41])],
     confirmed_txs = [41],
     last_blocks = [\<lparr>bi_hash = 1, relevant_txs = [], relevant_inputs = []\<rparr>,
       \<lparr>bi_hash = 2, relevant_txs = [41], relevant_inputs = []\<rparr>],
     last_finalized = 1, sc_db = sample_db, telemetry = False\<rparr>"

lemma sample_tracked_ok: "tracked_ok (sample_tracked t)" "tr_txid (sample_tracked t) = t"
  by (simp_all add: tracked_ok_def sample_tracked_def sample_spend_def request_ok_def pegout_id_ok_def sample_pending_def)

lemma sample_scheduler_ok: "sched_ok sample_store sample_content sample_scheduler"
  using sample_db_ok sample_tracked_ok by (simp add: sched_ok_def sample_scheduler_def wf_map_def)

lemma single_row: "RBT.entries (RBT.insert k v RBT.empty) = [(k, v)]"
  by (rule entries_unique) (simp_all add: fun_eq_iff)

lemma sample_engine:
  "sl_get sample_store t k = Ok (RBT.lookup t k)" "sl_contains_key sample_store t k = Ok (RBT.lookup t k \<noteq> None)"
  "sl_insert sample_store t k v = Ok (RBT.insert k v t)" "sl_remove sample_store t k = Ok (RBT.delete k t)"
  "sl_clear sample_store t = Ok RBT.empty" "sl_iter sample_store t = map Ok (RBT.entries t)"
  "sl_flush sample_store t = Ok ()" "ser (c_request sample_store) r = Some (BRequest r)"
  "ser (c_finalized sample_store) p = Some (BFinalized p)" "ser (c_tx sample_store) tx = Some (BTx tx)"
  "ser (c_utxo sample_store) u = Some (BUtxo (skip_outpoint u))"
  "calculate_root sample_store hs = (if hs = [] then None else Some (take 32 (hd hs @ replicate 32 0)))"
  by (simp_all add: sample_store_def)

lemma sample_flush: "db_flush sample_store db = (Ok (), db)"
  by (simp add: db_flush_def bind_eff_def return_eff_def sample_engine)

lemmas eff_defs = bind_eff_def return_eff_def raise_eff_def lift_result_def gets_def modify_def expect_eff_def
  map_err_eff_def try_eff_def on_part_def

lemma sample_root_runs: "\<exists>db'. store_merkle_root sample_store k hs db = (Ok (), db')"
proof (cases "hs = []")
  case False
  then have "sort hs \<noteq> []" by (metis length_sort length_0_conv)
  then have "calculate_root sample_store (sort hs) \<noteq> None" by (simp add: sample_engine(12))
  with False show ?thesis
    by (auto simp: store_merkle_root_def bind_eff_def lift_result_def return_eff_def tree_insert_def write_tree_def sample_engine(3))
qed (simp add: store_merkle_root_def return_eff_def)

lemma sample_pending_runs:
  assumes "db PendingPegouts = RBT.empty"
  shows "\<exists>db'. store_pending_pegouts sample_store [r] db = (Ok (), db')"
proof -
  let ?db = "db(PendingPegouts := RBT.insert (request_key r) (BRequest r) RBT.empty)"
  have "get_pending_pegouts sample_store ?db = (Ok [r], ?db)"
    by (simp add: get_pending_pegouts_def collect_rows_def sample_engine(6) single_row sample_de)
  moreover have "insert_row sample_store PendingPegouts (c_request sample_store) (request_key r) r db = (Ok (), ?db)"
    using assms by (simp add: insert_row_def bind_eff_def lift_result_def sample_engine(3,8) tree_insert_def write_tree_def)
  ultimately show ?thesis
    using sample_root_runs [of _ _ ?db]
    by (simp add: store_pending_pegouts_def store_pending_pegout_def update_pending_pegouts_merkle_root_def bind_eff_def)
qed

lemma sample_un_track_runs:
  "map_of (txs s) t = Some tx \<Longrightarrow> tracked_ok tx \<Longrightarrow>
    \<exists>s'. un_track_tx sample_store t s = (Ok (), s') \<and> telemetry s' = telemetry s \<and>
      sc_db s' = (sc_db s)(TrackedTxs := RBT.delete (txid_bytes t) (sc_db s TrackedTxs))"
  by (simp add: un_track_tx_def eff_defs pegouts_ok on_db_def remove_tracked_tx_def tree_remove_def write_tree_def
      sample_engine(4))

lemma sample_rollback_runs: "\<exists>s'. rollback_tip sample_store sample_scheduler = (Ok () :: (unit, unit) result, s')"
proof -
  let ?s = "sample_scheduler\<lparr>last_blocks := [hd (last_blocks sample_scheduler)], confirmed_txs := []\<rparr>"
  have tx: "map_of (txs ?s) 41 = Some (sample_tracked 41)" by (simp add: sample_scheduler_def)
  obtain a where a: "un_track_tx sample_store 41 ?s = (Ok (), a)" "telemetry a = telemetry ?s"
    "sc_db a = (sc_db ?s)(TrackedTxs := RBT.delete (txid_bytes 41) (sc_db ?s TrackedTxs))"
    using sample_un_track_runs [OF tx sample_tracked_ok(1)] by blast
  then have e: "sc_db a PendingPegouts = RBT.empty" "\<not> telemetry a" by (simp_all add: sample_scheduler_def sample_db_def)
  obtain db' where "store_pending_pegouts sample_store [sample_pending 5 2] (sc_db a) = (Ok (), db')"
    using sample_pending_runs [of "sc_db a", OF e(1)] by blast
  with e(2) have "\<exists>b. add_tx_back_to_pending sample_store (sample_tracked 41) a = (Ok (), b)"
    by (simp add: add_tx_back_to_pending_def eff_defs on_db_def sample_flush sample_tracked_def)
  then obtain b where b: "add_tx_back_to_pending sample_store (sample_tracked 41) a = (Ok (), b)" ..
  have "rollback_tip sample_store sample_scheduler = (for_each (rollback_tx sample_store) [41] :: (_, unit, unit) eff)
      (sample_scheduler\<lparr>last_blocks := [hd (last_blocks sample_scheduler)]\<rparr>)"
    by (simp add: rollback_tip_def eff_defs assert_that_def sample_scheduler_def del: for_each.simps)
  also have "\<dots> = (Ok (), b)"
    using a(1) b by (simp add: rollback_tx_def bind_eff_def gets_def lift_result_def modify_def expect_eff_def return_eff_def
        sample_scheduler_def)
  finally show ?thesis by blast
qed


end
