(* ===== verification/SchedulerFinalize.thy ===== *)
theory SchedulerFinalize
  imports SchedulerBlocks
begin

text \<open>
  What finalizing a deeply confirmed block does to the wallet: its three loops in turn, and the
  property that puts them together.
\<close>

section \<open>Change outputs\<close>

lemma get_change_spk_reads: "snd (get_change_spk S spk_of db) = db"
  by (simp add: get_change_spk_def get_public_key_package_def get_public_key_package_by_id_def read_row_def
      eff_defs tree_get_def split: result.split option.split)

text \<open>The outputs of a transaction that pay the change script, as the unspent outputs they become.\<close>

definition paying :: "script \<Rightarrow> (out_point \<times> tx_out) list \<Rightarrow> utxo list" where
  "paying spk cs = map (\<lambda>(o', out). \<lparr>ut_outpoint = o', ut_output = out, ut_eth_address = None, ut_version = 0\<rparr>)
     (filter (\<lambda>(o', out). script_pubkey out = spk) cs)"

lemma paying_simps [simp]:
  "paying spk [] = []"
  "paying spk ((o', out) # cs) = (if script_pubkey out = spk
     then \<lparr>ut_outpoint = o', ut_output = out, ut_eth_address = None, ut_version = 0\<rparr> # paying spk cs
     else paying spk cs)"
  by (simp_all add: paying_def)

definition same_when_new :: "(u8 list \<Rightarrow> utxo option) \<Rightarrow> utxo \<Rightarrow> utxo \<Rightarrow> bool" where
  "same_when_new m u r \<longleftrightarrow> utxo_key u = utxo_key r \<and> (m (utxo_key r) = None \<longrightarrow> u = r)"

lemma wlp_change_utxos:
  assumes ok: "db_ok (S :: ('t, 'b, 'e, 'kp, 'pp) store) content db"
  shows "wlp (change_utxos S spk cs :: ('t db, 'f, utxo list) eff)
    (\<lambda>us db'. db' = db \<and> list_all2 (same_when_new (utxo_at S content db)) us (paying spk cs)) db"
proof (induction cs)
  case Nil
  then show ?case by (simp add: wlp_simps)
next
  case (Cons c cs)
  obtain outpoint out where c: "c = (outpoint, out)" by force
  have read: "wlp (try_eff (get_utxo S outpoint)) (\<lambda>r db'. db' = db \<and>
      (utxo_at S content db (out_point_to_bytes outpoint) = None \<longrightarrow> (\<forall>u. r \<noteq> Inr (Some u)))) db"
    by (rule wlp_try, rule wp_get_utxo [OF ok]) auto
  have new: "same_when_new (utxo_at S content db) \<lparr>ut_outpoint = outpoint, ut_output = out, ut_eth_address = None,
        ut_version = (case r of Inr (Some u) \<Rightarrow> ut_version u | _ \<Rightarrow> 0)\<rparr>
      \<lparr>ut_outpoint = outpoint, ut_output = out, ut_eth_address = None, ut_version = 0\<rparr>"
    if "utxo_at S content db (out_point_to_bytes outpoint) = None \<longrightarrow> (\<forall>u. r \<noteq> Inr (Some u))" for r :: "'e db_error + utxo option"
    using that by (auto simp: same_when_new_def split: sum.split option.split)
  have step: "wlp (change_utxos S spk cs :: ('t db, 'f, utxo list) eff) (\<lambda>us db'. db' = db \<and> P us \<and>
      list_all2 (same_when_new (utxo_at S content db)) us (paying spk cs)) db" if "\<And>us. P us" for P
    by (rule wlp_mono [OF Cons.IH]) (simp add: that)
  show ?case
  proof (cases "script_pubkey out = spk")
    case True
    then show ?thesis
      unfolding c by (simp add: wlp_simps Let_def) (rule wlp_mono [OF read], use step new in fastforce)
  next
    case False
    then show ?thesis unfolding c using Cons.IH by simp
  qed
qed

lemma map_add_same_when_new:
  assumes "list_all2 (same_when_new m) us rs"
  shows "map_of (map (\<lambda>u. (utxo_key u, u)) us) ++ m = map_of (map (\<lambda>u. (utxo_key u, u)) rs) ++ m"
  using assms
proof (induction rule: list_all2_induct)
  case (Cons u us r rs)
  have "utxo_key u = utxo_key r" using Cons(1) by (simp add: same_when_new_def)
  then have "(map_of (map (\<lambda>u. (utxo_key u, u)) (u # us)) ++ m) k = (map_of (map (\<lambda>u. (utxo_key u, u)) (r # rs)) ++ m) k" for k
    using Cons(1) fun_cong [OF Cons.IH, of k]
    by (cases "m k"; cases "k = utxo_key r") (auto simp: same_when_new_def map_add_def)
  then show ?case by (rule ext)
qed simp

section \<open>The loops\<close>

text \<open>The unspent outputs that the transaction \<open>t\<close> adds, given the change script if it is known.\<close>

definition change_rows :: "script option \<Rightarrow> 't scheduler \<Rightarrow> txid \<Rightarrow> utxo list" where
  "change_rows spk s t = (case (map_of (txs s) t, spk) of
     (Some tx, Some k) \<Rightarrow> paying k (change_points tx) | _ \<Rightarrow> [])"

lemma rows_of_db [simp]:
  "change_rows spk (s\<lparr>sc_db := d\<rparr>) = change_rows spk s" "inputs_of (s\<lparr>sc_db := d\<rparr>) = inputs_of s"
  by (simp_all add: fun_eq_iff change_rows_def inputs_of_def)

lemma sched_ok_db: "sched_ok S content s \<Longrightarrow> db_ok S content d \<Longrightarrow> sched_ok S content (s\<lparr>sc_db := d\<rparr>)"
  by (simp add: sched_ok_def)

abbreviation keyed_utxos :: "utxo list \<Rightarrow> u8 list \<Rightarrow> utxo option" where
  "keyed_utxos us \<equiv> map_of (map (\<lambda>u. (utxo_key u, u)) us)"

abbreviation spk_known :: "'e change_output_error + script \<Rightarrow> script option" where
  "spk_known r \<equiv> (case r of Inr spk \<Rightarrow> Some spk | Inl _ \<Rightarrow> None)"

lemma set_fold_insert: "set (fold List.insert xs ys) = set xs \<union> set ys"
  by (induction xs arbitrary: ys) auto

lemma wlp_finalize_outputs:
  assumes "sched_ok S content s"
  shows "wlp (finalize_outputs S r ts ins) (\<lambda>all s'. sched_ok S content s' \<and> (\<exists>d. s' = s\<lparr>sc_db := d\<rparr>) \<and>
      changes_only Utxos (sc_db s) (sc_db s') \<and>
      utxo_at S content (sc_db s') =
        keyed_utxos (concat (map (change_rows (spk_known r) s) ts)) ++ utxo_at S content (sc_db s) \<and>
      set all = set ins \<union> (\<Union>t \<in> set ts. inputs_of s t)) s"
  using assms
proof (induction ts arbitrary: ins s)
  case Nil
  then show ?case by (auto simp: wlp_simps intro!: exI [of _ "sc_db s"])
next
  case (Cons t ts)
  show ?case
  proof (cases "map_of (txs s) t")
    case None
    then show ?thesis by (simp add: wlp_simps)
  next
    case (Some tx)
    have db: "db_ok S content (sc_db s)" and tx: "tracked_ok tx"
      using Cons.prems Some by (auto simp: sched_ok_def)
    have rows: "wlp (case r of Inr change_spk \<Rightarrow>
          bind_eff (lift_result (change tx)) (\<lambda>cs. on_db (change_utxos S change_spk cs)) | Inl _ \<Rightarrow> return_eff [])
        (\<lambda>us s'. s' = s \<and> list_all2 (same_when_new (utxo_at S content (sc_db s))) us (change_rows (spk_known r) s t)) s"
      using tx by (cases r) (auto simp: wlp_simps change_ok change_rows_def Some intro!: wlp_mono [OF wlp_change_utxos [OF db]])
    have store: "wlp (store_utxos S us) (\<lambda>_ d. db_ok S content d \<and> changes_only Utxos (sc_db s) d \<and>
        utxo_at S content d = keyed_utxos us ++ utxo_at S content (sc_db s)) (sc_db s)" for us
      by (rule wlp_wp [OF wp_store_utxos [OF db]])
    define Q where "Q = (\<lambda>all s'. sched_ok S content s' \<and> (\<exists>d. s' = s\<lparr>sc_db := d\<rparr>) \<and>
        changes_only Utxos (sc_db s) (sc_db s') \<and>
        utxo_at S content (sc_db s') =
          keyed_utxos (concat (map (change_rows (spk_known r) s) (t # ts))) ++ utxo_at S content (sc_db s) \<and>
        set all = set ins \<union> (\<Union>t \<in> set (t # ts). inputs_of s t))"
    have rest: "wlp (finalize_outputs S r ts (fold List.insert (inputs tx) ins)) Q (s\<lparr>sc_db := d\<rparr>)"
      if us: "list_all2 (same_when_new (utxo_at S content (sc_db s))) us (change_rows (spk_known r) s t)"
        and d: "db_ok S content d" "changes_only Utxos (sc_db s) d"
          "utxo_at S content d = keyed_utxos us ++ utxo_at S content (sc_db s)" for us d
    proof -
      have at: "utxo_at S content d = keyed_utxos (change_rows (spk_known r) s t) ++ utxo_at S content (sc_db s)"
        using d(3) map_add_same_when_new [OF us] by simp
      show ?thesis
        by (rule wlp_mono [OF Cons.IH [OF sched_ok_db [OF Cons.prems d(1)]]])
          (use d(2) in \<open>auto simp: Q_def at inputs_of_def Some set_fold_insert intro: changes_only_trans\<close>)
    qed
    have "wlp (finalize_outputs S r (t # ts) ins) Q s"
      unfolding finalize_outputs.simps wlp_simps Some option.case ok_or.simps result.case
      by (rule wlp_mono [OF rows], elim conjE, hypsubst, rule wlp_mono [OF store])
        (auto intro!: wlp_flush [OF db_ok_sled] intro: rest)
    then show ?thesis by (simp only: Q_def)
  qed
qed

text \<open>The state after the transactions \<open>A\<close> are no longer tracked, in memory and in the database. The indexes
  keep the entries of these transactions.\<close>

definition untracked ::
    "('t, 'b, 'e, 'kp, 'pp) store \<Rightarrow> ('t \<Rightarrow> u8 list \<Rightarrow> 'b option) \<Rightarrow> txid set \<Rightarrow> 't scheduler \<Rightarrow> 't scheduler \<Rightarrow> bool" where
  "untracked S content A s s' \<longleftrightarrow>
     conf_window s' = conf_window s \<and> last_blocks s' = last_blocks s \<and> telemetry s' = telemetry s \<and>
     confirmed_txs s' = confirmed_txs s \<and>
     txs_by_input s' = txs_by_input s \<and> txs_by_pegout s' = txs_by_pegout s \<and>
     (\<forall>t. map_of (txs s') t = (if t \<in> A then None else map_of (txs s) t)) \<and>
     tracked_at S content (sc_db s') = tracked_at S content (sc_db s) |` (- txid_bytes ` A) \<and>
     changes_in {Utxos, TrackedTxs, FinalizedPegoutIds} (sc_db s) (sc_db s')"

lemma untracked_refl: "untracked S content {} s s"
  by (simp add: untracked_def restrict_map_def)

lemma untracked_trans:
  "untracked S content A a b \<Longrightarrow> untracked S content B b c \<Longrightarrow> untracked S content (A \<union> B) a c"
  by (auto simp: untracked_def image_Un Int_commute intro: changes_in_trans)

lemma untracked_db:
  "changes_only T (sc_db s) d \<Longrightarrow> T \<in> {Utxos, FinalizedPegoutIds} \<Longrightarrow> untracked S content {} s (s\<lparr>sc_db := d\<rparr>)"
  using changes_in_at(2) [OF changes_only_in [of T "sc_db s" d "{T}"], of S content]
  by (auto simp: untracked_def restrict_map_def intro: changes_only_in)

lemma wlp_drop_tracked:
  assumes ok: "sched_ok S content s"
  shows "wlp (on_db (remove_tracked_tx S t)) (\<lambda>_ s'. sched_ok S content s' \<and> untracked S content {t} s s' \<and>
      utxo_at S content (sc_db s') = utxo_at S content (sc_db s) \<and>
      finalized_at S content (sc_db s') = finalized_at S content (sc_db s)) (s\<lparr>txs := AList.delete t (txs s)\<rparr>)"
proof -
  let ?P = "\<lambda>db'. db_ok S content db' \<and> changes_only TrackedTxs (sc_db s) db' \<and>
      tracked_at S content db' = (tracked_at S content (sc_db s))(txid_bytes t := None)"
  from ok have db: "db_ok S content (sc_db s)" by (simp add: sched_ok_def)
  have remove: "wlp (remove_tracked_tx S t) (\<lambda>_. ?P) (sc_db (s\<lparr>txs := AList.delete t (txs s)\<rparr>))"
    by (rule wlp_wp [OF wp_remove_tracked_tx [where content = content]]) (simp_all add: db)
  define s' where "s' d = s\<lparr>txs := AList.delete t (txs s), sc_db := d\<rparr>" for d
  have "sched_ok S content (s' d) \<and> untracked S content {t} s (s' d) \<and>
      utxo_at S content (sc_db (s' d)) = utxo_at S content (sc_db s) \<and>
      finalized_at S content (sc_db (s' d)) = finalized_at S content (sc_db s)" if P: "?P d" for d
  proof -
    have "changes_in {TrackedTxs} (sc_db s) d" using P by (intro changes_only_in) simp_all
    note same = changes_in_at [OF this, of S content]
    have "sched_ok S content (s' d)" using ok P by (auto simp: sched_ok_def s'_def alist_simps)
    moreover have "untracked S content {t} s (s' d)"
      using P changes_only_in [of TrackedTxs "sc_db s" d "{Utxos, TrackedTxs, FinalizedPegoutIds}"]
      by (simp add: untracked_def s'_def alist_simps upd_None_restrict)
    ultimately show ?thesis using same by (simp add: s'_def)
  qed
  then show ?thesis
    unfolding wlp_simps by (intro wlp_mono [OF remove]) (simp only: s'_def)
qed

lemma wlp_drop_utxo:
  assumes ok: "sched_ok S content s"
  shows "wlp (bind_eff (on_db (remove_utxo S i)) (\<lambda>_. on_db (db_flush S))) (\<lambda>_ s'. sched_ok S content s' \<and>
      untracked S content {} s s' \<and>
      utxo_at S content (sc_db s') = (utxo_at S content (sc_db s))(out_point_to_bytes i := None) \<and>
      finalized_at S content (sc_db s') = finalized_at S content (sc_db s)) s"
proof -
  let ?P = "\<lambda>db'. db_ok S content db' \<and> changes_only Utxos (sc_db s) db' \<and>
      utxo_at S content db' = (utxo_at S content (sc_db s))(out_point_to_bytes i := None)"
  from ok have db: "db_ok S content (sc_db s)" by (simp add: sched_ok_def)
  have remove: "wlp (remove_utxo S i) (\<lambda>_. ?P) (sc_db s)" by (rule wlp_wp [OF wp_remove_utxo [OF db]])
  have "sched_ok S content (s\<lparr>sc_db := d\<rparr>) \<and> untracked S content {} s (s\<lparr>sc_db := d\<rparr>) \<and>
      finalized_at S content d = finalized_at S content (sc_db s)" if P: "?P d" for d
  proof -
    have "changes_in {Utxos} (sc_db s) d" using P by (intro changes_only_in) simp_all
    note same = changes_in_at [OF this, of S content]
    have "untracked S content {} s (s\<lparr>sc_db := d\<rparr>)" using P by (intro untracked_db [where T = Utxos]) simp_all
    with ok P same show ?thesis by (simp add: sched_ok_db)
  qed
  then show ?thesis
    unfolding wlp_simps
    by (intro wlp_mono [OF remove] wlp_flush [OF db_ok_sled, where content = content]) auto
qed

lemma wlp_finalize_input:
  assumes ok: "sched_ok S content s"
  shows "wlp (finalize_input S i) (\<lambda>_ s'. sched_ok S content s' \<and>
      untracked S content ({op_txid i} \<inter> dom (map_of (txs s))) s s' \<and>
      utxo_at S content (sc_db s') = (utxo_at S content (sc_db s))(out_point_to_bytes i := None) \<and>
      finalized_at S content (sc_db s') = finalized_at S content (sc_db s)) s"
proof (cases "map_of (txs s) (op_txid i)")
  case None
  then have "{op_txid i} \<inter> dom (map_of (txs s)) = {}" by auto
  with wlp_drop_utxo [OF ok, of i] show ?thesis by (simp add: finalize_input_def wlp_simps None)
next
  case (Some tx)
  then have "{op_txid i} \<inter> dom (map_of (txs s)) = {op_txid i}" by auto
  moreover have "wlp (bind_eff (on_db (remove_tracked_tx S (op_txid i)))
      (\<lambda>_. bind_eff (on_db (remove_utxo S i)) (\<lambda>_. on_db (db_flush S))))
    (\<lambda>_ s'. sched_ok S content s' \<and> untracked S content {op_txid i} s s' \<and>
      utxo_at S content (sc_db s') = (utxo_at S content (sc_db s))(out_point_to_bytes i := None) \<and>
      finalized_at S content (sc_db s') = finalized_at S content (sc_db s)) (s\<lparr>txs := AList.delete (op_txid i) (txs s)\<rparr>)"
    by (subst wlp_bind, rule wlp_mono [OF wlp_drop_tracked [OF ok]], elim conjE, rule wlp_mono [OF wlp_drop_utxo])
      (auto dest: untracked_trans)
  ultimately show ?thesis
    by (simp add: finalize_input_def wlp_bind wlp_gets wlp_modify Some)
qed

text \<open>What the finalized table becomes when the requests \<open>ps\<close> are finalized at a time: rows that are there
  already are kept, then pruning drops the rows older than the retention window and stamps those
  without a time.\<close>

definition finalized_of :: "pegout_request \<Rightarrow> finalized_pegout" where
  "finalized_of p = \<lparr>fp_id = pr_id p, fp_block_number = botanix_height p, fp_timestamp = pr_timestamp p\<rparr>"

abbreviation keyed_finalized :: "pegout_request list \<Rightarrow> u8 list \<Rightarrow> finalized_pegout option" where
  "keyed_finalized ps \<equiv> map_of (map (\<lambda>p. (finalized_key p, p)) (map finalized_of ps))"

definition settled ::
    "u64 \<Rightarrow> pegout_request list \<Rightarrow> (u8 list \<Rightarrow> finalized_pegout option) \<Rightarrow> u8 list \<Rightarrow> finalized_pegout option" where
  "settled now ps m = (if ps = [] then m else (\<lambda>k. Option.bind ((keyed_finalized ps ++ m) k) (pruned now)))"

definition settle_tx ::
    "(txid \<Rightarrow> u64 option) \<Rightarrow> 't scheduler \<Rightarrow> txid \<Rightarrow> (u8 list \<Rightarrow> finalized_pegout option) \<Rightarrow>
     u8 list \<Rightarrow> finalized_pegout option" where
  "settle_tx clock s t = settled (the (clock t)) (request_list s t)"

lemma wlp_settle:
  assumes ok: "sched_ok S content s" and "ps \<noteq> []"
  shows "wlp (bind_eff (on_db (store_finalized_pegout_ids_atomically S (map finalized_of ps)))
      (\<lambda>_. bind_eff (on_db (prune_finalized_pegout_ids S now)) (\<lambda>_. on_db (db_flush S))))
    (\<lambda>_ s'. sched_ok S content s' \<and> (\<exists>d. s' = s\<lparr>sc_db := d\<rparr>) \<and> changes_only FinalizedPegoutIds (sc_db s) (sc_db s') \<and>
      finalized_at S content (sc_db s') = settled (the now) ps (finalized_at S content (sc_db s))) s"
proof -
  from ok have db: "db_ok S content (sc_db s)" by (simp add: sched_ok_def)
  let ?F = "finalized_at S content"
  let ?G = "keyed_finalized ps ++ ?F (sc_db s)"
  have store: "wlp (store_finalized_pegout_ids_atomically S (map finalized_of ps)) (\<lambda>_ d. db_ok S content d \<and>
      changes_only FinalizedPegoutIds (sc_db s) d \<and> ?F d = ?G) (sc_db s)"
    by (rule wlp_wp [OF wp_store_finalized_atomically [OF db]])
  have prune: "wlp (prune_finalized_pegout_ids S now) (\<lambda>_ e. wlp (db_flush S) (\<lambda>_ f. db_ok S content f \<and>
      changes_only FinalizedPegoutIds (sc_db s) f \<and> ?F f = settled (the now) ps (?F (sc_db s))) e) d"
    if d: "db_ok S content d" "changes_only FinalizedPegoutIds (sc_db s) d" "?F d = ?G" for d
  proof (rule wlp_wp [OF wp_prune [OF d(1)]], elim conjE)
    fix e
    assume "db_ok S content e" "changes_only FinalizedPegoutIds d e" "?F e = (\<lambda>k. Option.bind (?F d k) (pruned (the now)))"
    with d(2,3) assms(2) show "wlp (db_flush S) (\<lambda>_ f. db_ok S content f \<and>
        changes_only FinalizedPegoutIds (sc_db s) f \<and> ?F f = settled (the now) ps (?F (sc_db s))) e"
      by (intro wlp_flush [OF db_ok_sled]) (auto simp: settled_def intro: changes_only_trans)
  qed
  have out: "sched_ok S content (s\<lparr>sc_db := f\<rparr>) \<and> (\<exists>d. s\<lparr>sc_db := f\<rparr> = s\<lparr>sc_db := d\<rparr>) \<and>
      changes_only FinalizedPegoutIds (sc_db s) (sc_db (s\<lparr>sc_db := f\<rparr>)) \<and>
      ?F (sc_db (s\<lparr>sc_db := f\<rparr>)) = settled (the now) ps (?F (sc_db s))"
    if "db_ok S content f \<and> changes_only FinalizedPegoutIds (sc_db s) f \<and> ?F f = settled (the now) ps (?F (sc_db s))" for f
    using that sched_ok_db [OF ok] by auto
  show ?thesis
    unfolding wlp_simps
  proof (rule wlp_mono [OF store], elim conjE)
    fix d
    assume d: "db_ok S content d" "changes_only FinalizedPegoutIds (sc_db s) d" "?F d = ?G"
    have "wlp (prune_finalized_pegout_ids S now) (\<lambda>_ e. wlp (db_flush S) (\<lambda>_ f. sched_ok S content (s\<lparr>sc_db := f\<rparr>) \<and>
        (\<exists>d. s\<lparr>sc_db := f\<rparr> = s\<lparr>sc_db := d\<rparr>) \<and> changes_only FinalizedPegoutIds (sc_db s) (sc_db (s\<lparr>sc_db := f\<rparr>)) \<and>
        ?F (sc_db (s\<lparr>sc_db := f\<rparr>)) = settled (the now) ps (?F (sc_db s))) e) d"
      by (rule wlp_mono [OF prune [OF d]], erule wlp_mono, rule out)
    then show "wlp (prune_finalized_pegout_ids S now) (\<lambda>x db. wlp (db_flush S)
          (\<lambda>x dba. sched_ok S content (s\<lparr>sc_db := d, sc_db := db, sc_db := dba\<rparr>) \<and>
             (\<exists>da. s\<lparr>sc_db := d, sc_db := db, sc_db := dba\<rparr> = s\<lparr>sc_db := da\<rparr>) \<and>
             changes_only FinalizedPegoutIds (sc_db s) (sc_db (s\<lparr>sc_db := d, sc_db := db, sc_db := dba\<rparr>)) \<and>
             ?F (sc_db (s\<lparr>sc_db := d, sc_db := db, sc_db := dba\<rparr>)) = settled (the now) ps (?F (sc_db s)))
          (sc_db (s\<lparr>sc_db := d, sc_db := db\<rparr>))) (sc_db (s\<lparr>sc_db := d\<rparr>))"
      by simp
  qed
qed

lemma wlp_finalize_tx:
  assumes ok: "sched_ok S content s"
  shows "wlp (finalize_tx S clock t) (\<lambda>_ s'. sched_ok S content s' \<and> untracked S content {t} s s' \<and>
      utxo_at S content (sc_db s') = utxo_at S content (sc_db s) \<and>
      finalized_at S content (sc_db s') = settle_tx clock s t (finalized_at S content (sc_db s))) s"
proof (cases "map_of (txs s) t")
  case None
  then have "s\<lparr>txs := AList.delete t (txs s)\<rparr> = s" by (simp add: delete_id map_of_eq_None_iff)
  with wlp_drop_tracked [OF ok, of t] None show ?thesis
    by (auto simp: finalize_tx_def wlp_simps settle_tx_def settled_def request_list_def elim!: wlp_mono)
next
  case (Some tx)
  let ?ps = "pegout_requests tx" and ?F = "finalized_at S content"
  have req: "settle_tx clock s t = settled (the (clock t)) ?ps" by (simp add: settle_tx_def request_list_def Some)
  let ?P = "\<lambda>a. sched_ok S content a \<and> (\<exists>d. a = s\<lparr>sc_db := d\<rparr>) \<and> changes_only FinalizedPegoutIds (sc_db s) (sc_db a) \<and>
      ?F (sc_db a) = settle_tx clock s t (?F (sc_db s))"
  let ?settle = "if map finalized_of ?ps \<noteq> [] then bind_eff (on_db (store_finalized_pegout_ids_atomically S (map finalized_of ?ps)))
      (\<lambda>_. bind_eff (on_db (prune_finalized_pegout_ids S (clock t))) (\<lambda>_. on_db (db_flush S))) else return_eff ()"
  have settle: "wlp ?settle (\<lambda>_. ?P) s"
  proof (cases "?ps = []")
    case True
    then show ?thesis using ok by (auto simp: wlp_simps changes_only_def req settled_def intro: exI [of _ "sc_db s"])
  next
    case False
    then show ?thesis using wlp_settle [OF ok, of ?ps] by (simp add: req)
  qed
  have def: "finalize_tx S clock t s = bind_eff ?settle (\<lambda>_. bind_eff (modify (\<lambda>s. s\<lparr>txs := AList.delete t (txs s)\<rparr>))
      (\<lambda>_. on_db (remove_tracked_tx S t))) s"
    by (simp add: finalize_tx_def bind_eff_def gets_def Some Let_def finalized_of_def [abs_def] cong: if_cong)
  have "wlp (bind_eff ?settle (\<lambda>_. bind_eff (modify (\<lambda>s. s\<lparr>txs := AList.delete t (txs s)\<rparr>)) (\<lambda>_. on_db (remove_tracked_tx S t))))
    (\<lambda>_ s'. sched_ok S content s' \<and> untracked S content {t} s s' \<and>
      utxo_at S content (sc_db s') = utxo_at S content (sc_db s) \<and>
      ?F (sc_db s') = settle_tx clock s t (?F (sc_db s))) s"
    unfolding wlp_bind wlp_modify
  proof (rule wlp_mono [OF settle])
    fix a
    assume a: "?P a"
    then have "changes_in {FinalizedPegoutIds} (sc_db s) (sc_db a)" by (intro changes_only_in) simp_all
    note same = changes_in_at [OF this, of S content]
    from a have "untracked S content {} s a" by (auto intro: untracked_db [where T = FinalizedPegoutIds])
    from untracked_trans [OF this, of "{t}"] a same
    show "wlp (on_db (remove_tracked_tx S t)) (\<lambda>_ s'. sched_ok S content s' \<and> untracked S content {t} s s' \<and>
        utxo_at S content (sc_db s') = utxo_at S content (sc_db s) \<and>
        ?F (sc_db s') = settle_tx clock s t (?F (sc_db s))) (a\<lparr>txs := AList.delete t (txs a)\<rparr>)"
      by (intro wlp_mono [OF wlp_drop_tracked [of S content a]]) simp_all
  qed
  then show ?thesis by (simp add: wlp_def def)
qed

lemma settle_untracked:
  "untracked S content A s s' \<Longrightarrow> settle_tx clock s' t = (if t \<in> A then id else settle_tx clock s t)"
  by (auto simp: untracked_def settle_tx_def request_list_def settled_def fun_eq_iff)

lemma dom_untracked: "untracked S content A s s' \<Longrightarrow> dom (map_of (txs s')) = dom (map_of (txs s)) - A"
  by (auto simp: untracked_def dom_def split: if_splits)

lemma wlp_finalize_inputs:
  assumes ok: "sched_ok S content s"
  shows "wlp (for_each (finalize_input S) ins) (\<lambda>_ s'. sched_ok S content s' \<and>
      untracked S content (op_txid ` set ins \<inter> dom (map_of (txs s))) s s' \<and>
      utxo_at S content (sc_db s') = utxo_at S content (sc_db s) |` (- out_point_to_bytes ` set ins) \<and>
      finalized_at S content (sc_db s') = finalized_at S content (sc_db s)) s"
proof (rule wlp_for_each_prefix [where I = "\<lambda>ys a. sched_ok S content a \<and>
    untracked S content (op_txid ` set ys \<inter> dom (map_of (txs s))) s a \<and>
    utxo_at S content (sc_db a) = utxo_at S content (sc_db s) |` (- out_point_to_bytes ` set ys) \<and>
    finalized_at S content (sc_db a) = finalized_at S content (sc_db s)"])
  fix ys x zs a
  assume a: "sched_ok S content a \<and> untracked S content (op_txid ` set ys \<inter> dom (map_of (txs s))) s a \<and>
    utxo_at S content (sc_db a) = utxo_at S content (sc_db s) |` (- out_point_to_bytes ` set ys) \<and>
    finalized_at S content (sc_db a) = finalized_at S content (sc_db s)"
  then have "dom (map_of (txs a)) = dom (map_of (txs s)) - op_txid ` set ys \<inter> dom (map_of (txs s))"
    by (intro dom_untracked [of S content]) blast
  then have A: "op_txid ` set (ys @ [x]) \<inter> dom (map_of (txs s)) =
      op_txid ` set ys \<inter> dom (map_of (txs s)) \<union> {op_txid x} \<inter> dom (map_of (txs a))"
    unfolding set_append list.set image_Un image_insert image_empty by blast
  have ok': "sched_ok S content a" and u: "untracked S content (op_txid ` set ys \<inter> dom (map_of (txs s))) s a"
    using a by blast+
  have m: "(m |` (- K))(k := None) = m |` (- (K \<union> {k}))" for m :: "u8 list \<Rightarrow> utxo option" and K k
    by (auto simp: restrict_map_def fun_eq_iff)
  show "wlp (finalize_input S x) (\<lambda>_ b. sched_ok S content b \<and>
      untracked S content (op_txid ` set (ys @ [x]) \<inter> dom (map_of (txs s))) s b \<and>
      utxo_at S content (sc_db b) = utxo_at S content (sc_db s) |` (- out_point_to_bytes ` set (ys @ [x])) \<and>
      finalized_at S content (sc_db b) = finalized_at S content (sc_db s)) a"
    unfolding A
    unfolding set_append list.set image_Un image_insert image_empty m [symmetric]
    by (rule wlp_mono [OF wlp_finalize_input [OF ok']], elim conjE, intro conjI, assumption,
        erule untracked_trans [OF u]) (use a in auto)
qed (use ok untracked_refl in \<open>simp_all add: restrict_map_def\<close>)

text \<open>The elements of a list in the order in which they first occur.\<close>

definition firsts :: "'a list \<Rightarrow> 'a list" where
  "firsts xs = rev (remdups (rev xs))"

lemma firsts_simps [simp]:
  "firsts [] = []" "firsts (xs @ [x]) = (if x \<in> set xs then firsts xs else firsts xs @ [x])" "set (firsts xs) = set xs"
  by (simp_all add: firsts_def)

lemma fold_skip: "(\<And>x. x \<in> set xs \<Longrightarrow> \<not> P x \<Longrightarrow> f x = id) \<Longrightarrow> fold f xs = fold f (filter P xs)"
  by (induction xs) auto

lemma wlp_finalize_txs:
  assumes ok: "sched_ok S content s"
  shows "wlp (for_each (finalize_tx S clock) ts) (\<lambda>_ s'. sched_ok S content s' \<and> untracked S content (set ts) s s' \<and>
      utxo_at S content (sc_db s') = utxo_at S content (sc_db s) \<and>
      finalized_at S content (sc_db s') = fold (settle_tx clock s) (firsts ts) (finalized_at S content (sc_db s))) s"
proof (rule wlp_for_each_prefix [where I = "\<lambda>ys a. sched_ok S content a \<and> untracked S content (set ys) s a \<and>
    utxo_at S content (sc_db a) = utxo_at S content (sc_db s) \<and>
    finalized_at S content (sc_db a) = fold (settle_tx clock s) (firsts ys) (finalized_at S content (sc_db s))"])
  fix ys x zs a
  assume a: "sched_ok S content a \<and> untracked S content (set ys) s a \<and>
    utxo_at S content (sc_db a) = utxo_at S content (sc_db s) \<and>
    finalized_at S content (sc_db a) = fold (settle_tx clock s) (firsts ys) (finalized_at S content (sc_db s))"
  then have settle: "settle_tx clock a x = (if x \<in> set ys then id else settle_tx clock s x)"
    by (intro settle_untracked [of S content]) blast
  have u: "untracked S content (set (ys @ [x])) s c" if "untracked S content {x} a c" for c
    using untracked_trans [of S content "set ys" s a "{x}" c] a that by simp
  show "wlp (finalize_tx S clock x) (\<lambda>_ c. sched_ok S content c \<and> untracked S content (set (ys @ [x])) s c \<and>
      utxo_at S content (sc_db c) = utxo_at S content (sc_db s) \<and>
      finalized_at S content (sc_db c) = fold (settle_tx clock s) (firsts (ys @ [x])) (finalized_at S content (sc_db s))) a"
    by (rule wlp_mono [OF wlp_finalize_tx]) (use a settle u in auto)
qed (use ok untracked_refl in simp_all)

section \<open>Finalizing a block\<close>

definition spent_by :: "'t scheduler \<Rightarrow> block_info \<Rightarrow> out_point set" where
  "spent_by s blk = set (relevant_inputs blk) \<union> (\<Union>t \<in> set (relevant_txs blk). inputs_of s t)"

definition expected_spk ::
    "('t, 'b, 'e, 'kp, 'pp) store \<Rightarrow> ('pp \<Rightarrow> script option) \<Rightarrow> 't scheduler \<Rightarrow> script option" where
  "expected_spk S spk_of s = (case fst (get_change_spk S spk_of (sc_db s)) of Ok k \<Rightarrow> Some k | _ \<Rightarrow> None)"

lemma wlp_expected_spk:
  "wlp (try_eff (on_db (get_change_spk S spk_of))) (\<lambda>r s'. s' = s \<and> spk_known r = expected_spk S spk_of s) s"
  using get_change_spk_reads [of S spk_of "sc_db s"]
  by (auto simp: wlp_def try_eff_def on_db_def on_part_def expected_spk_def split: prod.splits result.splits)

lemma wlp_finalize_end:
  assumes "sched_ok S content s"
  shows "wlp (bind_eff (on_db (get_all_utxos S)) (\<lambda>us. bind_eff (lift_result (sum_amounts (f us)))
      (\<lambda>_. bind_eff (modify (\<lambda>s. s\<lparr>last_finalized := h\<rparr>)) (\<lambda>_. on_db (db_flush S)))))
    (\<lambda>_ s'. s' = s\<lparr>last_finalized := h\<rparr>) s"
proof -
  have db: "db_ok S content (sc_db s)" using assms by (simp add: sched_ok_def)
  have read: "wlp (get_all_utxos S) (\<lambda>_ d. d = sc_db s) (sc_db s)" by (rule wlp_wp [OF wp_get_all_utxos [OF db]]) simp
  show ?thesis
    unfolding wlp_simps
    by (rule wlp_mono [OF read]) (auto intro!: wlp_flush [OF db_ok_sled [OF db]] split: result.split)
qed

lemma settled_last:
  "sched_ok S content (s'\<lparr>last_finalized := h\<rparr>) = sched_ok S content s'"
  "untracked S content A s (s'\<lparr>last_finalized := h\<rparr>) = untracked S content A s s'"
  by (simp_all add: sched_ok_def untracked_def)

lemma wlp_finalize_rest:
  assumes ok: "sched_ok S content s"
  shows "wlp (bind_eff (for_each (finalize_input S) ins) (\<lambda>_. for_each (finalize_tx S clock) ts)) (\<lambda>_ s'. sched_ok S content s' \<and>
      untracked S content (set ts \<union> op_txid ` set ins \<inter> dom (map_of (txs s))) s s' \<and>
      utxo_at S content (sc_db s') = utxo_at S content (sc_db s) |` (- out_point_to_bytes ` set ins) \<and>
      finalized_at S content (sc_db s') =
        fold (settle_tx clock s) (filter (\<lambda>t. t \<notin> op_txid ` set ins) (firsts ts)) (finalized_at S content (sc_db s))) s"
  unfolding wlp_bind
proof (rule wlp_mono [OF wlp_finalize_inputs [OF ok]], elim conjE)
  let ?A = "op_txid ` set ins \<inter> dom (map_of (txs s))"
  fix a
  assume a: "sched_ok S content a" "untracked S content ?A s a"
    "utxo_at S content (sc_db a) = utxo_at S content (sc_db s) |` (- out_point_to_bytes ` set ins)"
    "finalized_at S content (sc_db a) = finalized_at S content (sc_db s)"
  have none: "settle_tx clock s t = id" if "t \<notin> dom (map_of (txs s))" for t
    using that by (auto simp: settle_tx_def request_list_def settled_def fun_eq_iff split: option.splits)
  have settle: "settle_tx clock a t = (if t \<in> op_txid ` set ins then id else settle_tx clock s t)" for t
    using settle_untracked [OF a(2), of clock t] none [of t] by auto
  have "fold (settle_tx clock a) (firsts ts) = fold (settle_tx clock a) (filter (\<lambda>t. t \<notin> op_txid ` set ins) (firsts ts))"
    by (rule fold_skip) (simp add: settle)
  also have "\<dots> = fold (settle_tx clock s) (filter (\<lambda>t. t \<notin> op_txid ` set ins) (firsts ts))"
    by (intro ext List.fold_cong) (auto simp: settle)
  finally have all: "fold (settle_tx clock a) (firsts ts) =
      fold (settle_tx clock s) (filter (\<lambda>t. t \<notin> op_txid ` set ins) (firsts ts))" .
  have A: "set ts \<union> ?A = ?A \<union> set ts" by blast
  show "wlp (for_each (finalize_tx S clock) ts) (\<lambda>_ s'. sched_ok S content s' \<and> untracked S content (set ts \<union> ?A) s s' \<and>
      utxo_at S content (sc_db s') = utxo_at S content (sc_db s) |` (- out_point_to_bytes ` set ins) \<and>
      finalized_at S content (sc_db s') =
        fold (settle_tx clock s) (filter (\<lambda>t. t \<notin> op_txid ` set ins) (firsts ts)) (finalized_at S content (sc_db s))) a"
    unfolding A
    by (rule wlp_mono [OF wlp_finalize_txs [OF a(1)]]) (use a all in \<open>auto intro: untracked_trans\<close>)
qed

text \<open>When no row can be old enough to be pruned, settling adds the keys of the requests and drops none.\<close>

definition recent :: "u64 \<Rightarrow> u64 option \<Rightarrow> bool" where
  "recent b ts \<longleftrightarrow> (case ts of None \<Rightarrow> True | Some t \<Rightarrow> b \<le> t)"

definition within :: "u64 \<Rightarrow> u64 \<Rightarrow> bool" where
  "within b now \<longleftrightarrow> b \<le> now \<and> saturating_sub now RETENTION_WINDOW_SECONDS \<le> b"

definition all_recent :: "u64 \<Rightarrow> (u8 list \<Rightarrow> finalized_pegout option) \<Rightarrow> bool" where
  "all_recent b m \<longleftrightarrow> (\<forall>k p. m k = Some p \<longrightarrow> recent b (fp_timestamp p))"

lemma pruned_recent:
  assumes "within b now" and "recent b (fp_timestamp p)"
  shows "\<exists>q. pruned now p = Some q \<and> recent b (fp_timestamp q)"
  using assms by (auto simp: pruned_def recent_def within_def split: option.splits)

lemma all_recent_pruned:
  assumes "within b now" and "all_recent b m"
  shows "all_recent b (\<lambda>k. Option.bind (m k) (pruned now))" and "dom (\<lambda>k. Option.bind (m k) (pruned now)) = dom m"
proof -
  have m: "m k = None \<or> (\<exists>p q. m k = Some p \<and> pruned now p = Some q \<and> recent b (fp_timestamp q))" for k
    using assms pruned_recent unfolding all_recent_def by (cases "m k") auto
  show "all_recent b (\<lambda>k. Option.bind (m k) (pruned now))"
    using m unfolding all_recent_def by (metis bind.bind_lunit bind.bind_lzero option.inject option.simps(3))
  show "dom (\<lambda>k. Option.bind (m k) (pruned now)) = dom m"
    using m unfolding dom_def by (intro Collect_cong) (metis bind.bind_lunit bind.bind_lzero option.simps(3))
qed

lemma settled_recent:
  assumes "within b now" and "all_recent b m" and "\<forall>p \<in> set ps. recent b (pr_timestamp p)"
  shows "all_recent b (settled now ps m) \<and> dom (settled now ps m) = dom m \<union> request_key ` set ps"
proof -
  let ?G = "keyed_finalized ps ++ m"
  have "all_recent b ?G" "dom ?G = dom m \<union> request_key ` set ps"
    using assms(2,3)
    by (auto simp: all_recent_def map_add_Some_iff finalized_of_def dom_map_of_conv_image_fst image_image
        dest!: map_of_SomeD)
  with all_recent_pruned [OF assms(1), of ?G] assms(2) show ?thesis by (simp add: settled_def)
qed

lemma settle_all_recent:
  assumes "\<forall>t \<in> set ts. within b (the (clock t))" and "all_recent b m"
    and "\<forall>t \<in> set ts. \<forall>p \<in> requests_of s t. recent b (pr_timestamp p)"
  shows "dom (fold (settle_tx clock s) ts m) = dom m \<union> request_key ` (\<Union>t \<in> set ts. requests_of s t)"
  using assms
proof (induction ts arbitrary: m)
  case (Cons t ts)
  then have one: "all_recent b (settle_tx clock s t m)" "dom (settle_tx clock s t m) = dom m \<union> request_key ` requests_of s t"
    using settled_recent [of b "the (clock t)" m "request_list s t"] by (simp_all add: settle_tx_def requests_of_def)
  with Cons.IH [OF _ one(1)] Cons.prems show ?case by (simp add: image_Un Un_assoc)
qed simp

text \<open>
  (C7) Finalizing a block settles it. When \<open>finalize_block\<close> succeeds, the wallet has gained the change
  outputs of the block's transactions that pay the change script and lost every output they spend;
  the transactions are tracked neither in memory nor in the database. The finalized table is what
  one gets by taking the block's transactions in turn, each once and without those whose own output is
  spent in the same block: the pegouts of the transaction are added with the times of their requests,
  then every row older than the retention window at the time of the step is dropped, which may be one
  just added, and rows without a time get the current one. When no row and no request is that old,
  exactly the pegouts of these transactions are added. The window of blocks, the indexes of the
  tracked transactions and all other tables are as before, and the block is the last finalized one.
  Of the other transactions those are dropped whose outputs are spent, not those whose inputs are
  spent: a transaction that lost a double spend stays tracked.
\<close>

theorem finalize_settles_block:
  assumes ok: "sched_ok S content s" and run: "finalize_block S spk_of clock blk s = (Ok (), s')"
  defines "settled_txs \<equiv> filter (\<lambda>t. t \<notin> op_txid ` spent_by s blk) (firsts (relevant_txs blk))"
  shows "last_finalized s' = bi_hash blk \<and> sched_ok S content s' \<and>
    untracked S content (set (relevant_txs blk) \<union> op_txid ` spent_by s blk \<inter> dom (map_of (txs s))) s s' \<and>
    utxo_at S content (sc_db s') =
      (keyed_utxos (concat (map (change_rows (expected_spk S spk_of s) s) (relevant_txs blk))) ++ utxo_at S content (sc_db s))
        |` (- out_point_to_bytes ` spent_by s blk) \<and>
    finalized_at S content (sc_db s') = fold (settle_tx clock s) settled_txs (finalized_at S content (sc_db s)) \<and>
    (\<forall>b. list_all (\<lambda>t. within b (the (clock t))) settled_txs \<and> all_recent b (finalized_at S content (sc_db s)) \<and>
       list_all (\<lambda>t. list_all (\<lambda>p. recent b (pr_timestamp p)) (request_list s t)) settled_txs \<longrightarrow>
       dom (finalized_at S content (sc_db s')) =
         dom (finalized_at S content (sc_db s)) \<union> request_key ` (\<Union>t \<in> set settled_txs. requests_of s t))"
proof -
  let ?spk = "expected_spk S spk_of s" and ?rel = "relevant_txs blk"
  let ?U = "keyed_utxos (concat (map (change_rows ?spk s) ?rel)) ++ utxo_at S content (sc_db s)"
  let ?A = "set ?rel \<union> op_txid ` spent_by s blk \<inter> dom (map_of (txs s))"
  define Q where "Q = (\<lambda>s'. sched_ok S content s' \<and> untracked S content ?A s s' \<and>
    utxo_at S content (sc_db s') = ?U |` (- out_point_to_bytes ` spent_by s blk) \<and>
    finalized_at S content (sc_db s') = fold (settle_tx clock s) settled_txs (finalized_at S content (sc_db s)))"
  have Q_ok: "sched_ok S content c" if "Q c" for c using that by (simp add: Q_def)
  have rest: "wlp (bind_eff (for_each (finalize_input S) all) (\<lambda>_. for_each (finalize_tx S clock) ?rel)) (\<lambda>_. Q) (s\<lparr>sc_db := d\<rparr>)"
    if d: "sched_ok S content (s\<lparr>sc_db := d\<rparr>)" "changes_only Utxos (sc_db s) d" "utxo_at S content d = ?U"
      and all: "set all = spent_by s blk" for d all
  proof -
    have "changes_in {Utxos} (sc_db s) d" using d(2) by (intro changes_only_in) simp_all
    note same = changes_in_at [OF this, of S content]
    have settle: "settle_tx clock (s\<lparr>sc_db := d\<rparr>) = settle_tx clock s"
      by (simp add: fun_eq_iff settle_tx_def request_list_def)
    have "untracked S content {} s (s\<lparr>sc_db := d\<rparr>)" by (rule untracked_db [OF d(2)]) simp
    note u = untracked_trans [OF this, simplified]
    show ?thesis
      by (rule wlp_mono [OF wlp_finalize_rest [OF d(1), of all]])
        (use same d(3) u in \<open>simp add: Q_def settle all settled_txs_def\<close>)
  qed
  have "wlp (finalize_block S spk_of clock blk) (\<lambda>_ s'. \<exists>c. Q c \<and> s' = c\<lparr>last_finalized := bi_hash blk\<rparr>) s"
    unfolding finalize_block_def wlp_bind [of "try_eff _"] wlp_bind [of "finalize_outputs _ _ _ _"] wlp_bind [of "for_each _ _"]
    by (rule wlp_mono [OF wlp_expected_spk], elim conjE, hypsubst, rule wlp_mono [OF wlp_finalize_outputs [OF ok]],
        elim conjE exE, hypsubst, rule wlp_mono [OF rest [unfolded wlp_bind]])
      (assumption | simp add: spent_by_def; fail | (erule wlp_mono, rule wlp_mono [OF wlp_finalize_end, OF Q_ok], assumption, blast))+
  from wlp_Ok [OF this run] obtain c where c: "Q c" "s' = c\<lparr>last_finalized := bi_hash blk\<rparr>" by blast
  have "list_all (\<lambda>t. within b (the (clock t))) settled_txs \<and> all_recent b (finalized_at S content (sc_db s)) \<and>
      list_all (\<lambda>t. list_all (\<lambda>p. recent b (pr_timestamp p)) (request_list s t)) settled_txs \<longrightarrow>
    dom (fold (settle_tx clock s) settled_txs (finalized_at S content (sc_db s))) =
      dom (finalized_at S content (sc_db s)) \<union> request_key ` (\<Union>t \<in> set settled_txs. requests_of s t)" for b
    by (intro impI settle_all_recent) (auto simp: list_all_iff requests_of_def)
  with c(1) [unfolded Q_def] show ?thesis by (simp add: c(2) settled_last)
qed

text \<open>A wallet whose only transaction pays one pegout and keeps a change output.\<close>

definition sample_payment :: tracked_tx where
  "sample_payment = \<lparr>tr_txid = 41, tr_tx = (sample_spend 41)\<lparr>tx_output :=
     [\<lparr>txo_value = 1000, script_pubkey = []\<rparr>, \<lparr>txo_value = 500, script_pubkey = [81]\<rparr>]\<rparr>, pegout_idxs = [0],
     pegout_requests = [sample_pending 5 2], change_idxs = [1], tr_created = 100\<rparr>"

definition sample_wallet :: "(u8 list, sample_bytes) rbt scheduler" where
  "sample_wallet = sample_scheduler\<lparr>txs := [(41, sample_payment)],
     sc_db := sample_db(PubkeyPackages := RBT.insert (le_bytes_u32 LEGACY_MULTISIG_ID) (BKey 7) RBT.empty)\<rparr>"

definition sample_block :: block_info where
  "sample_block = \<lparr>bi_hash = 2, relevant_txs = [41], relevant_inputs = []\<rparr>"

abbreviation sample_change :: utxo where
  "sample_change \<equiv> \<lparr>ut_outpoint = \<lparr>op_txid = 41, op_vout = 1\<rparr>, ut_output = \<lparr>txo_value = 500, script_pubkey = [81]\<rparr>,
     ut_eth_address = None, ut_version = 0\<rparr>"

abbreviation sample_input :: out_point where
  "sample_input \<equiv> \<lparr>op_txid = 90, op_vout = 0\<rparr>"

lemma sample_wallet_ok: "sched_ok sample_store sample_content sample_wallet"
proof -
  have "db_ok sample_store sample_content (sc_db sample_wallet)"
    by (rule db_ok_other [OF sample_db_ok]) (simp_all add: sample_wallet_def)
  moreover have "tracked_ok sample_payment" "tr_txid sample_payment = 41"
    by (simp_all add: tracked_ok_def sample_payment_def request_ok_def pegout_id_ok_def sample_pending_def)
  ultimately show ?thesis by (simp add: sched_ok_def sample_wallet_def wf_map_def)
qed

lemma sample_inputs: "inputs sample_payment = [sample_input]"
  by (simp add: inputs_def sample_payment_def sample_spend_def)

lemma sample_change_spk:
  "get_change_spk sample_store (\<lambda>_. Some [81]) (sc_db sample_wallet) = (Ok [81], sc_db sample_wallet)"
  by (simp add: get_change_spk_def get_public_key_package_def get_public_key_package_by_id_def read_row_def eff_defs
      tree_get_def sample_engine(1) sample_wallet_def sample_de)

lemma sample_change_rows:
  "(lift_result (change sample_payment) :: (_, unit db_error, _) eff) s = (Ok [(ut_outpoint sample_change, ut_output sample_change)], s)"
  by (simp add: change_def outputs_at_def sample_payment_def lift_result_def)

definition sample_utxo_tree :: "(u8 list, sample_bytes) rbt" where
  "sample_utxo_tree = RBT.insert (utxo_key sample_change) (BUtxo (skip_outpoint sample_change)) RBT.empty"

lemma sample_outputs_run:
  "finalize_outputs sample_store (Inr [81]) [41] [] sample_wallet =
    (Ok [sample_input], sample_wallet\<lparr>sc_db := (sc_db sample_wallet)(Utxos := sample_utxo_tree)\<rparr>)"
proof -
  have e: "sc_db sample_wallet Utxos = RBT.empty" by (simp add: sample_wallet_def sample_db_def)
  have "change_utxos sample_store [81] [(ut_outpoint sample_change, ut_output sample_change)] (sc_db sample_wallet) =
      ((Ok [sample_change], sc_db sample_wallet) :: (unit db_error, _) result \<times> _)"
    by (simp add: Let_def eff_defs get_utxo_def tree_get_def sample_engine(1) e)
  moreover have "store_utxos sample_store [sample_change] (sc_db sample_wallet) =
      (Ok True, (sc_db sample_wallet)(Utxos := sample_utxo_tree))"
    by (simp add: store_utxos_def store_utxo_def insert_row_def eff_defs tree_contains_key_def tree_insert_def write_tree_def
        sample_engine(2,3,11) e sample_utxo_tree_def)
  moreover have "map_of (txs sample_wallet) 41 = Some sample_payment" by (simp add: sample_wallet_def)
  ultimately show ?thesis
    by (simp add: bind_eff_def gets_def on_db_def on_part_def sample_change_rows sample_flush sample_inputs return_eff_def
        lift_result_def [of "Ok _"])
qed

lemma sample_input_run:
  assumes "map_of (txs s) 90 = None"
  shows "for_each (finalize_input sample_store) [sample_input] s =
    (Ok (), s\<lparr>sc_db := (sc_db s)(Utxos := RBT.delete (out_point_to_bytes sample_input) (sc_db s Utxos))\<rparr>)"
  using assms
  by (simp add: finalize_input_def eff_defs on_db_def remove_utxo_def tree_remove_def write_tree_def sample_engine(4) sample_flush)

lemma sample_settle_run:
  assumes "db FinalizedPegoutIds = RBT.empty"
  shows "\<exists>t. store_finalized_pegout_ids_atomically sample_store [p] db =
      (Ok (), db(FinalizedPegoutIds := RBT.insert (finalized_key p) (BFinalized p) RBT.empty)) \<and>
    prune_finalized_pegout_ids sample_store (Some 1000) (db(FinalizedPegoutIds := RBT.insert (finalized_key p) (BFinalized p) RBT.empty)) =
      (Ok (), db(FinalizedPegoutIds := t))"
proof -
  let ?db = "db(FinalizedPegoutIds := RBT.insert (finalized_key p) (BFinalized p) RBT.empty)"
  have "get_finalized_pegout_ids sample_store ?db = (Ok [p], ?db)"
    by (simp add: get_finalized_pegout_ids_def collect_rows_def sample_engine(6) single_row sample_de)
  then have "\<exists>t. prune_finalized_pegout_ids sample_store (Some 1000) ?db = (Ok (), db(FinalizedPegoutIds := t))"
    by (auto simp: prune_finalized_pegout_ids_def transaction_eff_def eff_defs prune_row_def insert_row_def tree_insert_def
        tree_remove_def write_tree_def sample_engine(3,4,9) split: option.split)
  moreover have "store_finalized_pegout_ids_atomically sample_store [p] db = (Ok (), ?db)"
    using assms by (simp add: store_finalized_pegout_ids_atomically_def transaction_eff_def insert_new_row_def eff_defs tree_get_def
        tree_insert_def write_tree_def sample_engine(1,3,9))
  ultimately show ?thesis by blast
qed

lemma sample_tx_run:
  assumes "map_of (txs s) 41 = Some sample_payment" and "sc_db s FinalizedPegoutIds = RBT.empty"
  shows "\<exists>t u. for_each (finalize_tx sample_store (\<lambda>_. Some 1000)) [41] s =
    (Ok (), s\<lparr>txs := AList.delete 41 (txs s), sc_db := (sc_db s)(FinalizedPegoutIds := t, TrackedTxs := u)\<rparr>)"
proof -
  have "pegout_requests sample_payment = [sample_pending 5 2]" by (simp add: sample_payment_def)
  moreover obtain t where "store_finalized_pegout_ids_atomically sample_store [finalized_of (sample_pending 5 2)] (sc_db s) =
      (Ok (), (sc_db s)(FinalizedPegoutIds := RBT.insert (finalized_key (finalized_of (sample_pending 5 2)))
        (BFinalized (finalized_of (sample_pending 5 2))) RBT.empty))"
    "prune_finalized_pegout_ids sample_store (Some 1000) ((sc_db s)(FinalizedPegoutIds :=
        RBT.insert (finalized_key (finalized_of (sample_pending 5 2))) (BFinalized (finalized_of (sample_pending 5 2))) RBT.empty)) =
      (Ok (), (sc_db s)(FinalizedPegoutIds := t))"
    using sample_settle_run [of "sc_db s" "finalized_of (sample_pending 5 2)", OF assms(2)] by blast
  ultimately have "for_each (finalize_tx sample_store (\<lambda>_. Some 1000)) [41] s = (Ok (), s\<lparr>txs := AList.delete 41 (txs s),
      sc_db := (sc_db s)(FinalizedPegoutIds := t, TrackedTxs := RBT.delete (txid_bytes 41) (sc_db s TrackedTxs))\<rparr>)"
    using assms(1) by (simp add: finalize_tx_def finalized_of_def Let_def eff_defs on_db_def sample_flush remove_tracked_tx_def
        tree_remove_def write_tree_def sample_engine(4))
  then show ?thesis by blast
qed

lemma sample_end_run:
  assumes "db Utxos = RBT.delete (out_point_to_bytes sample_input) sample_utxo_tree"
  shows "get_all_utxos sample_store db = (Ok [sample_change], db)"
proof -
  have ne: "out_point_to_bytes sample_input \<noteq> utxo_key sample_change"
    using out_point_to_bytes_inj by fastforce
  have "RBT.entries (db Utxos) = [(utxo_key sample_change, BUtxo (skip_outpoint sample_change))]"
    unfolding assms sample_utxo_tree_def by (rule entries_unique) (use ne in \<open>auto simp: fun_eq_iff restrict_map_def\<close>)
  then show ?thesis
    by (simp add: get_all_utxos_def collect_rows_def sample_engine(6) sample_de
        sample_codecs_ok [unfolded codecs_ok_def] skip_outpoint_def)
qed

lemma sample_finalize_run:
  "\<exists>s'. finalize_block sample_store (\<lambda>_. Some [81]) (\<lambda>_. Some 1000) sample_block sample_wallet = (Ok (), s')"
proof -
  let ?a = "sample_wallet\<lparr>sc_db := (sc_db sample_wallet)(Utxos := sample_utxo_tree)\<rparr>"
  let ?b = "?a\<lparr>sc_db := (sc_db ?a)(Utxos := RBT.delete (out_point_to_bytes sample_input) (sc_db ?a Utxos))\<rparr>"
  have inp: "for_each (finalize_input sample_store) [sample_input] ?a = (Ok (), ?b)"
    by (rule sample_input_run) (simp add: sample_wallet_def)
  obtain t u where tx: "for_each (finalize_tx sample_store (\<lambda>_. Some 1000)) [41] ?b =
      (Ok (), ?b\<lparr>txs := AList.delete 41 (txs ?b), sc_db := (sc_db ?b)(FinalizedPegoutIds := t, TrackedTxs := u)\<rparr>)"
    using sample_tx_run [of ?b] by (auto simp: sample_wallet_def sample_db_def)
  have "get_all_utxos sample_store ((sc_db ?b)(FinalizedPegoutIds := t, TrackedTxs := u)) =
      (Ok [sample_change], (sc_db ?b)(FinalizedPegoutIds := t, TrackedTxs := u))"
    by (rule sample_end_run) simp
  then show ?thesis
    using sample_change_spk sample_outputs_run inp tx
    by (simp add: finalize_block_def bind_eff_def try_eff_def on_db_def on_part_def sample_block_def sum_amounts_def
        checked_add_def lift_result_def modify_def sample_flush del: for_each.simps finalize_outputs.simps)
qed

theorem finalize_settles_block_witness:
  "\<exists>s'. finalize_block sample_store (\<lambda>_. Some [81]) (\<lambda>_. Some 1000) sample_block sample_wallet = (Ok (), s') \<and>
     utxo_at sample_store sample_content (sc_db s') (utxo_key sample_change) = Some sample_change \<and>
     finalized_at sample_store sample_content (sc_db s') (request_key (sample_pending 5 2)) =
       Some (finalized_of (sample_pending 5 2)\<lparr>fp_timestamp := Some 1000\<rparr>) \<and>
     map_of (txs s') 41 = None"
proof -
  obtain s' where run: "finalize_block sample_store (\<lambda>_. Some [81]) (\<lambda>_. Some 1000) sample_block sample_wallet = (Ok (), s')"
    using sample_finalize_run ..
  have tx: "map_of (txs sample_wallet) 41 = Some sample_payment" by (simp add: sample_wallet_def)
  have req: "request_list sample_wallet 41 = [sample_pending 5 2]" by (simp add: request_list_def tx sample_payment_def)
  have rel: "relevant_txs sample_block = [41]" by (simp add: sample_block_def)
  have spent: "spent_by sample_wallet sample_block = {sample_input}"
    by (simp add: spent_by_def inputs_of_def sample_block_def tx sample_inputs)
  have spk: "expected_spk sample_store (\<lambda>_. Some [81]) sample_wallet = Some [81]"
    by (simp add: expected_spk_def sample_change_spk)
  have none: "utxo_at sample_store sample_content (sc_db sample_wallet) = Map.empty"
    "finalized_at sample_store sample_content (sc_db sample_wallet) = Map.empty"
    by (simp_all add: tables_at_def row_at_def sample_wallet_def sample_db_def sample_content_def fun_eq_iff)
  have rows: "change_rows (Some [81]) sample_wallet 41 = [sample_change]"
    by (simp add: change_rows_def tx change_points_def sample_payment_def)
  have ne: "utxo_key sample_change \<noteq> out_point_to_bytes sample_input" using out_point_to_bytes_inj by fastforce
  have settled: "filter (\<lambda>t. t \<notin> op_txid ` spent_by sample_wallet sample_block) (firsts (relevant_txs sample_block)) = [41]"
    by (simp add: spent rel firsts_def)
  have row: "settle_tx (\<lambda>_. Some 1000) sample_wallet 41 Map.empty (request_key (sample_pending 5 2)) =
      Some (finalized_of (sample_pending 5 2)\<lparr>fp_timestamp := Some 1000\<rparr>)"
    by (simp add: settle_tx_def settled_def req finalized_of_def pruned_def sample_pending_def)
  from finalize_settles_block [OF sample_wallet_ok run] run ne row show ?thesis
    unfolding settled by (simp add: spent spk none rows rel untracked_def)
qed

end
