(* ===== verification/SchedulerSync.thy ===== *)
theory SchedulerSync
  imports SchedulerFinalize
begin

text \<open>
  Following the Bitcoin chain: \<open>sync_until\<close>, \<open>track_mempool\<close> and \<open>is_syncing\<close> of
  \<open>btc-server/src/pegout_scheduler/mod.rs\<close>. The Bitcoin node is a parameter, the record \<open>node\<close> of
  its calls: each call answers from a state of the node and leaves a new one, so that the answers may
  change between two calls in any way. The state of an operation is the scheduler with the node. The
  two loops of \<open>sync_until\<close> that depend on the node alone may run forever; they are partial functions
  whose value is \<open>None\<close> then. \<open>now\<close> is the time read by \<open>is_syncing\<close>.
\<close>

section \<open>The node\<close>

record header_info =
  hi_hash :: block_hash
  hi_confirmations :: "32 word"
  hi_height :: nat
  hi_time :: nat
  previous_block_hash :: "block_hash option"

record ('n, 'r) node =
  nd_initialblockdownload :: "('n, 'r, bool) eff"
  nd_best_block_hash :: "('n, 'r, block_hash) eff"
  nd_block_header_info :: "block_hash \<Rightarrow> ('n, 'r, header_info) eff"
  nd_block :: "block_hash \<Rightarrow> ('n, 'r, block) eff"
  nd_block_height :: "block_hash \<Rightarrow> ('n, 'r, nat) eff"
  nd_raw_transaction :: "txid \<Rightarrow> ('n, 'r, block_hash option) eff"
  nd_mempool_entry :: "txid \<Rightarrow> ('n, 'r, unit) eff"
  nd_error_text :: "'r \<Rightarrow> string"

datatype ('e, 'r) sync_error =
    CheckPointNotReached
  | NodeNotSynced
  | Rpc 'r
  | DeepReorg
  | BlockError
  | SyncDb "'e db_error"
  | TrackedTxNotInBlock txid
  | DeeplyConfirmedTxNotFinalized txid
  | IncorrectChangeOutputCreated

definition on_sched :: "('t scheduler, 'e, 'a) eff \<Rightarrow> ('t scheduler \<times> 'n, 'e, 'a) eff" where
  "on_sched m = on_part fst (\<lambda>s sn. (s, snd sn)) m"

definition on_node :: "('n, 'e, 'a) eff \<Rightarrow> ('t scheduler \<times> 'n, 'e, 'a) eff" where
  "on_node m = on_part snd (\<lambda>n sn. (fst sn, n)) m"

abbreviation call :: "('n, 'r, 'a) eff \<Rightarrow> ('t scheduler \<times> 'n, ('e, 'r) sync_error, 'a) eff" where
  "call m \<equiv> map_err_eff Rpc (on_node m)"

definition NANOS :: int where
  "NANOS = 1000000000"

definition block_time :: "header_info \<Rightarrow> ('e, system_time) result" where
  "block_time h = (if hi_time h < 2 ^ 32 then Ok (NANOS * int (hi_time h)) else Panic)"

definition is_syncing :: "('n, 'r) node \<Rightarrow> system_time \<Rightarrow> ('n, 'r, bool) eff" where
  "is_syncing nd now =
     bind_eff (nd_initialblockdownload nd) (\<lambda>ibd.
     if ibd then return_eff True
     else bind_eff (nd_best_block_hash nd) (\<lambda>best_block_hash.
          bind_eff (nd_block_header_info nd best_block_hash) (\<lambda>tip.
          bind_eff (lift_result (block_time tip)) (\<lambda>t.
          let elapsed = max 0 (now - t) in return_eff (elapsed > NANOS * (60 * 60))))))"

section \<open>The mempool\<close>

text \<open>\<open>to_lowercase\<close> and \<open>contains\<close> on the ASCII text of an error.\<close>

definition to_lowercase :: "string \<Rightarrow> string" where
  "to_lowercase s = map (\<lambda>c. if 65 \<le> (of_char c :: nat) \<and> of_char c \<le> (90 :: nat) then char_of (of_char c + 32 :: nat) else c) s"

fun contains :: "string \<Rightarrow> string \<Rightarrow> bool" where
  "contains needle [] = (needle = [])"
| "contains needle (c # cs) = (take (length needle) (c # cs) = needle \<or> contains needle cs)"

definition TX_NOT_IN_MEMPOOL_BITCOIND_ERROR :: string where
  "TX_NOT_IN_MEMPOOL_BITCOIND_ERROR = ''transaction not in mempool''"

text \<open>A transaction on the chain is only logged, whether deeply confirmed or not.\<close>

definition track_one ::
    "('t, 'b, 'e, 'kp, 'pp) store \<Rightarrow> ('n, 'r) node \<Rightarrow> txid \<Rightarrow> ('t scheduler \<times> 'n, ('e, 'r) sync_error, unit) eff" where
  "track_one S nd txid =
     bind_eff (try_eff (on_node (nd_raw_transaction nd txid))) (\<lambda>onchain_tx. case onchain_tx of
       Inr None \<Rightarrow> return_eff ()
     | Inr (Some blockhash) \<Rightarrow> bind_eff (call (nd_block_height nd blockhash)) (\<lambda>actual_height. return_eff ())
     | Inl _ \<Rightarrow>
         bind_eff (gets (\<lambda>sn. map_of (txs (fst sn)) txid)) (\<lambda>t.
         bind_eff (lift_result (expect t)) (\<lambda>tx.
         bind_eff (try_eff (on_node (nd_mempool_entry nd txid))) (\<lambda>mempool_entry. case mempool_entry of
           Inr _ \<Rightarrow> return_eff ()
         | Inl e \<Rightarrow>
             if \<not> contains TX_NOT_IN_MEMPOOL_BITCOIND_ERROR (to_lowercase (nd_error_text nd e)) then return_eff ()
             else bind_eff (map_err_eff SyncDb (on_sched (un_track_tx S txid))) (\<lambda>_.
                  map_err_eff SyncDb (on_sched (add_tx_back_to_pending S tx)))))))"

definition track_mempool ::
    "('t, 'b, 'e, 'kp, 'pp) store \<Rightarrow> ('n, 'r) node \<Rightarrow> header_info \<Rightarrow> ('t scheduler \<times> 'n, ('e, 'r) sync_error, unit) eff" where
  "track_mempool S nd checkpoint =
     bind_eff (lift_result (block_time checkpoint)) (\<lambda>cp_time.
     bind_eff (gets (\<lambda>sn. map tr_txid (filter (\<lambda>tx. tr_created tx < cp_time) (map snd (txs (fst sn)))))) (\<lambda>maybe_dropped.
     for_each (track_one S nd) maybe_dropped))"

section \<open>The newest block still in the chain\<close>

text \<open>Operations that leave the window of blocks alone.\<close>

named_theorems keeps_intros

definition keeps_blocks :: "('t scheduler, 'e, 'a) eff \<Rightarrow> bool" where
  "keeps_blocks m \<longleftrightarrow> (\<forall>s. last_blocks (snd (m s)) = last_blocks s \<and> last_finalized (snd (m s)) = last_finalized s \<and>
     conf_window (snd (m s)) = conf_window s)"

lemma keeps_bind [keeps_intros]: "keeps_blocks m \<Longrightarrow> (\<And>x. keeps_blocks (f x)) \<Longrightarrow> keeps_blocks (bind_eff m f)"
  by (simp add: keeps_blocks_def bind_eff_def split: prod.splits result.splits) (metis fst_conv snd_conv)

lemma keeps_leaf [keeps_intros]:
  "keeps_blocks (return_eff x)" "keeps_blocks (lift_result r)" "keeps_blocks (gets g)" "keeps_blocks (on_db m')"
  by (simp_all add: keeps_blocks_def return_eff_def lift_result_def gets_def on_db_def on_part_def split: prod.splits)

lemma keeps_modify [keeps_intros]:
  "(\<And>s. last_blocks (g s) = last_blocks s \<and> last_finalized (g s) = last_finalized s \<and> conf_window (g s) = conf_window s) \<Longrightarrow>
    keeps_blocks (modify g)"
  by (simp add: keeps_blocks_def modify_def)

lemma keeps_wrap [keeps_intros]:
  "keeps_blocks m \<Longrightarrow> keeps_blocks (expect_eff m)" "keeps_blocks m \<Longrightarrow> keeps_blocks (try_eff m)"
  by (simp_all add: keeps_blocks_def expect_eff_def try_eff_def split: prod.splits result.splits) (metis snd_conv)+

lemma keeps_for_each [keeps_intros]: "(\<And>x. keeps_blocks (f x)) \<Longrightarrow> keeps_blocks (for_each f xs)"
  by (induction xs) (auto intro: keeps_intros)

lemma keeps_if [keeps_intros]: "keeps_blocks a \<Longrightarrow> keeps_blocks b \<Longrightarrow> keeps_blocks (if c then a else b)"
  by simp

lemma keeps_untrack [keeps_intros]:
  "keeps_blocks (un_track_tx S t)" "keeps_blocks (add_tx_back_to_pending S tx)"
  unfolding un_track_tx_def add_tx_back_to_pending_def by (intro keeps_intros; simp)+

lemma keeps_rollback_tx [keeps_intros]: "keeps_blocks (rollback_tx S t)"
  unfolding rollback_tx_def by (intro keeps_intros; simp)

lemma rollback_tip_blocks:
  assumes "rollback_tip S (s :: 't scheduler) = ((r :: ('f, unit) result), s')" and "r \<noteq> Panic"
  shows "last_blocks s \<noteq> [] \<and> last_blocks s' = butlast (last_blocks s) \<and> last_finalized s' = last_finalized s \<and>
    conf_window s' = conf_window s"
proof -
  let ?loop = "for_each (rollback_tx S) (relevant_txs (last (last_blocks s))) :: ('t scheduler, 'f, unit) eff"
  let ?s0 = "s\<lparr>last_blocks := butlast (last_blocks s)\<rparr>"
  have keeps: "keeps_blocks ?loop" by (intro keeps_intros)
  have "last_blocks s \<noteq> []" using assms by (auto simp: rollback_tip_def eff_defs assert_that_def split: if_splits)
  moreover have "?loop ?s0 = (r, s')"
    using assms calculation by (simp add: rollback_tip_def eff_defs assert_that_def)
  with keeps have "last_blocks s' = last_blocks ?s0 \<and> last_finalized s' = last_finalized ?s0 \<and> conf_window s' = conf_window ?s0"
    unfolding keeps_blocks_def by (metis snd_conv)
  ultimately show ?thesis by simp
qed

text \<open>Rolls back until the newest block of the window is in the chain.\<close>

function find_last ::
    "('t, 'b, 'e, 'kp, 'pp) store \<Rightarrow> ('n, 'r) node \<Rightarrow> ('t scheduler \<times> 'n, ('e, 'r) sync_error, header_info) eff" where
  "find_last S nd (s, n) =
     (if last_blocks s = [] then (Panic, (s, n))
      else case nd_block_header_info nd (bi_hash (last (last_blocks s))) n of (res, n') \<Rightarrow> (case res of
          Ok in_chain \<Rightarrow>
            if sint (hi_confirmations in_chain) > 0 then (Ok in_chain, (s, n'))
            else if length (last_blocks s) = 1 then (Err DeepReorg, (s, n'))
            else (case rollback_tip S s of (roll, s') \<Rightarrow> (case roll of
                Ok _ \<Rightarrow> find_last S nd (s', n')
              | Err e \<Rightarrow> (Err e, (s', n'))
              | Panic \<Rightarrow> (Panic, (s', n'))))
        | Err e \<Rightarrow> (Err (Rpc e), (s, n'))
        | Panic \<Rightarrow> (Panic, (s, n'))))"
  by pat_completeness auto
termination
  by (relation "measure (\<lambda>(S, nd, s, n). length (last_blocks s))")
    (auto dest!: rollback_tip_blocks [OF sym])

declare find_last.simps [simp del]

section \<open>Synchronization\<close>

definition find_once ::
    "('t, 'b, 'e, 'kp, 'pp) store \<Rightarrow> ('n, 'r) node \<Rightarrow>
     ('t scheduler \<times> 'n, ('e, 'r) sync_error, header_info \<times> header_info \<times> header_info) eff" where
  "find_once S nd =
     bind_eff (call (nd_best_block_hash nd)) (\<lambda>h.
     bind_eff (call (nd_block_header_info nd h)) (\<lambda>tip.
     bind_eff (find_last S nd) (\<lambda>last_info.
     bind_eff (call (nd_best_block_hash nd)) (\<lambda>h'.
     bind_eff (call (nd_block_header_info nd h')) (\<lambda>new_tip.
     return_eff (last_info, tip, new_tip))))))"

text \<open>Retried as long as the tip changes meanwhile.\<close>

partial_function (option) find_start ::
    "('t, 'b, 'e, 'kp, 'pp) store \<Rightarrow> ('n, 'r) node \<Rightarrow> 't scheduler \<times> 'n \<Rightarrow>
     ((('e, 'r) sync_error, header_info \<times> header_info) result \<times> ('t scheduler \<times> 'n)) option" where
  "find_start S nd sn = (case find_once S nd sn of (res, sn') \<Rightarrow> (case res of
       Ok found \<Rightarrow> (case found of (last_info, tip, new_tip) \<Rightarrow>
         if hi_hash tip = hi_hash new_tip then Some (Ok (last_info, tip), sn') else find_start S nd sn')
     | Err e \<Rightarrow> Some (Err e, sn')
     | Panic \<Rightarrow> Some (Panic, sn')))"

text \<open>The hashes from the tip back to the block after \<open>last_info\<close>.\<close>

partial_function (option) walk_back ::
    "('n, 'r) node \<Rightarrow> header_info \<Rightarrow> header_info \<Rightarrow> block_hash list \<Rightarrow> 'n \<Rightarrow>
     ((('e, 'r) sync_error, block_hash list) result \<times> 'n) option" where
  "walk_back nd last_info cursor to_sync n = (case previous_block_hash cursor of
       None \<Rightarrow> Some (Panic, n)
     | Some prevhash \<Rightarrow> (case nd_block_header_info nd prevhash n of (res, n') \<Rightarrow> (case res of
           Ok c \<Rightarrow>
             if hi_height c = hi_height last_info
             then (if hi_hash c = hi_hash last_info then Some (Ok to_sync, n') else Some (Panic, n'))
             else walk_back nd last_info c (to_sync @ [hi_hash c]) n'
         | Err e \<Rightarrow> Some (Err (Rpc e), n')
         | Panic \<Rightarrow> Some (Panic, n'))))"

text \<open>One more block: the oldest block of a full window is taken out and finalized.\<close>

definition sync_block ::
    "('t, 'b, 'e, 'kp, 'pp) store \<Rightarrow> ('pp \<Rightarrow> script option) \<Rightarrow> (transaction \<Rightarrow> txid) \<Rightarrow> (header \<Rightarrow> block_hash) \<Rightarrow>
     (txid \<Rightarrow> u64 option) \<Rightarrow> ('n, 'r) node \<Rightarrow> block_hash \<Rightarrow> ('t scheduler \<times> 'n, ('e, 'r) sync_error, unit) eff" where
  "sync_block S spk_of compute_txid block_hash clock nd hash =
     bind_eff (call (nd_block_header_info nd hash)) (\<lambda>info.
     bind_eff (call (nd_block nd hash)) (\<lambda>blk.
     bind_eff (on_sched (add_block compute_txid block_hash blk)) (\<lambda>_.
     bind_eff (gets (\<lambda>sn. (conf_window (fst sn), last_blocks (fst sn)))) (\<lambda>(window, blocks).
     if length blocks > unat window
     then bind_eff (on_sched (modify (\<lambda>s. s\<lparr>last_blocks := tl (last_blocks s)\<rparr>))) (\<lambda>_.
          map_err_eff SyncDb (on_sched (finalize_block S spk_of clock (hd blocks))))
     else return_eff ()))))"

fun sync_blocks ::
    "('t, 'b, 'e, 'kp, 'pp) store \<Rightarrow> ('pp \<Rightarrow> script option) \<Rightarrow> (transaction \<Rightarrow> txid) \<Rightarrow> (header \<Rightarrow> block_hash) \<Rightarrow>
     (txid \<Rightarrow> u64 option) \<Rightarrow> ('n, 'r) node \<Rightarrow> block_hash \<Rightarrow> block_hash list \<Rightarrow>
     ('t scheduler \<times> 'n, ('e, 'r) sync_error, unit) eff" where
  "sync_blocks S spk_of compute_txid block_hash clock nd checkpoint [] = return_eff ()"
| "sync_blocks S spk_of compute_txid block_hash clock nd checkpoint (hash # hashes) =
     bind_eff (gets (\<lambda>sn. last_finalized (fst sn))) (\<lambda>finalized.
     if finalized = checkpoint then return_eff ()
     else bind_eff (sync_block S spk_of compute_txid block_hash clock nd hash) (\<lambda>_.
          sync_blocks S spk_of compute_txid block_hash clock nd checkpoint hashes))"

text \<open>What follows when there are blocks to synchronize. The two calls at the end are only logged.\<close>

definition sync_rest ::
    "('t, 'b, 'e, 'kp, 'pp) store \<Rightarrow> ('pp \<Rightarrow> script option) \<Rightarrow> (transaction \<Rightarrow> txid) \<Rightarrow> (header \<Rightarrow> block_hash) \<Rightarrow>
     (txid \<Rightarrow> u64 option) \<Rightarrow> ('n, 'r) node \<Rightarrow> block_hash \<Rightarrow> header_info \<Rightarrow> block_hash list \<Rightarrow>
     ('t scheduler \<times> 'n, ('e, 'r) sync_error, unit) eff" where
  "sync_rest S spk_of compute_txid block_hash clock nd checkpoint cp_result to_sync =
     bind_eff (sync_blocks S spk_of compute_txid block_hash clock nd checkpoint (rev to_sync)) (\<lambda>_.
     bind_eff (track_mempool S nd cp_result) (\<lambda>_.
     bind_eff (gets (\<lambda>sn. last_finalized (fst sn))) (\<lambda>finalized.
     if finalized = checkpoint then return_eff ()
     else bind_eff (try_eff (on_node (nd_block_header_info nd finalized))) (\<lambda>_.
          bind_eff (try_eff (on_node (nd_block_header_info nd checkpoint))) (\<lambda>_.
          raise_eff CheckPointNotReached)))))"

text \<open>Operations that may run forever.\<close>

type_synonym ('s, 'e, 'a) deff = "'s \<Rightarrow> (('e, 'a) result \<times> 's) option"

definition ends :: "('s, 'e, 'a) eff \<Rightarrow> ('s, 'e, 'a) deff" where
  "ends m s = Some (m s)"

definition bind_deff :: "('s, 'e, 'a) deff \<Rightarrow> ('a \<Rightarrow> ('s, 'e, 'b) deff) \<Rightarrow> ('s, 'e, 'b) deff" where
  "bind_deff m f s = (case m s of None \<Rightarrow> None | Some (r, s') \<Rightarrow>
     (case r of Ok x \<Rightarrow> f x s' | Err e \<Rightarrow> Some (Err e, s') | Panic \<Rightarrow> Some (Panic, s')))"

definition walk_node :: "('n, 'e, 'a) deff \<Rightarrow> ('t scheduler \<times> 'n, 'e, 'a) deff" where
  "walk_node m sn = map_option (\<lambda>(r, n). (r, (fst sn, n))) (m (snd sn))"

definition sync_checks ::
    "('n, 'r) node \<Rightarrow> system_time \<Rightarrow> block_hash \<Rightarrow> ('t scheduler \<times> 'n, ('e, 'r) sync_error, header_info) eff" where
  "sync_checks nd now checkpoint =
     bind_eff (call (nd_block_header_info nd checkpoint)) (\<lambda>cp_result.
     bind_eff (gets (\<lambda>sn. last_finalized (fst sn))) (\<lambda>finalized.
     bind_eff (try_eff (on_node (nd_block_header_info nd finalized))) (\<lambda>_.
     bind_eff (call (is_syncing nd now)) (\<lambda>syncing.
     if syncing then raise_eff NodeNotSynced else return_eff cp_result))))"

definition sync_until ::
    "('t, 'b, 'e, 'kp, 'pp) store \<Rightarrow> ('pp \<Rightarrow> script option) \<Rightarrow> (transaction \<Rightarrow> txid) \<Rightarrow> (header \<Rightarrow> block_hash) \<Rightarrow>
     (txid \<Rightarrow> u64 option) \<Rightarrow> ('n, 'r) node \<Rightarrow> system_time \<Rightarrow> block_hash \<Rightarrow>
     ('t scheduler \<times> 'n, ('e, 'r) sync_error, unit) deff" where
  "sync_until S spk_of compute_txid block_hash clock nd now checkpoint =
     bind_deff (ends (sync_checks nd now checkpoint)) (\<lambda>cp_result.
     bind_deff (find_start S nd) (\<lambda>(last_info, tip).
     if hi_height last_info = hi_height tip
     then ends (lift_result (assert_that (hi_hash tip = hi_hash last_info)))
     else bind_deff (walk_node (walk_back nd last_info tip [hi_hash tip])) (\<lambda>to_sync.
          ends (sync_rest S spk_of compute_txid block_hash clock nd checkpoint cp_result to_sync))))"

section \<open>Termination\<close>

text \<open>A node whose answers do not change, and in which the height goes down from a block to its
  predecessor.\<close>

definition stable_node :: "('n, 'r) node \<Rightarrow> 'n \<Rightarrow> bool" where
  "stable_node nd n \<longleftrightarrow> snd (nd_initialblockdownload nd n) = n \<and> snd (nd_best_block_hash nd n) = n \<and>
     (\<forall>h. snd (nd_block_header_info nd h n) = n)"

definition heights_descend :: "('n, 'r) node \<Rightarrow> 'n \<Rightarrow> bool" where
  "heights_descend nd n \<longleftrightarrow> (\<forall>h i p j. nd_block_header_info nd h n = (Ok i, n) \<longrightarrow> previous_block_hash i = Some p \<longrightarrow>
     nd_block_header_info nd p n = (Ok j, n) \<longrightarrow> hi_height j < hi_height i)"

lemma walk_back_ends:
  assumes "stable_node nd n" and "heights_descend nd n" and "nd_block_header_info nd h n = (Ok cursor, n)"
  shows "\<exists>r. walk_back nd last_info cursor to_sync n = Some (r, n)"
  using assms(3)
proof (induction "hi_height cursor" arbitrary: h cursor to_sync rule: less_induct)
  case less
  show ?case
  proof (cases "previous_block_hash cursor")
    case (Some p)
    obtain res where res: "nd_block_header_info nd p n = (res, n)"
      using assms(1) by (metis prod.collapse stable_node_def)
    show ?thesis
    proof (cases res)
      case (Ok c)
      have "hi_height c < hi_height cursor"
        using assms(2) less.prems Some res Ok by (simp add: heights_descend_def)
      then show ?thesis
        using less.hyps [of c p "to_sync @ [hi_hash c]"] res Ok Some by (simp add: walk_back.simps)
    qed (simp_all add: walk_back.simps Some res)
  qed (simp add: walk_back.simps)
qed

text \<open>Operations that leave the node in the state \<open>n\<close>.\<close>

named_theorems still_intros

definition still :: "'n \<Rightarrow> ('t scheduler \<times> 'n, 'e, 'a) eff \<Rightarrow> bool" where
  "still n m \<longleftrightarrow> (\<forall>s. snd (snd (m (s, n))) = n)"

lemma still_bind [still_intros]: "still n m \<Longrightarrow> (\<And>x. still n (f x)) \<Longrightarrow> still n (bind_eff m f)"
  by (simp add: still_def bind_eff_def split: prod.splits result.splits) (metis snd_conv)

lemma still_leaf [still_intros]:
  "still n (return_eff x)" "still n (raise_eff e)" "still n (lift_result r)" "still n (gets g)"
  by (simp_all add: still_def return_eff_def raise_eff_def lift_result_def gets_def)

lemma still_node [still_intros]:
  "snd (m n) = n \<Longrightarrow> still n (on_node m)" "still n m' \<Longrightarrow> still n (map_err_eff g m')" "still n m' \<Longrightarrow> still n (try_eff m')"
  by (auto simp: still_def on_node_def on_part_def map_err_eff_def try_eff_def split: prod.splits result.splits) (metis snd_conv)+

lemma still_if [still_intros]: "still n a \<Longrightarrow> still n b \<Longrightarrow> still n (if c then a else b)"
  by simp

lemma stays_bind: "snd (m n) = n \<Longrightarrow> (\<And>x. snd (f x n) = n) \<Longrightarrow> snd (bind_eff m f n) = n"
  by (auto simp: bind_eff_def split: prod.splits result.splits)

lemma stable_nodeD:
  assumes "stable_node nd n"
  shows "snd (nd_best_block_hash nd n) = n" and "snd (nd_block_header_info nd h n) = n" and "snd (is_syncing nd now n) = n"
  using assms
  by (auto simp: stable_node_def is_syncing_def Let_def return_eff_def lift_result_def intro!: stays_bind)

lemma find_last_still:
  assumes "stable_node nd n"
  shows "still n (find_last S nd)"
proof -
  have "snd (snd (find_last S nd (s, m))) = n" if "m = n" "stable_node nd n" for s m
    using that
  proof (induction S nd "(s, m)" arbitrary: s m rule: find_last.induct)
    case (1 S nd s)
    obtain res where res: "nd_block_header_info nd (bi_hash (last (last_blocks s))) n = (res, n)"
      using stable_nodeD(2) [OF 1(3)] by (metis prod.collapse)
    show ?case
      using 1 res by (auto simp: find_last.simps [of S nd s] split: result.splits prod.splits)
  qed
  with assms show ?thesis by (simp add: still_def)
qed

lemma find_once_still: "stable_node nd n \<Longrightarrow> still n (find_once S nd)"
  unfolding find_once_def by (intro still_intros find_last_still) (simp_all add: stable_nodeD)

lemma find_once_tip:
  assumes "stable_node nd n" and "find_once S nd (s, n) = (Ok (last_info, tip, new_tip), sn')"
  shows "tip = new_tip \<and> (\<exists>h. nd_block_header_info nd h n = (Ok tip, n))"
proof -
  obtain b where b: "nd_best_block_hash nd n = (b, n)" using stable_nodeD(1) [OF assms(1)] by (metis prod.collapse)
  obtain r s1 where last: "find_last S nd (s, n) = (r, (s1, n))"
    using find_last_still [OF assms(1), of S] unfolding still_def by (metis prod.collapse)
  have "\<exists>i. nd_block_header_info nd h n = (i, n)" for h
    using stable_nodeD(2) [OF assms(1), of h] by (metis prod.collapse)
  then obtain i where i: "nd_block_header_info nd h n = (i h, n)" for h by metis
  show ?thesis
    using assms(2) by (cases b; cases r) (auto simp: find_once_def eff_defs on_node_def b i last result_simps split: result.splits)
qed

lemma find_start_ends:
  assumes "stable_node nd n"
  shows "\<exists>r s'. find_start S nd (s, n) = Some (r, (s', n)) \<and>
    (\<forall>last_info tip. r = Ok (last_info, tip) \<longrightarrow> (\<exists>h. nd_block_header_info nd h n = (Ok tip, n)))"
proof -
  obtain res s' where once: "find_once S nd (s, n) = (res, (s', n))"
    using find_once_still [OF assms, of S] unfolding still_def by (metis prod.collapse)
  show ?thesis
  proof (cases res)
    case (Ok found)
    then obtain last_info tip new_tip where found: "res = Ok (last_info, tip, new_tip)" by (cases found) auto
    have "tip = new_tip \<and> (\<exists>h. nd_block_header_info nd h n = (Ok tip, n))"
      using once unfolding found by (rule find_once_tip [OF assms])
    then show ?thesis using once found by (auto simp: find_start.simps)
  qed (simp_all add: find_start.simps once)
qed

lemma sync_checks_still: "stable_node nd n \<Longrightarrow> still n (sync_checks nd now checkpoint)"
  unfolding sync_checks_def by (intro still_intros) (simp_all add: stable_nodeD)

text \<open>
  (C20) Synchronization ends. Against a Bitcoin node whose answers do not change during the call and in
  which heights go down from a block to its predecessor, \<open>sync_until\<close> returns, from every state of the
  scheduler and whatever the database does: the search for the common block, the walk back from the
  tip, the blocks and the mempool are all processed in finitely many steps.
\<close>

theorem sync_until_returns:
  fixes S :: "('t, 'b, 'e, 'kp, 'pp) store" and nd :: "('n, 'r) node"
  assumes "stable_node nd n" and "heights_descend nd n"
  shows "\<exists>r sn'. sync_until S spk_of compute_txid block_hash clock nd now checkpoint (s, n) = Some (r, sn')"
proof -
  obtain c :: "(('e, 'r) sync_error, header_info) result" and s1 where c: "sync_checks nd now checkpoint (s, n) = (c, (s1, n))"
    using sync_checks_still [OF assms(1), of now checkpoint] unfolding still_def by (metis prod.collapse)
  obtain r s2 where start: "find_start S nd (s1, n) = Some (r, (s2, n))"
    and tip: "\<And>last_info tip. r = Ok (last_info, tip) \<Longrightarrow> \<exists>h. nd_block_header_info nd h n = (Ok tip, n)"
    using find_start_ends [OF assms(1), of S s1] by blast
  show ?thesis
  proof (cases "\<exists>cp. c = Ok cp")
    case True
    then obtain cp where cp: "c = Ok cp" ..
    show ?thesis
    proof (cases "\<exists>last_info tip. r = Ok (last_info, tip)")
      case True
      then obtain last_info tip where r: "r = Ok (last_info, tip)" by blast
      then obtain w :: "(('e, 'r) sync_error, block_hash list) result" where "walk_back nd last_info tip [hi_hash tip] n = Some (w, n)"
        using tip walk_back_ends [OF assms] by metis
      moreover have "\<exists>r a b. x = (r, a, b)" for x :: "(('e, 'r) sync_error, unit) result \<times> 't scheduler \<times> 'n"
        by (cases x) simp
      ultimately show ?thesis
        by (cases w) (simp_all add: sync_until_def bind_deff_def ends_def c cp start r walk_node_def)
    next
      case False
      then show ?thesis by (cases r) (auto simp: sync_until_def bind_deff_def ends_def c cp start)
    qed
  next
    case False
    then show ?thesis by (cases c) (auto simp: sync_until_def bind_deff_def ends_def c)
  qed
qed

section \<open>The window of blocks\<close>

text \<open>A block hash and that of a block whose header names it.\<close>

definition child :: "(header \<Rightarrow> block_hash) \<Rightarrow> block_hash \<Rightarrow> block_hash \<Rightarrow> bool" where
  "child block_hash p h \<longleftrightarrow> (\<exists>header. block_hash header = h \<and> prev_blockhash header = p)"

definition window_ok :: "(header \<Rightarrow> block_hash) \<Rightarrow> 't scheduler \<Rightarrow> bool" where
  "window_ok block_hash s \<longleftrightarrow> last_blocks s \<noteq> [] \<and> length (last_blocks s) \<le> max 1 (unat (conf_window s)) \<and>
     successively (child block_hash) (map bi_hash (last_blocks s)) \<and>
     (bi_hash (hd (last_blocks s)) = last_finalized s \<or> child block_hash (last_finalized s) (bi_hash (hd (last_blocks s))))"

lemma keeps_finalize [keeps_intros]:
  "keeps_blocks (finalize_input S i)" "keeps_blocks (finalize_tx S clock t)" "keeps_blocks (finalize_outputs S r ts ins)"
proof -
  show "keeps_blocks (finalize_input S i)"
    unfolding finalize_input_def by (intro keeps_intros) (auto intro!: keeps_intros split: option.split)
  show "keeps_blocks (finalize_tx S clock t)"
    unfolding finalize_tx_def Let_def by (intro keeps_intros) (auto intro!: keeps_intros split: option.split)
  show "keeps_blocks (finalize_outputs S r ts ins)"
    by (induction ts arbitrary: ins) (auto intro!: keeps_intros split: sum.split)
qed

lemma bind_eff_Ok: "bind_eff m f s = (Ok y, s') \<longleftrightarrow> (\<exists>x a. m s = (Ok x, a) \<and> f x a = (Ok y, s'))"
  by (auto simp: bind_eff_def split: prod.splits result.splits)

lemma keeps_blocksD:
  "keeps_blocks m \<Longrightarrow> m s = (r, s') \<Longrightarrow>
    last_blocks s' = last_blocks s \<and> last_finalized s' = last_finalized s \<and> conf_window s' = conf_window s"
  unfolding keeps_blocks_def by (metis snd_conv)

lemma finalize_block_blocks:
  assumes "finalize_block S spk_of clock blk s = (Ok (), s')"
  shows "last_blocks s' = last_blocks s \<and> last_finalized s' = bi_hash blk \<and> conf_window s' = conf_window s"
proof -
  let ?pre = "bind_eff (try_eff (on_db (get_change_spk S spk_of))) (\<lambda>change_spk_res.
     bind_eff (finalize_outputs S change_spk_res (relevant_txs blk) (remdups (relevant_inputs blk))) (\<lambda>all_inputs.
     bind_eff (for_each (finalize_input S) all_inputs) (\<lambda>_.
     bind_eff (for_each (finalize_tx S clock) (relevant_txs blk)) (\<lambda>_.
     bind_eff (on_db (get_all_utxos S)) (\<lambda>utxos.
     lift_result (sum_amounts (map (\<lambda>u. txo_value (ut_output u)) utxos)))))))"
  have "keeps_blocks ?pre" by (intro keeps_intros)
  moreover from assms obtain x a where "?pre s = (Ok x, a)" and
    "bind_eff (modify (\<lambda>s. s\<lparr>last_finalized := bi_hash blk\<rparr>)) (\<lambda>_. on_db (db_flush S)) a = (Ok (), s')"
    unfolding finalize_block_def bind_eff_Ok by blast
  ultimately have "last_blocks a = last_blocks s \<and> conf_window a = conf_window s"
    "on_db (db_flush S) (a\<lparr>last_finalized := bi_hash blk\<rparr>) = (Ok (), s')"
    by (auto dest: keeps_blocksD simp: bind_eff_def modify_def)
  then show ?thesis using keeps_blocksD [OF keeps_leaf(4)] by fastforce
qed

text \<open>An operation keeps \<open>J\<close>, panics and failing finalizations apart.\<close>

named_theorems safe_intros

definition safe ::
    "('t scheduler \<Rightarrow> bool) \<Rightarrow> ('t scheduler \<times> 'n, ('e, 'r) sync_error, 'a) eff \<Rightarrow> bool" where
  "safe J m \<longleftrightarrow> (\<forall>sn r sn'. m sn = (r, sn') \<longrightarrow> J (fst sn) \<longrightarrow> r \<noteq> Panic \<longrightarrow> (\<forall>e. r \<noteq> Err (SyncDb e)) \<longrightarrow> J (fst sn'))"

lemma safeI:
  "(\<And>sn r sn'. m sn = (r, sn') \<Longrightarrow> J (fst sn) \<Longrightarrow> r \<noteq> Panic \<Longrightarrow> \<forall>e. r \<noteq> Err (SyncDb e) \<Longrightarrow> J (fst sn')) \<Longrightarrow> safe J m"
  unfolding safe_def by blast

lemma safeD:
  "safe J m \<Longrightarrow> m sn = (r, sn') \<Longrightarrow> J (fst sn) \<Longrightarrow> r \<noteq> Panic \<Longrightarrow> \<forall>e. r \<noteq> Err (SyncDb e) \<Longrightarrow> J (fst sn')"
  unfolding safe_def by blast

lemma safe_bind [safe_intros]:
  assumes m: "safe J m" and f: "\<And>x. safe J (f x)"
  shows "safe J (bind_eff m f)"
proof (rule safeI)
  fix sn r sn'
  assume run: "bind_eff m f sn = (r, sn')" and J: "J (fst sn)" and r: "r \<noteq> Panic" "\<forall>e. r \<noteq> Err (SyncDb e)"
  obtain q a where q: "m sn = (q, a)" by (cases "m sn")
  show "J (fst sn')"
  proof (cases q)
    case (Ok x)
    then have "J (fst a)" by (intro safeD [OF m q J]) simp_all
    moreover have "f x a = (r, sn')" using run q Ok by (simp add: bind_eff_def)
    ultimately show ?thesis using safeD [OF f] r by blast
  next
    case (Err e)
    with run q have "r = Err e" "sn' = a" by (simp_all add: bind_eff_def)
    with Err r(2) show ?thesis by (simp add: safeD [OF m q J])
  qed (use run q r in \<open>simp add: bind_eff_def\<close>)
qed

lemma safe_leaf [safe_intros]:
  "safe J (return_eff x)" "safe J (raise_eff e)" "safe J (lift_result r)" "safe J (gets g)"
  by (simp_all add: safe_def return_eff_def raise_eff_def lift_result_def gets_def)

lemma safe_node [safe_intros]: "safe J (call m)" "safe J (try_eff (on_node m'))"
  by (auto simp: safe_def on_node_def on_part_def map_err_eff_def try_eff_def split: prod.splits result.splits)

lemma safe_if [safe_intros]: "safe J a \<Longrightarrow> safe J b \<Longrightarrow> safe J (if c then a else b)"
  by simp

lemma safe_for_each [safe_intros]: "(\<And>x. safe J (f x)) \<Longrightarrow> safe J (for_each f xs)"
  by (induction xs) (auto intro: safe_intros)

definition follows :: "(header \<Rightarrow> block_hash) \<Rightarrow> block_hash \<Rightarrow> 't scheduler \<Rightarrow> bool" where
  "follows block_hash f s \<longleftrightarrow> window_ok block_hash s \<and> (child block_hash)\<^sup>*\<^sup>* f (last_finalized s)"

lemma follows_same:
  "follows bh f s \<Longrightarrow> last_blocks s' = last_blocks s \<and> last_finalized s' = last_finalized s \<and> conf_window s' = conf_window s \<Longrightarrow>
    follows bh f s'"
  by (simp add: follows_def window_ok_def)

lemma safe_keeps [safe_intros]: "keeps_blocks m \<Longrightarrow> safe (follows bh f) (map_err_eff g (on_sched m))"
  unfolding safe_def
  by (auto simp: map_err_eff_def on_sched_def on_part_def split: prod.splits dest!: keeps_blocksD intro: follows_same)

lemma safe_track_one [safe_intros]: "safe (follows bh f) (track_one S nd t)"
  unfolding track_one_def by (intro safe_intros) (auto intro!: safe_intros keeps_intros split: sum.split option.split)

lemma safe_track_mempool [safe_intros]: "safe (follows bh f) (track_mempool S nd cp)"
  unfolding track_mempool_def by (intro safe_intros)

lemma follows_add:
  assumes "follows bh f s" and "add_block compute_txid bh blk s = (Ok (), s')"
  shows "last_finalized s' = last_finalized s \<and> conf_window s' = conf_window s \<and>
    length (last_blocks s') = Suc (length (last_blocks s)) \<and> hd (last_blocks s') = hd (last_blocks s) \<and>
    successively (child bh) (map bi_hash (last_blocks s'))"
proof -
  have ne: "last_blocks s \<noteq> []" and chain: "successively (child bh) (map bi_hash (last_blocks s))"
    using assms(1) by (simp_all add: follows_def window_ok_def)
  have prev: "prev_blockhash (bk_header blk) = bi_hash (last (last_blocks s))"
    using assms(2) ne by (auto simp: add_block_def eff_defs assert_that_def split: if_splits)
  then have "child bh (bi_hash (last (last_blocks s))) (bh (bk_header blk))" by (auto simp: child_def)
  with assms(2) ne chain prev show ?thesis
    by (auto simp: add_block_def eff_defs assert_that_def successively_append_iff last_map split: prod.splits)
qed

lemma add_block_Ok:
  "add_block compute_txid bh blk s = (r, s') \<Longrightarrow> r \<noteq> Panic \<Longrightarrow> r = Ok ()"
  by (auto simp: add_block_def eff_defs assert_that_def split: if_splits)

lemma follows_pop:
  assumes "length bs = Suc (length bs0)" and "bs0 \<noteq> []" and "hd bs = hd bs0" and "length bs0 \<le> max 1 w"
    and chain: "successively (child bh) (map bi_hash bs)"
    and old: "bi_hash (hd bs0) = lf \<or> child bh lf (bi_hash (hd bs0))" and "(child bh)\<^sup>*\<^sup>* f lf"
    and "last_blocks s = tl bs" and "last_finalized s = bi_hash (hd bs)" and "unat (conf_window s) = w"
  shows "follows bh f s"
proof -
  obtain b b' rest where bs: "bs = b # b' # rest"
    using assms(1,2) by (cases bs rule: remdups_adj.cases) auto
  have "(child bh)\<^sup>*\<^sup>* f (bi_hash b)"
    using old assms(3,7) unfolding bs list.sel by (metis rtranclp.rtrancl_into_rtrancl)
  moreover have "length (b' # rest) \<le> max 1 w" using assms(1,4) unfolding bs by simp
  moreover have "child bh (bi_hash b) (bi_hash b')" "successively (child bh) (map bi_hash (b' # rest))"
    using chain unfolding bs by simp_all
  ultimately show ?thesis using assms(8-10) unfolding follows_def window_ok_def bs list.sel by simp
qed

lemma safe_sync_block [safe_intros]:
  fixes S :: "('t, 'b, 'e, 'kp, 'pp) store" and nd :: "('n, 'r) node"
  shows "safe (follows bh f) (sync_block S spk_of compute_txid bh clock nd h)"
proof -
  let ?rest = "\<lambda>blk. bind_eff (on_sched (add_block compute_txid bh blk)) (\<lambda>_.
     bind_eff (gets (\<lambda>sn. (conf_window (fst sn), last_blocks (fst sn)))) (\<lambda>(window, blocks).
     if length blocks > unat window
     then bind_eff (on_sched (modify (\<lambda>s. s\<lparr>last_blocks := tl (last_blocks s)\<rparr>))) (\<lambda>_.
          map_err_eff SyncDb (on_sched (finalize_block S spk_of clock (hd blocks))))
     else return_eff ()))"
  have "safe (follows bh f) (?rest blk :: ('t scheduler \<times> 'n, ('e, 'r) sync_error, unit) eff)" for blk
  proof (rule safeI)
    fix sn sn' :: "'t scheduler \<times> 'n" and r :: "(('e, 'r) sync_error, unit) result"
    assume run: "?rest blk sn = (r, sn')" and J: "follows bh f (fst sn)" and r: "r \<noteq> Panic" "\<forall>e. r \<noteq> Err (SyncDb e)"
    obtain q :: "(('e, 'r) sync_error, unit) result" and a where q: "add_block compute_txid bh blk (fst sn) = (q, a)"
      by (cases "add_block compute_txid bh blk (fst sn) :: (('e, 'r) sync_error, unit) result \<times> _")
    have "q \<noteq> Panic" using run r(1) by (auto simp: bind_eff_def on_sched_def on_part_def q)
    with q have a: "add_block compute_txid bh blk (fst sn) = (Ok () :: (('e, 'r) sync_error, unit) result, a)"
      using add_block_Ok by blast
    note add = follows_add [OF J a]
    have old: "bi_hash (hd (last_blocks (fst sn))) = last_finalized (fst sn) \<or>
        child bh (last_finalized (fst sn)) (bi_hash (hd (last_blocks (fst sn))))" and ne: "last_blocks (fst sn) \<noteq> []"
      and len: "length (last_blocks (fst sn)) \<le> max 1 (unat (conf_window (fst sn)))" and f: "(child bh)\<^sup>*\<^sup>* f (last_finalized (fst sn))"
      using J by (simp_all add: follows_def window_ok_def)
    show "follows bh f (fst sn')"
    proof (cases "length (last_blocks a) > unat (conf_window a)")
      case True
      let ?b = "a\<lparr>last_blocks := tl (last_blocks a)\<rparr>"
      have fin: "x = Ok ()" if "map_err SyncDb x = r" for x using that r by (cases x) auto
      obtain c where c: "finalize_block S spk_of clock (hd (last_blocks a)) ?b = (Ok (), c)" "fst sn' = c"
        using run a True fin
        by (auto simp: eff_defs on_sched_def split: prod.splits)
      show ?thesis
        unfolding c(2) using add finalize_block_blocks [OF c(1)]
        by (intro follows_pop [where bs = "last_blocks a", OF _ ne _ len _ old f]) simp_all
    next
      case False
      then have "fst sn' = a" using run a by (auto simp: eff_defs on_sched_def)
      with False add ne len old f show ?thesis by (auto simp: follows_def window_ok_def)
    qed
  qed
  then show ?thesis
    unfolding sync_block_def by (intro safe_bind [OF safe_node(1)])
qed

lemma safe_sync_blocks [safe_intros]:
  "safe (follows bh f) (sync_blocks S spk_of compute_txid bh clock nd cp hs)"
  by (induction hs) (auto intro!: safe_intros)

lemma follows_rollback:
  assumes "rollback_tip S s = (r, s')" and "r \<noteq> Panic" and "length (last_blocks s) \<noteq> Suc 0" and "follows bh f s"
  shows "follows bh f s'"
proof -
  note tip = rollback_tip_blocks [OF assms(1,2)]
  obtain b b' rest where bs: "last_blocks s = b # b' # rest"
    using tip assms(3) by (cases "last_blocks s" rule: remdups_adj.cases) auto
  have chain: "successively (child bh) (map bi_hash (butlast (last_blocks s)))"
    using assms(4) by (cases "last_blocks s" rule: rev_cases) (auto simp: follows_def window_ok_def successively_append_iff)
  have "hd (butlast (last_blocks s)) = hd (last_blocks s)" "butlast (last_blocks s) \<noteq> []" by (simp_all add: bs)
  with assms(4) tip chain show ?thesis
    unfolding follows_def window_ok_def by auto
qed

lemmas follows_rollback_outcome =
  follows_rollback [where r = "Ok u" for u, OF _ result.distinct(3)]
  follows_rollback [where r = "Err e" for e, OF _ result.distinct(5)]

lemma safe_find_last [safe_intros]: "safe (follows bh f) (find_last S nd)"
proof -
  have "follows bh f (fst sn')" if "find_last S nd (s, n) = (r, sn')" "follows bh f s" "r \<noteq> Panic" for s n r sn'
    using that
  proof (induction S nd "(s, n)" arbitrary: s n rule: find_last.induct)
    case (1 S nd s n)
    show ?case
      using 1(2,3,4) 1(1)
      by (auto simp: find_last.simps [of S nd s n] split: if_splits prod.splits result.splits
          dest: follows_rollback_outcome [OF _ _ 1(3)])
  qed
  then show ?thesis by (intro safeI) (metis prod.collapse)
qed

lemma safe_find_once: "safe (follows bh f) (find_once S nd)"
  unfolding find_once_def by (intro safe_intros)

lemma find_start_follows:
  assumes "find_start S nd sn = Some (r, sn')" and "follows bh f (fst sn)" and "r \<noteq> Panic" and "\<forall>e. r \<noteq> Err (SyncDb e)"
  shows "follows bh f (fst sn')"
proof -
  let ?P = "\<lambda>S nd sn y. follows bh f (fst sn) \<longrightarrow> fst y \<noteq> Panic \<longrightarrow> (\<forall>e. fst y \<noteq> Err (SyncDb e)) \<longrightarrow> follows bh f (fst (snd y))"
  have "?P S nd sn (r, sn')"
  proof (rule find_start.raw_induct [of ?P, OF _ assms(1)])
    fix find_start S nd sn y
    assume IH: "\<And>S nd sn y. find_start S nd sn = Some y \<Longrightarrow> ?P S nd sn y"
      and y: "(case find_once S nd sn of (res, sn') \<Rightarrow> (case res of
          Ok found \<Rightarrow> (case found of (last_info, tip, new_tip) \<Rightarrow>
            if hi_hash tip = hi_hash new_tip then Some (Ok (last_info, tip), sn') else find_start S nd sn')
        | Err e \<Rightarrow> Some (Err e, sn')
        | Panic \<Rightarrow> Some (Panic, sn'))) = Some y"
    obtain res a where once: "find_once S nd sn = (res, a)" by (cases "find_once S nd sn")
    note step = safeD [OF safe_find_once once, of bh f]
    show "?P S nd sn y"
      using y IH [of S nd a y] step once
      by (auto split: result.splits prod.splits if_splits)
  qed
  with assms(2-4) show ?thesis by simp
qed

text \<open>The same for operations that may run forever.\<close>

definition dsafe ::
    "('t scheduler \<Rightarrow> bool) \<Rightarrow> ('t scheduler \<times> 'n, ('e, 'r) sync_error, 'a) deff \<Rightarrow> bool" where
  "dsafe J m \<longleftrightarrow> (\<forall>sn r sn'. m sn = Some (r, sn') \<longrightarrow> J (fst sn) \<longrightarrow> r \<noteq> Panic \<longrightarrow> (\<forall>e. r \<noteq> Err (SyncDb e)) \<longrightarrow> J (fst sn'))"

lemma dsafeI:
  "(\<And>sn r sn'. m sn = Some (r, sn') \<Longrightarrow> J (fst sn) \<Longrightarrow> r \<noteq> Panic \<Longrightarrow> \<forall>e. r \<noteq> Err (SyncDb e) \<Longrightarrow> J (fst sn')) \<Longrightarrow> dsafe J m"
  unfolding dsafe_def by blast

lemma dsafeD:
  "dsafe J m \<Longrightarrow> m sn = Some (r, sn') \<Longrightarrow> J (fst sn) \<Longrightarrow> r \<noteq> Panic \<Longrightarrow> \<forall>e. r \<noteq> Err (SyncDb e) \<Longrightarrow> J (fst sn')"
  unfolding dsafe_def by blast

lemma dsafe_ends: "safe J m \<Longrightarrow> dsafe J (ends m)"
  by (rule dsafeI) (auto simp: ends_def dest: safeD)

lemma dsafe_bind:
  assumes m: "dsafe J m" and f: "\<And>x. dsafe J (f x)"
  shows "dsafe J (bind_deff m f)"
proof (rule dsafeI)
  fix sn r sn'
  assume run: "bind_deff m f sn = Some (r, sn')" and J: "J (fst sn)" and r: "r \<noteq> Panic" "\<forall>e. r \<noteq> Err (SyncDb e)"
  then obtain q a where q: "m sn = Some (q, a)" by (auto simp: bind_deff_def split: option.splits)
  show "J (fst sn')"
  proof (cases q)
    case (Ok x)
    then have "J (fst a)" by (intro dsafeD [OF m q J]) simp_all
    moreover have "f x a = Some (r, sn')" using run q Ok by (simp add: bind_deff_def)
    ultimately show ?thesis using dsafeD [OF f] r by blast
  next
    case (Err e)
    with run q have "r = Err e" "sn' = a" by (simp_all add: bind_deff_def)
    with Err r(2) show ?thesis by (simp add: dsafeD [OF m q J])
  qed (use run q r in \<open>simp add: bind_deff_def\<close>)
qed

lemma dsafe_walk: "dsafe J (walk_node m)"
  by (rule dsafeI) (auto simp: walk_node_def)

lemma dsafe_sync_until: "dsafe (follows bh f) (sync_until S spk_of compute_txid bh clock nd now checkpoint)"
proof -
  have start: "dsafe (follows bh f) (find_start S nd)"
    by (rule dsafeI) (rule find_start_follows)
  have checks: "safe (follows bh f) (sync_checks nd now checkpoint)"
    unfolding sync_checks_def by (intro safe_intros)
  have rest: "safe (follows bh f) (sync_rest S spk_of compute_txid bh clock nd checkpoint cp hs)" for cp hs
    unfolding sync_rest_def by (intro safe_intros)
  show ?thesis
    unfolding sync_until_def
    by (intro dsafe_bind dsafe_ends start checks) (auto intro!: dsafe_bind dsafe_ends dsafe_walk rest safe_leaf)
qed

text \<open>
  (C8) The finalized blocks form one chain. Call a window well-formed when it is not empty, is not
  longer than the confirmation window, is linked from block to block by the hashes in the headers and
  continues the last finalized block. Whatever the Bitcoin node answers, a call of \<open>sync_until\<close> that
  ends without a panic and without a database error leaves a well-formed window well-formed, and the
  last finalized block it leaves is reached from the one before along links of headers: finalization
  neither forks nor skips a block, across any number of calls and reorganizations.
\<close>

theorem finalized_blocks_form_a_chain:
  assumes "window_ok block_hash s"
    and "sync_until S spk_of compute_txid block_hash clock nd now checkpoint (s, n) = Some (r, (s', n'))"
    and "r \<noteq> Panic" and "\<forall>e. r \<noteq> Err (SyncDb e)"
  shows "window_ok block_hash s' \<and> (child block_hash)\<^sup>*\<^sup>* (last_finalized s) (last_finalized s')"
proof -
  have "follows block_hash (last_finalized s) (fst (s, n))" using assms(1) by (simp add: follows_def)
  from dsafeD [OF dsafe_sync_until assms(2) this assms(3,4)] show ?thesis by (simp add: follows_def)
qed

text \<open>A node whose tip is the block 3 of a chain of blocks without transactions, and a scheduler that has
  finalized the block 1 and finalizes a block as soon as the next one arrives.\<close>

definition sample_header :: "block_hash \<Rightarrow> header" where
  "sample_header h = \<lparr>hd_version = 2, prev_blockhash = h - 1, hd_merkle_root = 0, hd_time = 1000, hd_bits = 0, hd_nonce = 0\<rparr>"

definition sample_hash :: "header \<Rightarrow> block_hash" where
  "sample_hash header = prev_blockhash header + 1"

definition sample_info :: "block_hash \<Rightarrow> header_info" where
  "sample_info h = \<lparr>hi_hash = h, hi_confirmations = 4 - ucast h, hi_height = unat h, hi_time = 1000,
     previous_block_hash = (if h = 0 then None else Some (h - 1))\<rparr>"

definition sample_node :: "(unit, unit) node" where
  "sample_node = \<lparr>nd_initialblockdownload = return_eff False, nd_best_block_hash = return_eff 3,
     nd_block_header_info = (\<lambda>h. return_eff (sample_info h)),
     nd_block = (\<lambda>h. return_eff \<lparr>bk_header = sample_header h, bk_txdata = []\<rparr>),
     nd_block_height = (\<lambda>h. return_eff (unat h)), nd_raw_transaction = (\<lambda>t. return_eff None),
     nd_mempool_entry = (\<lambda>t. return_eff ()), nd_error_text = (\<lambda>_. [])\<rparr>"

definition sample_follower :: "(u8 list, sample_bytes) rbt scheduler" where
  "sample_follower = sample_wallet\<lparr>conf_window := 1, txs := [], last_blocks :=
     [\<lparr>bi_hash = 1, relevant_txs = [], relevant_inputs = []\<rparr>], last_finalized := 1\<rparr>"

lemma sample_node_stable: "stable_node sample_node ()" "heights_descend sample_node ()"
proof -
  show "stable_node sample_node ()" by (simp add: stable_node_def)
  have "unat (h - 1) < unat h" if "h \<noteq> 0" for h :: block_hash
    using that by (simp add: unat_minus_one unat_gt_0)
  then show "heights_descend sample_node ()"
    by (auto simp: heights_descend_def sample_node_def return_eff_def sample_info_def split: if_splits)
qed

theorem sync_until_returns_witness:
  "\<exists>r sn'. sync_until sample_store (\<lambda>_. Some [81]) (\<lambda>_. 7) sample_hash (\<lambda>_. Some 1000) sample_node 0 2
     (sample_follower, ()) = Some (r, sn')"
  by (rule sync_until_returns [OF sample_node_stable])

lemma sample_finalize_empty:
  assumes "sc_db s = sc_db sample_wallet" and "relevant_txs blk = []" and "relevant_inputs blk = []"
  shows "finalize_block sample_store (\<lambda>_. Some [81]) clock blk s = (Ok (), s\<lparr>last_finalized := bi_hash blk\<rparr>)"
proof -
  have "RBT.entries (RBT.empty :: (u8 list, sample_bytes) rbt) = []" by (rule entries_unique) (simp_all add: fun_eq_iff)
  then have "get_all_utxos sample_store (sc_db sample_wallet) = (Ok [], sc_db sample_wallet)"
    by (simp add: get_all_utxos_def collect_rows_def sample_engine(6) sample_wallet_def sample_db_def)
  moreover have "s\<lparr>sc_db := sc_db sample_wallet\<rparr> = s" using assms(1) by simp
  moreover have "sc_db s = sc_db sample_wallet" by fact
  ultimately show ?thesis
    using assms(2,3) sample_change_spk
    by (simp add: finalize_block_def eff_defs on_db_def sum_amounts_def sample_flush)
qed

lemma sample_sync_block:
  assumes "sc_db s = sc_db sample_wallet" and "last_blocks s = [b]" and "conf_window s = 1" and "bi_hash b = h - 1"
    and "relevant_txs b = []" and "relevant_inputs b = []"
  shows "sync_block sample_store (\<lambda>_. Some [81]) (\<lambda>_. 7) sample_hash clock sample_node h (s, ()) =
    (Ok () :: ((unit, unit) sync_error, unit) result,
     (s\<lparr>last_blocks := [\<lparr>bi_hash = h, relevant_txs = [], relevant_inputs = []\<rparr>], last_finalized := h - 1\<rparr>, ()))"
proof -
  let ?s = "s\<lparr>last_blocks := [\<lparr>bi_hash = h, relevant_txs = [], relevant_inputs = []\<rparr>]\<rparr>"
  have "finalize_block sample_store (\<lambda>_. Some [81]) clock b ?s = (Ok (), ?s\<lparr>last_finalized := h - 1\<rparr>)"
    using sample_finalize_empty [of ?s b clock] assms by simp
  moreover have "(add_block (\<lambda>_. 7) sample_hash \<lparr>bk_header = sample_header h, bk_txdata = []\<rparr> s ::
      ((unit, unit) sync_error, unit) result \<times> _) =
      (Ok (), s\<lparr>last_blocks := [b, \<lparr>bi_hash = h, relevant_txs = [], relevant_inputs = []\<rparr>]\<rparr>)"
    using assms(2,4) by (simp add: add_block_def eff_defs assert_that_def sample_header_def sample_hash_def)
  ultimately show ?thesis
    using assms(3) by (simp add: sync_block_def eff_defs on_node_def on_sched_def sample_node_def)
qed

lemma sample_follow_run:
  "\<exists>s'. sync_until sample_store (\<lambda>_. Some [81]) (\<lambda>_. 7) sample_hash (\<lambda>_. Some 1000) sample_node 0 2 (sample_follower, ()) =
     Some (Ok (), (s', ())) \<and> last_finalized s' = 2"
proof -
  let ?b = "\<lambda>h. \<lparr>bi_hash = h, relevant_txs = [], relevant_inputs = []\<rparr>"
  let ?s = "\<lambda>h f. sample_follower\<lparr>last_blocks := [?b h], last_finalized := f\<rparr>"
  have first: "sync_block sample_store (\<lambda>_. Some [81]) (\<lambda>_. 7) sample_hash (\<lambda>_. Some 1000) sample_node 2 (sample_follower, ()) =
      (Ok () :: ((unit, unit) sync_error, unit) result, (?s 2 1, ()))"
    using sample_sync_block [of sample_follower "?b 1" 2 "\<lambda>_. Some 1000"] by (simp add: sample_follower_def)
  have second: "sync_block sample_store (\<lambda>_. Some [81]) (\<lambda>_. 7) sample_hash (\<lambda>_. Some 1000) sample_node 3 (?s 2 1, ()) =
      (Ok () :: ((unit, unit) sync_error, unit) result, (?s 3 2, ()))"
    using sample_sync_block [of "?s 2 1" "?b 2" 3 "\<lambda>_. Some 1000"] by (simp add: sample_follower_def)
  have blocks: "sync_blocks sample_store (\<lambda>_. Some [81]) (\<lambda>_. 7) sample_hash (\<lambda>_. Some 1000) sample_node 2 [2, 3] (sample_follower, ()) =
      (Ok () :: ((unit, unit) sync_error, unit) result, (?s 3 2, ()))"
    using first second by (simp add: bind_eff_def gets_def return_eff_def) (simp add: sample_follower_def)
  have last: "find_last sample_store sample_node (sample_follower, ()) = (Ok (sample_info 1), (sample_follower, ()))"
    by (simp add: find_last.simps sample_node_def return_eff_def sample_info_def sample_follower_def)
  have node: "nd_best_block_hash sample_node () = (Ok 3, ())" "nd_block_header_info sample_node h () = (Ok (sample_info h), ())" for h
    by (simp_all add: sample_node_def return_eff_def)
  have "find_once sample_store sample_node (sample_follower, ()) =
      (Ok (sample_info 1, sample_info 3, sample_info 3), (sample_follower, ()))"
    by (simp add: find_once_def eff_defs on_node_def last node)
  then have start: "find_start sample_store sample_node (sample_follower, ()) = Some (Ok (sample_info 1, sample_info 3), (sample_follower, ()))"
    by (simp add: find_start.simps)
  have walk: "walk_back sample_node (sample_info 1) (sample_info 3) [3] () = (Some (Ok [3, 2], ()) :: (((unit, unit) sync_error, _) result \<times> _) option)"
    by (simp add: walk_back.simps sample_node_def return_eff_def sample_info_def)
  have checks: "sync_checks sample_node 0 2 (sample_follower, ()) = (Ok (sample_info 2) :: ((unit, unit) sync_error, _) result, (sample_follower, ()))"
    by (simp add: sync_checks_def is_syncing_def eff_defs on_node_def sample_node_def block_time_def sample_info_def NANOS_def)
  have mempool: "track_mempool sample_store sample_node (sample_info 2) (?s 3 2, ()) = (Ok () :: ((unit, unit) sync_error, unit) result, (?s 3 2, ()))"
    by (simp add: track_mempool_def eff_defs block_time_def sample_info_def sample_follower_def)
  have "sync_rest sample_store (\<lambda>_. Some [81]) (\<lambda>_. 7) sample_hash (\<lambda>_. Some 1000) sample_node 2 (sample_info 2) [3, 2] (sample_follower, ()) =
      (Ok () :: ((unit, unit) sync_error, unit) result, (?s 3 2, ()))"
    using blocks mempool by (simp add: sync_rest_def bind_eff_def gets_def return_eff_def del: sync_blocks.simps)
  moreover have "hi_height (sample_info 1) \<noteq> hi_height (sample_info 3)" "hi_hash (sample_info 3) = 3" by (simp_all add: sample_info_def)
  ultimately show ?thesis
    by (simp add: sync_until_def bind_deff_def ends_def checks start walk_node_def walk)
qed

theorem finalized_blocks_form_a_chain_witness:
  "\<exists>s'. sync_until sample_store (\<lambda>_. Some [81]) (\<lambda>_. 7) sample_hash (\<lambda>_. Some 1000) sample_node 0 2 (sample_follower, ()) =
       Some (Ok (), (s', ())) \<and> last_finalized s' = 2 \<and> window_ok sample_hash s' \<and> (child sample_hash)\<^sup>*\<^sup>* 1 (last_finalized s')"
proof -
  obtain s' where s': "sync_until sample_store (\<lambda>_. Some [81]) (\<lambda>_. 7) sample_hash (\<lambda>_. Some 1000) sample_node 0 2 (sample_follower, ()) =
     Some (Ok (), (s', ()))" "last_finalized s' = 2"
    using sample_follow_run by blast
  have "window_ok sample_hash sample_follower" by (simp add: window_ok_def sample_follower_def)
  from finalized_blocks_form_a_chain [OF this s'(1)] s' show ?thesis by (auto simp: sample_follower_def)
qed

end
