(* ===== verification/SortedMaps.thy ===== *)
theory SortedMaps
  imports Prelude "HOL-Library.Product_Lexorder"
begin

text \<open>
  \<open>BTreeMap\<close> of the standard library as an association list sorted by its keys: iteration is in the
  order of the list. Lookup is \<open>map_of\<close>, removal \<open>AList.delete\<close>, and the number of entries the length.
\<close>

fun bt_insert :: "'k::linorder \<Rightarrow> 'v \<Rightarrow> ('k \<times> 'v) list \<Rightarrow> ('k \<times> 'v) list" where
  "bt_insert k v [] = [(k, v)]"
| "bt_insert k v ((k', v') # m) =
     (if k < k' then (k, v) # (k', v') # m
      else if k = k' then (k, v) # m
      else (k', v') # bt_insert k v m)"

definition bt_ok :: "('k::linorder \<times> 'v) list \<Rightarrow> bool" where
  "bt_ok m \<longleftrightarrow> sorted_wrt (<) (map fst m)"

lemma map_of_bt_insert [alist_simps]: "map_of (bt_insert k v m) = (map_of m)(k \<mapsto> v)"
  by (induction m) (auto simp: fun_eq_iff)

lemma fst_set_bt_insert [simp]: "fst ` set (bt_insert k v m) = insert k (fst ` set m)"
  by (simp add: alist_simps flip: dom_map_of_conv_image_fst)

lemma bt_ok_Nil [simp]: "bt_ok []"
  by (simp add: bt_ok_def)

lemma bt_ok_Cons [simp]: "bt_ok (e # m) \<longleftrightarrow> (\<forall>x \<in> fst ` set m. fst e < x) \<and> bt_ok m"
  by (simp add: bt_ok_def)

lemma bt_ok_insert [intro, simp]: "bt_ok m \<Longrightarrow> bt_ok (bt_insert k v m)"
proof (induction m)
  case (Cons e m)
  obtain a b where e: "e = (a, b)" by (cases e)
  consider "k < a" | "k = a" | "a < k" by (rule linorder_cases)
  then show ?case
  proof cases
    case 1
    with Cons.prems have "\<forall>x \<in> fst ` set (e # m). k < x" unfolding e by (auto intro: less_trans)
    with Cons.prems 1 show ?thesis by (simp add: e)
  next
    case 3
    with Cons show ?thesis by (auto simp: e)
  qed (use Cons.prems e in simp)
qed simp

lemma bt_ok_delete [intro, simp]: "bt_ok m \<Longrightarrow> bt_ok (AList.delete k m)"
  by (simp add: bt_ok_def AList.delete_eq sorted_wrt_map sorted_wrt_filter)

lemma bt_ok_wf: "bt_ok m \<Longrightarrow> wf_map m"
  by (simp add: bt_ok_def wf_map_def strict_sorted_iff)

lemma length_wf_map: "wf_map m \<Longrightarrow> length m = card (dom (map_of m))"
proof -
  assume "wf_map m"
  then have "card (set (map fst m)) = length (map fst m)" by (simp only: wf_map_def distinct_card)
  then show ?thesis by (simp add: dom_map_of_conv_image_fst)
qed

lemma full_map:
  assumes "wf_map m" and "finite D" and "dom (map_of m) \<subseteq> D" and "length m = card D"
  shows "dom (map_of m) = D"
  using assms length_wf_map [OF assms(1)] by (metis card_subset_eq)

end
