(* ===== verification/DkgCrypto.thy ===== *)
theory DkgCrypto
  imports Effects SortedMaps BitcoinTypes
begin

text \<open>
  The authentication and encryption layer of the distributed key generation
  (\<open>btc-server/src/dkg/encryption.rs\<close>): the handshake of round one, the encrypted channels of round
  two, the verification of the key in round three, and the transcript that runs through them. The
  crates merlin, secp256k1, chacha20poly1305 and frost are the record \<open>crypto\<close> of the functions the
  code calls; their opaque values are byte strings, and a function that may fail returns an option. A
  fresh random key is an argument of the operation that draws it.
\<close>

section \<open>Libraries\<close>

type_synonym bytes = "u8 list"
type_synonym frost_id = "256 word"
type_synonym initiator = frost_id
type_synonym target = frost_id
type_synonym public_key = bytes
type_synonym secret_key = bytes
type_synonym signature = bytes
type_synonym transcript = bytes

record crypto =
  tr_new :: "string \<Rightarrow> transcript"
  tr_append :: "transcript \<Rightarrow> string \<Rightarrow> bytes \<Rightarrow> transcript"
  tr_append_u64 :: "transcript \<Rightarrow> string \<Rightarrow> u64 \<Rightarrow> transcript"
  tr_challenge :: "transcript \<Rightarrow> string \<Rightarrow> bytes \<times> transcript"
  pk_of :: "secret_key \<Rightarrow> public_key"
  pk_serialize :: "public_key \<Rightarrow> bytes"
  id_serialize :: "frost_id \<Rightarrow> bytes"
  sign_ecdsa :: "secret_key \<Rightarrow> bytes \<Rightarrow> signature"
  verify_ecdsa :: "public_key \<Rightarrow> bytes \<Rightarrow> signature \<Rightarrow> bool"
  serialize_compact :: "signature \<Rightarrow> bytes"
  shared_secret :: "public_key \<Rightarrow> secret_key \<Rightarrow> bytes"
  aead_encrypt :: "bytes \<Rightarrow> bytes \<Rightarrow> bytes \<Rightarrow> bytes option"
  aead_decrypt :: "bytes \<Rightarrow> bytes \<Rightarrow> bytes \<Rightarrow> bytes option"
  round1_serialize :: "bytes \<Rightarrow> bytes option"
  round2_serialize :: "bytes \<Rightarrow> bytes option"
  round2_deserialize :: "bytes \<Rightarrow> bytes option"
  pubkeys_serialize :: "bytes \<Rightarrow> bytes option"
  frost_part1 :: "bytes \<Rightarrow> frost_id \<Rightarrow> u16 \<Rightarrow> u16 \<Rightarrow> (bytes \<times> bytes) option"
  frost_part2 :: "bytes \<Rightarrow> (frost_id \<times> bytes) list \<Rightarrow> (bytes \<times> (frost_id \<times> bytes) list) option"
  frost_part3 :: "bytes \<Rightarrow> (frost_id \<times> bytes) list \<Rightarrow> (frost_id \<times> bytes) list \<Rightarrow> (bytes \<times> bytes) option"

datatype enc_error =
    SelfNotInFederation
  | InsufficientSamples
  | NotAFedMember
  | SignatureVerificationFailed
  | DecryptionFailed
  | DeserializationFailed
  | AwaitingChallengeGeneration
  | InternalFrostError
  | InternalAeadError

section \<open>Round one\<close>

definition le_bytes_u64 :: "u64 \<Rightarrow> bytes" where
  "le_bytes_u64 w = map (\<lambda>i. ucast (drop_bit (8 * i) w)) [0..<8]"

definition integer_to_serialized_nonce :: "u64 \<Rightarrow> bytes" where
  "integer_to_serialized_nonce nonce = le_bytes_u64 nonce @ replicate 4 0"

record handshake =
  hs_transcript :: transcript
  hs_my_frost_id :: frost_id
  hs_my_static_sec :: secret_key
  hs_my_eph_sec :: secret_key
  hs_my_eph_pub :: public_key
  hs_fed_members :: "(frost_id \<times> public_key) list"
  eph_keys :: "(frost_id \<times> public_key) list"
  round1_commits :: "(frost_id \<times> bytes) list"

definition session_transcript :: "crypto \<Rightarrow> bytes \<Rightarrow> u64 \<Rightarrow> transcript" where
  "session_transcript C ctx nonce =
     tr_append_u64 C (tr_append C (tr_new C ''Botanix_Macbeth_DKG_Setup_v1'') ''context'' ctx) ''nonce'' nonce"

definition new_handshake ::
    "crypto \<Rightarrow> secret_key \<Rightarrow> bytes \<Rightarrow> u64 \<Rightarrow> frost_id \<Rightarrow> secret_key \<Rightarrow> (frost_id \<times> public_key) list \<Rightarrow>
     (enc_error, handshake) result" where
  "new_handshake C eph_sec ctx nonce my_frost_id my_static_sec fed_members =
     (if map_of fed_members my_frost_id = None then Err SelfNotInFederation
      else Ok \<lparr>hs_transcript = session_transcript C ctx nonce, hs_my_frost_id = my_frost_id,
        hs_my_static_sec = my_static_sec, hs_my_eph_sec = eph_sec, hs_my_eph_pub = pk_of C eph_sec,
        hs_fed_members = fed_members, eph_keys = bt_insert my_frost_id (pk_of C eph_sec) [],
        round1_commits = []\<rparr>)"

definition round1_challenge :: "crypto \<Rightarrow> transcript \<Rightarrow> frost_id \<Rightarrow> public_key \<Rightarrow> bytes \<Rightarrow> bytes" where
  "round1_challenge C t frost_id eph_pub package =
     fst (tr_challenge C (tr_append C (tr_append C (tr_append C t ''frost_id'' (id_serialize C frost_id))
       ''eph_pub'' (pk_serialize C eph_pub)) ''round1_package'' package) ''round1_commit'')"

definition commit_round1 :: "crypto \<Rightarrow> bytes \<Rightarrow> (handshake, enc_error, public_key \<times> signature) eff" where
  "commit_round1 C package =
     bind_eff (lift_result (ok_or InternalFrostError (round1_serialize C package))) (\<lambda>bytes.
     bind_eff (gets (\<lambda>h. round1_challenge C (hs_transcript h) (hs_my_frost_id h) (hs_my_eph_pub h) bytes)) (\<lambda>commit.
     bind_eff (gets (\<lambda>h. sign_ecdsa C (hs_my_static_sec h) commit)) (\<lambda>sig.
     bind_eff (modify (\<lambda>h. h\<lparr>round1_commits := bt_insert (hs_my_frost_id h) commit (round1_commits h)\<rparr>)) (\<lambda>_.
     gets (\<lambda>h. (hs_my_eph_pub h, sig))))))"

definition validate_round1 ::
    "crypto \<Rightarrow> initiator \<Rightarrow> public_key \<Rightarrow> signature \<Rightarrow> bytes \<Rightarrow> (handshake, enc_error, unit) eff" where
  "validate_round1 C initiator eph_pub sig package =
     bind_eff (gets (\<lambda>h. map_of (hs_fed_members h) initiator)) (\<lambda>m.
     bind_eff (lift_result (ok_or NotAFedMember m)) (\<lambda>fed_static.
     bind_eff (lift_result (ok_or InternalFrostError (round1_serialize C package))) (\<lambda>bytes.
     bind_eff (gets (\<lambda>h. round1_challenge C (hs_transcript h) initiator eph_pub bytes)) (\<lambda>commit.
     if \<not> verify_ecdsa C fed_static commit sig then raise_eff SignatureVerificationFailed
     else modify (\<lambda>h. h\<lparr>eph_keys := bt_insert initiator eph_pub (eph_keys h),
            round1_commits := bt_insert initiator commit (round1_commits h)\<rparr>)))))"

section \<open>Round two\<close>

record sym_key =
  sending :: bytes
  receiving :: bytes
  sk_nonce :: u64

record channel =
  ch_transcript :: transcript
  ch_my_frost_id :: frost_id
  ch_my_static_sec :: secret_key
  ch_fed_members :: "(frost_id \<times> public_key) list"
  symmetric_keys :: "(frost_id \<times> sym_key) list"
  round2_checks :: "frost_id list"

text \<open>The keys of the channel to one member. Both ends hash the same two shared secrets, ordered by the
  member with the lower identifier, who sends with the first key.\<close>

definition derive_keys ::
    "crypto \<Rightarrow> transcript \<Rightarrow> frost_id \<Rightarrow> secret_key \<Rightarrow> secret_key \<Rightarrow> frost_id \<Rightarrow> public_key \<Rightarrow> public_key \<Rightarrow> sym_key" where
  "derive_keys C t my_frost_id my_static_sec my_eph_sec fed_id fed_static fed_eph =
     (let (ss1, ss2) = (if my_frost_id < fed_id
            then (shared_secret C fed_eph my_static_sec, shared_secret C fed_static my_eph_sec)
            else (shared_secret C fed_static my_eph_sec, shared_secret C fed_eph my_static_sec));
          t = tr_append C (tr_append C t ''ss1'' ss1) ''ss2'' ss2;
          (key1, t) = tr_challenge C t ''sym_key1'';
          (key2, t) = tr_challenge C t ''sym_key2'';
          (s, r) = (if my_frost_id < fed_id then (key1, key2) else (key2, key1))
      in \<lparr>sending = s, receiving = r, sk_nonce = 0\<rparr>)"

fun channel_keys ::
    "crypto \<Rightarrow> handshake \<Rightarrow> transcript \<Rightarrow> (frost_id \<times> public_key) list \<Rightarrow> (frost_id \<times> sym_key) list \<Rightarrow>
     (enc_error, (frost_id \<times> sym_key) list) result" where
  "channel_keys C h t [] keys = Ok keys"
| "channel_keys C h t ((fed_id, fed_static) # rest) keys =
     (if fed_id = hs_my_frost_id h then channel_keys C h t rest keys
      else bind_result (expect (map_of (eph_keys h) fed_id)) (\<lambda>fed_eph.
        channel_keys C h t rest (bt_insert fed_id
          (derive_keys C t (hs_my_frost_id h) (hs_my_static_sec h) (hs_my_eph_sec h) fed_id fed_static fed_eph) keys)))"

definition finalize_handshake :: "crypto \<Rightarrow> (handshake, enc_error, channel) eff" where
  "finalize_handshake C =
     bind_eff (gets (\<lambda>h. length (round1_commits h) \<noteq> length (hs_fed_members h))) (\<lambda>short.
     if short then raise_eff InsufficientSamples
     else bind_eff (modify (\<lambda>h. h\<lparr>round1_commits := [],
            hs_transcript := fold (\<lambda>c t. tr_append C t ''round1_commit'' (snd c)) (round1_commits h) (hs_transcript h)\<rparr>)) (\<lambda>_.
          bind_eff (\<lambda>h. (channel_keys C h (hs_transcript h) (hs_fed_members h) [], h)) (\<lambda>keys.
          bind_eff (gets (\<lambda>h. \<lparr>ch_transcript = hs_transcript h, ch_my_frost_id = hs_my_frost_id h,
            ch_my_static_sec = hs_my_static_sec h, ch_fed_members = hs_fed_members h, symmetric_keys = keys,
            round2_checks = []\<rparr>)) (\<lambda>ch.
          bind_eff (modify (\<lambda>h. h\<lparr>hs_fed_members := []\<rparr>)) (\<lambda>_. return_eff ch)))))"

text \<open>A \<open>BTreeSet\<close> of identifiers is a list without repetition.\<close>

definition commit_round2 :: "crypto \<Rightarrow> target \<Rightarrow> bytes \<Rightarrow> (channel, enc_error, bytes \<times> u64) eff" where
  "commit_round2 C target package =
     bind_eff (gets (\<lambda>c. map_of (symmetric_keys c) target)) (\<lambda>e.
     bind_eff (lift_result (ok_or NotAFedMember e)) (\<lambda>entry.
     bind_eff (modify (\<lambda>c. c\<lparr>symmetric_keys := bt_insert target (entry\<lparr>sk_nonce := sk_nonce entry + 1\<rparr>) (symmetric_keys c)\<rparr>)) (\<lambda>_.
     bind_eff (lift_result (ok_or InternalFrostError (round2_serialize C package))) (\<lambda>plaintext.
     bind_eff (lift_result (ok_or InternalAeadError
       (aead_encrypt C (sending entry) (integer_to_serialized_nonce (sk_nonce entry)) plaintext))) (\<lambda>enc_package.
     bind_eff (modify (\<lambda>c. c\<lparr>round2_checks := List.insert (ch_my_frost_id c) (round2_checks c)\<rparr>)) (\<lambda>_.
     return_eff (enc_package, sk_nonce entry)))))))"

definition validate_round2 :: "crypto \<Rightarrow> initiator \<Rightarrow> u64 \<Rightarrow> bytes \<Rightarrow> (channel, enc_error, bytes) eff" where
  "validate_round2 C initiator nonce package =
     bind_eff (gets (\<lambda>c. map_of (symmetric_keys c) initiator)) (\<lambda>e.
     bind_eff (lift_result (ok_or NotAFedMember e)) (\<lambda>entry.
     bind_eff (lift_result (ok_or DecryptionFailed
       (aead_decrypt C (receiving entry) (integer_to_serialized_nonce nonce) package))) (\<lambda>plaintext.
     bind_eff (lift_result (ok_or DeserializationFailed (round2_deserialize C plaintext))) (\<lambda>p.
     bind_eff (modify (\<lambda>c. c\<lparr>round2_checks := List.insert initiator (round2_checks c)\<rparr>)) (\<lambda>_.
     return_eff p)))))"

section \<open>Round three\<close>

record key_verification =
  kv_transcript :: transcript
  kv_my_frost_id :: frost_id
  kv_my_static_sec :: secret_key
  kv_fed_members :: "(frost_id \<times> public_key) list"
  challenge :: "bytes option"
  round3_commits :: "(frost_id \<times> signature) list"

definition finalize_channel :: "crypto \<Rightarrow> (channel, enc_error, key_verification) eff" where
  "finalize_channel C =
     bind_eff (gets (\<lambda>c. length (round2_checks c) \<noteq> length (ch_fed_members c))) (\<lambda>short.
     if short then raise_eff InsufficientSamples
     else bind_eff (modify (\<lambda>c. c\<lparr>ch_transcript := tr_append C (ch_transcript c) ''round2_commit'' []\<rparr>)) (\<lambda>_.
          bind_eff (gets (\<lambda>c. \<lparr>kv_transcript = ch_transcript c, kv_my_frost_id = ch_my_frost_id c,
            kv_my_static_sec = ch_my_static_sec c, kv_fed_members = ch_fed_members c, challenge = None,
            round3_commits = []\<rparr>)) (\<lambda>kv.
          bind_eff (modify (\<lambda>c. c\<lparr>ch_fed_members := []\<rparr>)) (\<lambda>_. return_eff kv))))"

definition commit_round3 :: "crypto \<Rightarrow> bytes \<Rightarrow> (key_verification, enc_error, signature) eff" where
  "commit_round3 C package =
     bind_eff (lift_result (ok_or InternalFrostError (pubkeys_serialize C package))) (\<lambda>bytes.
     bind_eff (gets (\<lambda>k. tr_challenge C (tr_append C (kv_transcript k) ''round3_package'' bytes) ''round3_commit'')) (\<lambda>(commit, t).
     bind_eff (gets (\<lambda>k. sign_ecdsa C (kv_my_static_sec k) commit)) (\<lambda>sig.
     bind_eff (modify (\<lambda>k. k\<lparr>kv_transcript := t, challenge := Some commit,
       round3_commits := bt_insert (kv_my_frost_id k) sig (round3_commits k)\<rparr>)) (\<lambda>_.
     return_eff sig))))"

definition validate_round3 :: "crypto \<Rightarrow> initiator \<Rightarrow> signature \<Rightarrow> (key_verification, enc_error, unit) eff" where
  "validate_round3 C initiator sig =
     bind_eff (gets challenge) (\<lambda>c.
     bind_eff (lift_result (ok_or AwaitingChallengeGeneration c)) (\<lambda>digest.
     bind_eff (gets (\<lambda>k. map_of (kv_fed_members k) initiator)) (\<lambda>m.
     bind_eff (lift_result (ok_or NotAFedMember m)) (\<lambda>fed_static.
     if \<not> verify_ecdsa C fed_static digest sig then raise_eff SignatureVerificationFailed
     else modify (\<lambda>k. k\<lparr>round3_commits := bt_insert initiator sig (round3_commits k)\<rparr>)))))"

definition finalize_verification :: "crypto \<Rightarrow> (key_verification, enc_error, bytes) eff" where
  "finalize_verification C =
     bind_eff (gets (\<lambda>k. length (round3_commits k) \<noteq> length (kv_fed_members k))) (\<lambda>short.
     if short then raise_eff InsufficientSamples
     else bind_eff (gets (\<lambda>k. tr_challenge C (fold (\<lambda>c t. tr_append C t ''round3_commit'' (serialize_compact C (snd c)))
              (round3_commits k) (kv_transcript k)) ''final_commit'')) (\<lambda>(final_commit, t).
          bind_eff (modify (\<lambda>k. k\<lparr>kv_transcript := t, round3_commits := []\<rparr>)) (\<lambda>_.
          return_eff final_commit)))"

end
