(* ===== verification/DkgMachine.thy ===== *)
theory DkgMachine
  imports DkgCrypto
begin

text \<open>
  The state machine of the distributed key generation (\<open>btc-server/src/dkg/mod.rs\<close>). A participant
  exchanges packages with the others through the coordinator in three rounds, resends what was not
  acknowledged, and ends with the key package once every other member has signed its public keys. The
  state is that of the source; a \<open>BTreeMap\<close> is a sorted association list, an \<open>Instant\<close> or \<open>Duration\<close> its
  number of nanoseconds, and the random numbers drawn for a new session are the argument \<open>rnd\<close>. Debug
  assertions are not part of the operations.
\<close>

section \<open>Data\<close>

definition SESSION_CONTEXT :: bytes where
  "SESSION_CONTEXT = map (\<lambda>c. of_char c) ''static-dkg-session-context''"

datatype dkg_message =
    Round1 initiator bytes u64 public_key signature bytes
  | AckRound1 initiator
  | Round2 initiator target u64 bytes
  | AckRound2 initiator target
  | Round3 initiator signature
  | AckRound3 initiator

record dkg_payload =
  sender :: frost_id
  recipient :: frost_id
  msg :: dkg_message

record dkg_config =
  max_signers :: u16
  min_signers :: u16
  round1_package_timeout :: nat
  round2_package_timeout :: nat
  round3_package_timeout :: nat
  pending_session_timeout :: "nat option"

datatype dkg_stage = AwaitingInit | RoundOne | RoundTwo | RoundThree | Aborted | Finalized

record out_round1 =
  o1_package :: bytes
  o1_ephemeral_pub :: public_key
  o1_signature :: signature
  o1_timer :: "nat option"
  o1_attempts :: nat

record out_round2 =
  o2_ciphernonce :: u64
  o2_ciphertext :: bytes
  o2_timer :: "nat option"
  o2_attempts :: nat

record out_round3 =
  o3_signature :: signature
  o3_timer :: "nat option"
  o3_attempts :: nat

record round_one =
  r1_context :: bytes
  r1_nonce :: u64
  r1_auth :: handshake
  r1_secret :: bytes
  r1_in :: "(initiator \<times> bytes) list"
  r1_out :: "((initiator \<times> frost_id) \<times> out_round1 option) list"

record round_two =
  r2_pending :: bool
  r2_auth :: channel
  r2_secret :: bytes
  r2_in1 :: "(frost_id \<times> bytes) list"
  r2_in :: "(initiator \<times> bytes) list"
  r2_out :: "((initiator \<times> target) \<times> out_round2 option) list"

record round_three =
  r3_pending :: bool
  r3_auth :: key_verification
  r3_secret :: bytes
  r3_public :: bytes
  r3_in1 :: "(frost_id \<times> bytes) list"
  r3_in2 :: "(frost_id \<times> bytes) list"
  r3_in :: "(initiator \<times> signature) list"
  r3_out :: "((initiator \<times> frost_id) \<times> out_round3 option) list"

datatype stage_state =
    AwatingInit
  | InRoundOne round_one
  | InRoundTwo round_two
  | InRoundThree round_three
  | IsAborted
  | IsFinalized bytes bytes

datatype dkg_error = BadConfig string | FrostError | Encryption enc_error

record dkg =
  dk_config :: dkg_config
  dk_my_frost_id :: frost_id
  dk_my_static_sec :: secret_key
  dk_coordinator :: frost_id
  dk_members :: "(frost_id \<times> public_key) list"
  dk_queue :: "dkg_payload list"
  dk_state :: stage_state
  session_nonce :: "u64 option"
  session_activated :: "nat option"

fun did_round_one_finalize :: "stage_state \<Rightarrow> bool" where
  "did_round_one_finalize (InRoundTwo _) = True"
| "did_round_one_finalize (InRoundThree _) = True"
| "did_round_one_finalize (IsFinalized _ _) = True"
| "did_round_one_finalize _ = False"

fun did_round_two_finalize :: "stage_state \<Rightarrow> bool" where
  "did_round_two_finalize (InRoundThree _) = True"
| "did_round_two_finalize (IsFinalized _ _) = True"
| "did_round_two_finalize _ = False"

fun did_round_three_finalize :: "stage_state \<Rightarrow> bool" where
  "did_round_three_finalize (IsFinalized _ _) = True"
| "did_round_three_finalize _ = False"

definition is_coordinator :: "dkg \<Rightarrow> bool" where
  "is_coordinator s \<longleftrightarrow> dk_my_frost_id s = dk_coordinator s"

fun stage_of :: "stage_state \<Rightarrow> dkg_stage" where
  "stage_of AwatingInit = AwaitingInit"
| "stage_of (InRoundOne _) = RoundOne"
| "stage_of (InRoundTwo _) = RoundTwo"
| "stage_of (InRoundThree _) = RoundThree"
| "stage_of (IsFinalized _ _) = Finalized"
| "stage_of IsAborted = Aborted"

definition aggregate_key_packages :: "dkg \<Rightarrow> (bytes \<times> bytes) option" where
  "aggregate_key_packages s =
     (case dk_state s of IsFinalized secret_package public_key_package \<Rightarrow> Some (secret_package, public_key_package)
      | _ \<Rightarrow> None)"

section \<open>Sending\<close>

definition push :: "frost_id \<Rightarrow> dkg_message \<Rightarrow> (dkg, 'e, unit) eff" where
  "push to m = modify (\<lambda>s. s\<lparr>dk_queue := dk_queue s @ [\<lparr>sender = dk_my_frost_id s, recipient = to, msg = m\<rparr>]\<rparr>)"

definition send_round1_ack :: "initiator \<Rightarrow> frost_id \<Rightarrow> (dkg, 'e, unit) eff" where
  "send_round1_ack initiator to = push to (AckRound1 initiator)"

definition send_round2_ack :: "initiator \<Rightarrow> frost_id \<Rightarrow> target \<Rightarrow> (dkg, 'e, unit) eff" where
  "send_round2_ack initiator to target = push to (AckRound2 initiator target)"

definition send_round3_ack :: "initiator \<Rightarrow> frost_id \<Rightarrow> (dkg, 'e, unit) eff" where
  "send_round3_ack initiator to = push to (AckRound3 initiator)"

definition set_state :: "stage_state \<Rightarrow> (dkg, 'e, unit) eff" where
  "set_state st = modify (\<lambda>s. s\<lparr>dk_state := st\<rparr>)"

text \<open>A call on the authentication layer of a round, which stays in the state also when it fails.\<close>

definition with_auth1 ::
    "round_one \<Rightarrow> (handshake, enc_error, 'a) eff \<Rightarrow> ('a \<Rightarrow> round_one \<Rightarrow> (dkg, dkg_error, 'b) eff) \<Rightarrow> (dkg, dkg_error, 'b) eff" where
  "with_auth1 r m k = (case m (r1_auth r) of (res, a) \<Rightarrow>
     bind_eff (set_state (InRoundOne (r\<lparr>r1_auth := a\<rparr>))) (\<lambda>_.
     bind_eff (lift_result (map_err Encryption res)) (\<lambda>x. k x (r\<lparr>r1_auth := a\<rparr>))))"

definition with_auth2 ::
    "round_two \<Rightarrow> (channel, enc_error, 'a) eff \<Rightarrow> ('a \<Rightarrow> round_two \<Rightarrow> (dkg, dkg_error, 'b) eff) \<Rightarrow> (dkg, dkg_error, 'b) eff" where
  "with_auth2 r m k = (case m (r2_auth r) of (res, a) \<Rightarrow>
     bind_eff (set_state (InRoundTwo (r\<lparr>r2_auth := a\<rparr>))) (\<lambda>_.
     bind_eff (lift_result (map_err Encryption res)) (\<lambda>x. k x (r\<lparr>r2_auth := a\<rparr>))))"

definition with_auth3 ::
    "round_three \<Rightarrow> (key_verification, enc_error, 'a) eff \<Rightarrow> ('a \<Rightarrow> round_three \<Rightarrow> (dkg, dkg_error, 'b) eff) \<Rightarrow> (dkg, dkg_error, 'b) eff" where
  "with_auth3 r m k = (case m (r3_auth r) of (res, a) \<Rightarrow>
     bind_eff (set_state (InRoundThree (r\<lparr>r3_auth := a\<rparr>))) (\<lambda>_.
     bind_eff (lift_result (map_err Encryption res)) (\<lambda>x. k x (r\<lparr>r3_auth := a\<rparr>))))"

text \<open>A call on a layer that is not yet part of the state.\<close>

definition run_auth :: "('a, enc_error, 'x) eff \<Rightarrow> 'a \<Rightarrow> (dkg_error, 'x \<times> 'a) result" where
  "run_auth m a = (case m a of (res, a') \<Rightarrow> bind_result (map_err Encryption res) (\<lambda>x. Ok (x, a')))"

section \<open>A new session\<close>

abbreviation member_ids :: "dkg \<Rightarrow> frost_id list" where
  "member_ids s \<equiv> map fst (dk_members s)"

text \<open>The entries the coordinator has to see acknowledged: its own package and the forwarded ones.\<close>

definition coordinator_table :: "frost_id \<Rightarrow> frost_id list \<Rightarrow> 'v \<Rightarrow> ((frost_id \<times> frost_id) \<times> 'v option) list" where
  "coordinator_table me ids out_entry =
     fold (\<lambda>(initiator, to) out.
       if to = me then out
       else if initiator = to then out
       else bt_insert (initiator, to) (if initiator = me then Some out_entry else None) out)
     (List.product ids ids) []"

definition init_new_session ::
    "crypto \<Rightarrow> bytes \<times> secret_key \<Rightarrow> u64 \<Rightarrow> (dkg, dkg_error, unit) eff" where
  "init_new_session C rnd nonce =
     bind_eff (modify (\<lambda>s. s\<lparr>session_activated := None, session_nonce := Some nonce, dk_queue := []\<rparr>)) (\<lambda>_.
     bind_eff (gets (\<lambda>s. s)) (\<lambda>s.
     bind_eff (lift_result (ok_or FrostError (frost_part1 C (fst rnd) (dk_my_frost_id s)
       (max_signers (dk_config s)) (min_signers (dk_config s))))) (\<lambda>(secret_package, our_round1_package).
     bind_eff (lift_result (map_err Encryption (new_handshake C (snd rnd) SESSION_CONTEXT nonce (dk_my_frost_id s)
       (dk_my_static_sec s) (dk_members s)))) (\<lambda>auth.
     bind_eff (lift_result (run_auth (commit_round1 C our_round1_package) auth)) (\<lambda>((our_eph_pub, our_sig), auth).
     let out_entry = \<lparr>o1_package = our_round1_package, o1_ephemeral_pub = our_eph_pub, o1_signature = our_sig,
           o1_timer = None, o1_attempts = 0\<rparr>
     in bind_eff (for_each (\<lambda>to. push to (Round1 (dk_my_frost_id s) SESSION_CONTEXT nonce our_eph_pub our_sig our_round1_package))
          (filter (\<lambda>to. to \<noteq> dk_my_frost_id s) (member_ids s))) (\<lambda>_.
        set_state (InRoundOne \<lparr>r1_context = SESSION_CONTEXT, r1_nonce = nonce, r1_auth = auth, r1_secret = secret_package,
          r1_in = [], r1_out = coordinator_table (dk_my_frost_id s) (member_ids s) out_entry\<rparr>)))))))"

definition new_dkg ::
    "crypto \<Rightarrow> bytes \<times> secret_key \<Rightarrow> frost_id \<Rightarrow> secret_key \<Rightarrow> frost_id \<Rightarrow> (frost_id \<times> public_key) list \<Rightarrow> dkg_config \<Rightarrow>
     u64 option \<Rightarrow> (dkg_error, dkg) result" where
  "new_dkg C rnd my_frost_id my_static_sec coordinator members config nonce =
     (if map_of members my_frost_id = None then Err (BadConfig ''my_frost_id not in members'')
      else if map_of members coordinator = None then Err (BadConfig ''coordinator not in members'')
      else if min_signers config > max_signers config
      then Err (BadConfig ''min_signers cannot be greater than max_signers'')
      else if (of_nat (length members) :: u16) \<noteq> max_signers config
      then Err (BadConfig ''max_signers does not match member size'')
      else if my_frost_id = coordinator \<and> nonce = None
      then Err (BadConfig ''coordinator must provide a session nonce'')
      else let this = \<lparr>dk_config = config, dk_my_frost_id = my_frost_id, dk_my_static_sec = my_static_sec,
             dk_coordinator = coordinator, dk_members = members, dk_queue = [], dk_state = AwatingInit,
             session_nonce = None, session_activated = None\<rparr>
           in if is_coordinator this
              then bind_result (expect nonce) (\<lambda>n. case init_new_session C rnd n this of (res, s) \<Rightarrow>
                     bind_result res (\<lambda>_. Ok s))
              else Ok this)"

section \<open>Time\<close>

definition saturating_duration_since :: "nat \<Rightarrow> nat \<Rightarrow> nat" where
  "saturating_duration_since t now = t - now"

definition min_option :: "nat list \<Rightarrow> nat option" where
  "min_option ts = (if ts = [] then None else Some (Min (set ts)))"

definition session_deadline :: "dkg \<Rightarrow> nat option" where
  "session_deadline s =
     (if is_coordinator s \<and> stage_of (dk_state s) \<noteq> Finalized
      then (case (pending_session_timeout (dk_config s), session_activated s) of
              (Some limit, Some activated) \<Rightarrow> Some (activated + limit) | _ \<Rightarrow> None)
      else None)"

definition timeout :: "dkg \<Rightarrow> nat \<Rightarrow> nat option" where
  "timeout s now =
     (let session_timeout = map_option (\<lambda>t. saturating_duration_since t now) (session_deadline s);
          timers = (case dk_state s of
              InRoundOne r \<Rightarrow> List.map_filter (\<lambda>e. Option.bind (snd e) o1_timer) (r1_out r)
            | InRoundTwo r \<Rightarrow> List.map_filter (\<lambda>e. Option.bind (snd e) o2_timer) (r2_out r)
            | InRoundThree r \<Rightarrow> List.map_filter (\<lambda>e. Option.bind (snd e) o3_timer) (r3_out r)
            | _ \<Rightarrow> []);
          t = min_option (map (\<lambda>t. saturating_duration_since t now) timers)
      in (case (t, session_timeout) of
            (Some t, Some s) \<Rightarrow> Some (min t s)
          | (Some t, None) \<Rightarrow> Some t
          | (None, x) \<Rightarrow> x))"

definition MILLI :: nat where
  "MILLI = 1000000"

text \<open>Whether a package is to be sent again, with a tolerance of a millisecond.\<close>

definition is_due :: "nat \<Rightarrow> nat option \<Rightarrow> bool" where
  "is_due now timer = (case timer of None \<Rightarrow> False | Some t \<Rightarrow> \<not> t > now + MILLI)"

definition resend :: "nat \<Rightarrow> (dkg, 'e, unit) eff" where
  "resend now =
     bind_eff (gets (\<lambda>s. s)) (\<lambda>s. case dk_state s of
       InRoundOne r \<Rightarrow> for_each (\<lambda>((initiator, to), entry). case entry of
           Some e \<Rightarrow> if is_due now (o1_timer e)
             then push to (Round1 initiator (r1_context r) (r1_nonce r) (o1_ephemeral_pub e) (o1_signature e) (o1_package e))
             else return_eff ()
         | None \<Rightarrow> return_eff ()) (r1_out r)
     | InRoundTwo r \<Rightarrow> for_each (\<lambda>((initiator, target), entry). case entry of
           Some e \<Rightarrow> if is_due now (o2_timer e)
             then push (if is_coordinator s then target else dk_coordinator s)
               (Round2 initiator target (o2_ciphernonce e) (o2_ciphertext e))
             else return_eff ()
         | None \<Rightarrow> return_eff ()) (r2_out r)
     | InRoundThree r \<Rightarrow> for_each (\<lambda>((initiator, to), entry). case entry of
           Some e \<Rightarrow> if is_due now (o3_timer e) then push to (Round3 initiator (o3_signature e)) else return_eff ()
         | None \<Rightarrow> return_eff ()) (r3_out r)
     | _ \<Rightarrow> return_eff ())"

definition on_timeout :: "crypto \<Rightarrow> bytes \<times> secret_key \<Rightarrow> nat \<Rightarrow> (dkg, 'e, unit) eff" where
  "on_timeout C rnd now =
     bind_eff (gets (\<lambda>s. s)) (\<lambda>s.
     bind_eff (case session_deadline s of
         Some deadline \<Rightarrow>
           if now \<ge> deadline
           then bind_eff (lift_result (expect (session_nonce s))) (\<lambda>nonce.
                expect_eff (init_new_session C rnd (nonce + 1)))
           else return_eff ()
       | None \<Rightarrow> return_eff ()) (\<lambda>_.
     resend now))"

text \<open>\<open>send\<close> takes payloads from the queue until one is still wanted, and starts its timer.\<close>

fun send_from :: "nat \<Rightarrow> dkg \<Rightarrow> dkg_payload list \<Rightarrow> dkg_payload option \<times> dkg" where
  "send_from now s [] = (None, s\<lparr>dk_queue := []\<rparr>)"
| "send_from now s (payload # queue) = (case msg payload of
       Round1 initiator _ _ _ _ _ \<Rightarrow> (case dk_state s of
           InRoundOne r \<Rightarrow> (case map_of (r1_out r) (initiator, recipient payload) of
               Some (Some e) \<Rightarrow>
                 (Some payload, s\<lparr>dk_queue := queue,
                    session_activated := (case session_activated s of None \<Rightarrow> Some now | a \<Rightarrow> a),
                    dk_state := InRoundOne (r\<lparr>r1_out := bt_insert (initiator, recipient payload)
                      (Some (e\<lparr>o1_timer := Some (now + round1_package_timeout (dk_config s)),
                               o1_attempts := o1_attempts e + 1\<rparr>)) (r1_out r)\<rparr>)\<rparr>)
             | _ \<Rightarrow> send_from now s queue)
         | _ \<Rightarrow> send_from now s queue)
     | Round2 initiator target _ _ \<Rightarrow> (case dk_state s of
           InRoundTwo r \<Rightarrow> (case map_of (r2_out r) (initiator, target) of
               Some (Some e) \<Rightarrow>
                 (Some payload, s\<lparr>dk_queue := queue,
                    dk_state := InRoundTwo (r\<lparr>r2_out := bt_insert (initiator, target)
                      (Some (e\<lparr>o2_timer := Some (now + round2_package_timeout (dk_config s)),
                               o2_attempts := o2_attempts e + 1\<rparr>)) (r2_out r)\<rparr>)\<rparr>)
             | _ \<Rightarrow> send_from now s queue)
         | _ \<Rightarrow> send_from now s queue)
     | Round3 initiator _ \<Rightarrow> (case dk_state s of
           InRoundThree r \<Rightarrow> (case map_of (r3_out r) (initiator, recipient payload) of
               Some (Some e) \<Rightarrow>
                 (Some payload, s\<lparr>dk_queue := queue,
                    dk_state := InRoundThree (r\<lparr>r3_out := bt_insert (initiator, recipient payload)
                      (Some (e\<lparr>o3_timer := Some (now + round3_package_timeout (dk_config s)),
                               o3_attempts := o3_attempts e + 1\<rparr>)) (r3_out r)\<rparr>)\<rparr>)
             | _ \<Rightarrow> send_from now s queue)
         | _ \<Rightarrow> send_from now s queue)
     | _ \<Rightarrow> (Some payload, s\<lparr>dk_queue := queue\<rparr>))"

definition send :: "nat \<Rightarrow> dkg \<Rightarrow> dkg_payload option \<times> dkg" where
  "send now s = send_from now s (dk_queue s)"

section \<open>Receiving\<close>

definition on_dkg_msg_ack_round1 :: "initiator \<Rightarrow> frost_id \<Rightarrow> (dkg, dkg_error, unit) eff" where
  "on_dkg_msg_ack_round1 initiator from_id =
     bind_eff (gets (\<lambda>s. s)) (\<lambda>s.
     if map_of (dk_members s) initiator = None then return_eff ()
     else case dk_state s of
         InRoundOne r \<Rightarrow> set_state (InRoundOne (r\<lparr>r1_out := AList.delete (initiator, from_id) (r1_out r)\<rparr>))
       | _ \<Rightarrow> return_eff ())"

definition on_dkg_msg_ack_round2 :: "initiator \<Rightarrow> target \<Rightarrow> (dkg, dkg_error, unit) eff" where
  "on_dkg_msg_ack_round2 initiator target =
     bind_eff (gets (\<lambda>s. s)) (\<lambda>s.
     if map_of (dk_members s) initiator = None then return_eff ()
     else case dk_state s of
         InRoundTwo r \<Rightarrow> set_state (InRoundTwo (r\<lparr>r2_out := AList.delete (initiator, target) (r2_out r)\<rparr>))
       | _ \<Rightarrow> return_eff ())"

definition on_dkg_msg_ack_round3 :: "initiator \<Rightarrow> frost_id \<Rightarrow> (dkg, dkg_error, unit) eff" where
  "on_dkg_msg_ack_round3 initiator from_id =
     bind_eff (gets (\<lambda>s. s)) (\<lambda>s.
     if map_of (dk_members s) initiator = None then return_eff ()
     else case dk_state s of
         InRoundThree r \<Rightarrow> set_state (InRoundThree (r\<lparr>r3_out := AList.delete (initiator, from_id) (r3_out r)\<rparr>))
       | _ \<Rightarrow> return_eff ())"

definition accept_session ::
    "crypto \<Rightarrow> bytes \<times> secret_key \<Rightarrow> initiator \<Rightarrow> bytes \<Rightarrow> u64 \<Rightarrow> bytes \<Rightarrow> handshake \<Rightarrow> (dkg, dkg_error, bool) eff" where
  "accept_session C rnd initiator context nonce their_package auth =
     bind_eff (modify (\<lambda>s. s\<lparr>session_activated := None, session_nonce := Some nonce, dk_queue := []\<rparr>)) (\<lambda>_.
     bind_eff (gets (\<lambda>s. s)) (\<lambda>s.
     bind_eff (send_round1_ack initiator (dk_coordinator s)) (\<lambda>_.
     bind_eff (lift_result (ok_or FrostError (frost_part1 C (fst rnd) (dk_my_frost_id s)
       (max_signers (dk_config s)) (min_signers (dk_config s))))) (\<lambda>(secret_package, our_round1_package).
     bind_eff (lift_result (run_auth (commit_round1 C our_round1_package) auth)) (\<lambda>((our_eph_pub, our_sig), auth).
     let out_entry = \<lparr>o1_package = our_round1_package, o1_ephemeral_pub = our_eph_pub, o1_signature = our_sig,
           o1_timer = None, o1_attempts = 0\<rparr>
     in bind_eff (push (dk_coordinator s) (Round1 (dk_my_frost_id s) context nonce our_eph_pub our_sig our_round1_package)) (\<lambda>_.
        bind_eff (set_state (InRoundOne \<lparr>r1_context = context, r1_nonce = nonce, r1_auth = auth, r1_secret = secret_package,
          r1_in = bt_insert initiator their_package [],
          r1_out = bt_insert (dk_my_frost_id s, dk_coordinator s) (Some out_entry) []\<rparr>)) (\<lambda>_.
        return_eff True)))))))"

definition validate_new_session_init ::
    "crypto \<Rightarrow> bytes \<times> secret_key \<Rightarrow> initiator \<Rightarrow> bytes \<Rightarrow> u64 \<Rightarrow> public_key \<Rightarrow> signature \<Rightarrow> bytes \<Rightarrow> (dkg, dkg_error, bool) eff" where
  "validate_new_session_init C rnd initiator their_context their_nonce their_eph their_sig their_package =
     bind_eff (gets (\<lambda>s. s)) (\<lambda>s.
     if is_coordinator s then return_eff False
     else if initiator \<noteq> dk_coordinator s then return_eff False
     else if their_context \<noteq> SESSION_CONTEXT then return_eff False
     else if (case session_nonce s of Some lst \<Rightarrow> lst \<ge> their_nonce | None \<Rightarrow> False) then return_eff False
     else if stage_of (dk_state s) = Finalized then return_eff False
     else bind_eff (lift_result (map_err Encryption (new_handshake C (snd rnd) their_context their_nonce (dk_my_frost_id s)
            (dk_my_static_sec s) (dk_members s)))) (\<lambda>auth.
          bind_eff (lift_result (run_auth (validate_round1 C initiator their_eph their_sig their_package) auth)) (\<lambda>(_, auth).
          accept_session C rnd initiator their_context their_nonce their_package auth)))"

text \<open>The coordinator forwards a package to the members whose entry is still open.\<close>

fun forward_round1 ::
    "initiator \<Rightarrow> public_key \<Rightarrow> signature \<Rightarrow> bytes \<Rightarrow> round_one \<Rightarrow> frost_id list \<Rightarrow> (dkg, 'e, round_one) eff" where
  "forward_round1 initiator eph sig package r [] = return_eff r"
| "forward_round1 initiator eph sig package r (to # rest) =
     (if map_of (r1_out r) (initiator, to) = None then forward_round1 initiator eph sig package r rest
      else bind_eff (push to (Round1 initiator (r1_context r) (r1_nonce r) eph sig package)) (\<lambda>_.
           forward_round1 initiator eph sig package (r\<lparr>r1_out := bt_insert (initiator, to)
             (Some \<lparr>o1_package = package, o1_ephemeral_pub = eph, o1_signature = sig, o1_timer = None, o1_attempts = 0\<rparr>)
             (r1_out r)\<rparr>) rest))"

definition store_round1 ::
    "crypto \<Rightarrow> initiator \<Rightarrow> public_key \<Rightarrow> signature \<Rightarrow> bytes \<Rightarrow> frost_id \<Rightarrow> round_one \<Rightarrow> (dkg, dkg_error, unit) eff" where
  "store_round1 C initiator eph sig package from_id r =
     (if map_of (r1_in r) initiator \<noteq> None then send_round1_ack initiator from_id
      else with_auth1 r (validate_round1 C initiator eph sig package) (\<lambda>_ r.
        let r = r\<lparr>r1_in := bt_insert initiator package (r1_in r)\<rparr> in
        bind_eff (set_state (InRoundOne r)) (\<lambda>_.
        bind_eff (send_round1_ack initiator from_id) (\<lambda>_.
        bind_eff (gets (\<lambda>s. s)) (\<lambda>s.
        if is_coordinator s
        then bind_eff (forward_round1 initiator eph sig package r
               (filter (\<lambda>to. \<not> (to = dk_my_frost_id s \<or> to = from_id)) (member_ids s))) (\<lambda>r.
             set_state (InRoundOne r))
        else return_eff ())))))"

definition on_dkg_msg_round1 ::
    "crypto \<Rightarrow> bytes \<times> secret_key \<Rightarrow> initiator \<Rightarrow> bytes \<Rightarrow> u64 \<Rightarrow> public_key \<Rightarrow> signature \<Rightarrow> bytes \<Rightarrow> frost_id \<Rightarrow>
     (dkg, dkg_error, unit) eff" where
  "on_dkg_msg_round1 C rnd initiator their_context their_nonce eph sig package from_id =
     bind_eff (gets (\<lambda>s. s)) (\<lambda>s.
     if map_of (dk_members s) initiator = None then return_eff ()
     else if initiator = dk_my_frost_id s then return_eff ()
     else if their_context \<noteq> SESSION_CONTEXT then return_eff ()
     else if (case session_nonce s of Some lst \<Rightarrow> their_nonce < lst | None \<Rightarrow> False) then return_eff ()
     else bind_eff (if session_nonce s = Some their_nonce then return_eff False
            else validate_new_session_init C rnd initiator their_context their_nonce eph sig package) (\<lambda>accepted.
          if accepted then return_eff ()
          else case dk_state s of
              InRoundOne r \<Rightarrow> store_round1 C initiator eph sig package from_id r
            | st \<Rightarrow> if did_round_one_finalize st then send_round1_ack initiator from_id else return_eff ()))"

definition on_dkg_msg_round2 ::
    "crypto \<Rightarrow> initiator \<Rightarrow> target \<Rightarrow> u64 \<Rightarrow> bytes \<Rightarrow> frost_id \<Rightarrow> (dkg, dkg_error, unit) eff" where
  "on_dkg_msg_round2 C initiator target ciphernonce ciphertext from_id =
     bind_eff (gets (\<lambda>s. s)) (\<lambda>s.
     if map_of (dk_members s) initiator = None then return_eff ()
     else if initiator = dk_my_frost_id s then return_eff ()
     else case dk_state s of
         InRoundTwo r \<Rightarrow>
           if target = dk_my_frost_id s
           then if map_of (r2_in r) initiator \<noteq> None then send_round2_ack initiator from_id target
                else with_auth2 r (validate_round2 C initiator ciphernonce ciphertext) (\<lambda>package r.
                  let r = r\<lparr>r2_in := bt_insert initiator package (r2_in r)\<rparr> in
                  bind_eff (send_round2_ack initiator from_id target) (\<lambda>_.
                  bind_eff (if r2_pending r
                     then for_each (\<lambda>((i, t), entry). case entry of
                         Some e \<Rightarrow> push (dk_coordinator s) (Round2 i t (o2_ciphernonce e) (o2_ciphertext e))
                       | None \<Rightarrow> return_eff ()) (r2_out r)
                     else return_eff ()) (\<lambda>_.
                  set_state (InRoundTwo (r\<lparr>r2_pending := False\<rparr>)))))
           else if \<not> is_coordinator s then return_eff ()
           else if map_of (r2_out r) (initiator, target) = None then return_eff ()
           else bind_eff (set_state (InRoundTwo (r\<lparr>r2_out := bt_insert (initiator, target)
                  (Some \<lparr>o2_ciphernonce = ciphernonce, o2_ciphertext = ciphertext, o2_timer = None, o2_attempts = 0\<rparr>)
                  (r2_out r)\<rparr>))) (\<lambda>_.
                bind_eff (send_round2_ack initiator from_id target) (\<lambda>_.
                push target (Round2 initiator target ciphernonce ciphertext)))
       | st \<Rightarrow> if did_round_two_finalize st then send_round2_ack initiator from_id target else return_eff ())"

fun forward_round3 ::
    "initiator \<Rightarrow> signature \<Rightarrow> round_three \<Rightarrow> frost_id list \<Rightarrow> (dkg, 'e, round_three) eff" where
  "forward_round3 initiator sig r [] = return_eff r"
| "forward_round3 initiator sig r (to # rest) =
     (if map_of (r3_out r) (initiator, to) = None then forward_round3 initiator sig r rest
      else bind_eff (push to (Round3 initiator sig)) (\<lambda>_.
           forward_round3 initiator sig (r\<lparr>r3_out := bt_insert (initiator, to)
             (Some \<lparr>o3_signature = sig, o3_timer = None, o3_attempts = 0\<rparr>) (r3_out r)\<rparr>) rest))"

definition on_dkg_msg_round3 ::
    "crypto \<Rightarrow> initiator \<Rightarrow> signature \<Rightarrow> frost_id \<Rightarrow> (dkg, dkg_error, unit) eff" where
  "on_dkg_msg_round3 C initiator sig from_id =
     bind_eff (gets (\<lambda>s. s)) (\<lambda>s.
     if map_of (dk_members s) initiator = None then return_eff ()
     else if initiator = dk_my_frost_id s then return_eff ()
     else case dk_state s of
         InRoundThree r \<Rightarrow>
           if map_of (r3_in r) initiator \<noteq> None then send_round3_ack initiator from_id
           else with_auth3 r (validate_round3 C initiator sig) (\<lambda>_ r.
             let r = r\<lparr>r3_in := bt_insert initiator sig (r3_in r)\<rparr> in
             bind_eff (send_round3_ack initiator from_id) (\<lambda>_.
             bind_eff (if r3_pending r
                then for_each (\<lambda>((i, to), entry). case entry of
                    Some e \<Rightarrow> push to (Round3 i (o3_signature e)) | None \<Rightarrow> return_eff ()) (r3_out r)
                else return_eff ()) (\<lambda>_.
             let r = r\<lparr>r3_pending := False\<rparr> in
             bind_eff (if is_coordinator s
                then forward_round3 initiator sig r
                  (filter (\<lambda>to. \<not> (to = dk_my_frost_id s \<or> to = from_id)) (member_ids s))
                else return_eff r) (\<lambda>r.
             set_state (InRoundThree r)))))
       | st \<Rightarrow> if did_round_three_finalize st then send_round3_ack initiator from_id else return_eff ())"

section \<open>Transitions\<close>

text \<open>The shares of round two, encrypted for each target; the coordinator sends them at once.\<close>

fun commit_shares ::
    "crypto \<Rightarrow> frost_id \<Rightarrow> bool \<Rightarrow> (frost_id \<times> bytes) list \<Rightarrow> channel \<Rightarrow> ((initiator \<times> target) \<times> out_round2 option) list \<Rightarrow>
     (dkg, dkg_error, channel \<times> ((initiator \<times> target) \<times> out_round2 option) list) eff" where
  "commit_shares C me coord [] auth out = return_eff (auth, out)"
| "commit_shares C me coord ((target, our_package) # rest) auth out =
     bind_eff (lift_result (run_auth (commit_round2 C target our_package) auth)) (\<lambda>((ciphertext, ciphernonce), auth).
     bind_eff (if coord then push target (Round2 me target ciphernonce ciphertext) else return_eff ()) (\<lambda>_.
     commit_shares C me coord rest auth (bt_insert (me, target)
       (Some \<lparr>o2_ciphernonce = ciphernonce, o2_ciphertext = ciphertext, o2_timer = None, o2_attempts = 0\<rparr>) out)))"

definition forwarded_entries :: "frost_id \<Rightarrow> frost_id list \<Rightarrow> ((frost_id \<times> frost_id) \<times> 'v option) list \<Rightarrow> ((frost_id \<times> frost_id) \<times> 'v option) list" where
  "forwarded_entries me ids out =
     fold (\<lambda>(initiator, target) out.
       if initiator = me then out
       else if target = me then out
       else if initiator = target then out
       else bt_insert (initiator, target) None out)
     (List.product ids ids) out"

definition transition_stage2_checked :: "crypto \<Rightarrow> (dkg, dkg_error, unit) eff" where
  "transition_stage2_checked C =
     bind_eff (gets (\<lambda>s. s)) (\<lambda>s. case dk_state s of
       InRoundOne r \<Rightarrow>
         if length (r1_in r) \<noteq> length (dk_members s) - 1 \<or> r1_out r \<noteq> [] then return_eff ()
         else (case frost_part2 C (r1_secret r) (r1_in r) of
             None \<Rightarrow> set_state IsAborted
           | Some (secret_package, dkg2_shares) \<Rightarrow>
               with_auth1 (r\<lparr>r1_in := []\<rparr>) (finalize_handshake C) (\<lambda>auth _.
               bind_eff (commit_shares C (dk_my_frost_id s) (is_coordinator s) dkg2_shares auth []) (\<lambda>(auth, out).
               set_state (InRoundTwo \<lparr>r2_pending = (\<not> is_coordinator s), r2_auth = auth, r2_secret = secret_package,
                 r2_in1 = r1_in r, r2_in = [],
                 r2_out = (if is_coordinator s then forwarded_entries (dk_my_frost_id s) (member_ids s) out else out)\<rparr>))))
     | _ \<Rightarrow> return_eff ())"

definition transition_stage3_checked :: "crypto \<Rightarrow> (dkg, dkg_error, unit) eff" where
  "transition_stage3_checked C =
     bind_eff (gets (\<lambda>s. s)) (\<lambda>s. case dk_state s of
       InRoundTwo r \<Rightarrow>
         if length (r2_in r) \<noteq> length (dk_members s) - 1 \<or> r2_out r \<noteq> [] then return_eff ()
         else (case frost_part3 C (r2_secret r) (r2_in1 r) (r2_in r) of
             None \<Rightarrow> set_state (InRoundTwo (r\<lparr>r2_in1 := [], r2_in := []\<rparr>))
           | Some (secret_package, public_key_package) \<Rightarrow>
               with_auth2 (r\<lparr>r2_in1 := [], r2_in := []\<rparr>) (finalize_channel C) (\<lambda>auth _.
               bind_eff (lift_result (run_auth (commit_round3 C public_key_package) auth)) (\<lambda>(our_sealed_signature, auth).
               let out_entry = \<lparr>o3_signature = our_sealed_signature, o3_timer = None, o3_attempts = 0\<rparr>;
                   me = dk_my_frost_id s
               in bind_eff (if is_coordinator s
                    then for_each (\<lambda>to. push to (Round3 me our_sealed_signature)) (filter (\<lambda>to. to \<noteq> me) (member_ids s))
                    else return_eff ()) (\<lambda>_.
                  set_state (InRoundThree \<lparr>r3_pending = (\<not> is_coordinator s), r3_auth = auth, r3_secret = secret_package,
                    r3_public = public_key_package, r3_in1 = r2_in1 r, r3_in2 = r2_in r, r3_in = [],
                    r3_out = (if is_coordinator s then coordinator_table me (member_ids s) out_entry
                              else bt_insert (me, dk_coordinator s) (Some out_entry) [])\<rparr>)))))
     | _ \<Rightarrow> return_eff ())"

definition transition_final_checked :: "crypto \<Rightarrow> (dkg, dkg_error, unit) eff" where
  "transition_final_checked C =
     bind_eff (gets (\<lambda>s. s)) (\<lambda>s. case dk_state s of
       InRoundThree r \<Rightarrow>
         if length (r3_in r) \<noteq> length (dk_members s) - 1 \<or> r3_out r \<noteq> [] then return_eff ()
         else with_auth3 r (finalize_verification C) (\<lambda>_ r.
              bind_eff (set_state (IsFinalized (r3_secret r) (r3_public r))) (\<lambda>_.
              modify (\<lambda>s. s\<lparr>session_nonce := None, session_activated := None\<rparr>)))
     | _ \<Rightarrow> return_eff ())"

definition recv :: "crypto \<Rightarrow> bytes \<times> secret_key \<Rightarrow> dkg_payload \<Rightarrow> (dkg, dkg_error, unit) eff" where
  "recv C rnd payload =
     bind_eff (gets (\<lambda>s. recipient payload \<noteq> dk_my_frost_id s)) (\<lambda>other.
     if other then return_eff ()
     else case msg payload of
         Round1 initiator context nonce eph sig package \<Rightarrow>
           bind_eff (on_dkg_msg_round1 C rnd initiator context nonce eph sig package (sender payload)) (\<lambda>_.
           transition_stage2_checked C)
       | AckRound1 initiator \<Rightarrow>
           bind_eff (on_dkg_msg_ack_round1 initiator (sender payload)) (\<lambda>_. transition_stage2_checked C)
       | Round2 initiator target nonce package \<Rightarrow>
           bind_eff (on_dkg_msg_round2 C initiator target nonce package (sender payload)) (\<lambda>_.
           transition_stage3_checked C)
       | AckRound2 initiator target \<Rightarrow>
           bind_eff (on_dkg_msg_ack_round2 initiator target) (\<lambda>_. transition_stage3_checked C)
       | Round3 initiator sig \<Rightarrow>
           bind_eff (on_dkg_msg_round3 C initiator sig (sender payload)) (\<lambda>_. transition_final_checked C)
       | AckRound3 initiator \<Rightarrow>
           bind_eff (on_dkg_msg_ack_round3 initiator (sender payload)) (\<lambda>_. transition_final_checked C))"

end
