(* ===== verification/DkgProps.thy ===== *)
theory DkgProps
  imports DkgMachine
begin

text \<open>
  Properties of the distributed key generation: its tables stay well-formed, a finalized key is signed
  by every member, a session never gives way to an older one, and the channels of round two deliver
  what was sent.
\<close>

section \<open>Ends of an operation\<close>

text \<open>\<open>wep m Q P s\<close>: \<open>m\<close> succeeds in \<open>Q\<close> or ends in \<open>P\<close>, by an error or a panic.\<close>

named_theorems wep_simps

definition wep :: "('s, 'e, 'a) eff \<Rightarrow> ('a \<Rightarrow> 's \<Rightarrow> bool) \<Rightarrow> ('s \<Rightarrow> bool) \<Rightarrow> 's \<Rightarrow> bool" where
  "wep m Q P s = (case m s of (r, s') \<Rightarrow> case r of Ok x \<Rightarrow> Q x s' | _ \<Rightarrow> P s')"

lemma wep_return [wep_simps]: "wep (return_eff x) Q P = Q x"
  by (simp add: fun_eq_iff wep_def return_eff_def)

lemma wep_raise [wep_simps]: "wep (raise_eff e) Q P = P"
  by (simp add: fun_eq_iff wep_def raise_eff_def)

lemma wep_gets [wep_simps]: "wep (gets g) Q P = (\<lambda>s. Q (g s) s)"
  by (simp add: fun_eq_iff wep_def gets_def)

lemma wep_modify [wep_simps]: "wep (modify f) Q P = (\<lambda>s. Q () (f s))"
  by (simp add: fun_eq_iff wep_def modify_def)

lemma wep_lift [wep_simps]: "wep (lift_result r) Q P = (\<lambda>s. case r of Ok x \<Rightarrow> Q x s | _ \<Rightarrow> P s)"
  by (simp add: fun_eq_iff wep_def lift_result_def)

lemma wep_reader [wep_simps]: "wep (\<lambda>s. (g s, s)) Q P = (\<lambda>s. case g s of Ok x \<Rightarrow> Q x s | _ \<Rightarrow> P s)"
  by (simp add: fun_eq_iff wep_def)

lemma wep_bind [wep_simps]: "wep (bind_eff m f) Q P = wep m (\<lambda>x. wep (f x) Q P) P"
  by (auto simp: fun_eq_iff wep_def bind_eff_def split: prod.split result.split)

lemma wep_expect [wep_simps]: "wep (expect_eff m) Q P = wep m Q P"
  by (auto simp: fun_eq_iff wep_def expect_eff_def split: prod.split result.split)

lemma wep_mono: "wep m Q P s \<Longrightarrow> (\<And>x s'. Q x s' \<Longrightarrow> Q' x s') \<Longrightarrow> (\<And>s'. P s' \<Longrightarrow> P' s') \<Longrightarrow> wep m Q' P' s"
  by (auto simp: wep_def split: prod.splits result.splits)

lemma wep_snd: "wep m (\<lambda>_. P) P s \<longleftrightarrow> P (snd (m s))"
  by (auto simp: wep_def split: prod.split result.split)

lemma wep_for_each:
  assumes "I s" and "\<And>x s. x \<in> set xs \<Longrightarrow> I s \<Longrightarrow> wep (f x) (\<lambda>_. I) P s"
  shows "wep (for_each f xs) (\<lambda>_. I) P s"
  using assms
proof (induction xs arbitrary: s)
  case (Cons x xs)
  have "wep (f x) (\<lambda>_. I) P s" using Cons.prems by simp
  then have "wep (f x) (\<lambda>_. wep (for_each f xs) (\<lambda>_. I) P) P s"
    by (rule wep_mono) (use Cons in auto)
  then show ?case by (simp add: wep_simps)
qed (simp add: wep_simps)

section \<open>Well-formed states\<close>

abbreviation ids :: "(frost_id \<times> public_key) list \<Rightarrow> frost_id set" where
  "ids M \<equiv> dom (map_of M)"

text \<open>\<open>R i sig\<close> stands for the signatures that were received in messages of the third round.
  Packages come from other members, and each outgoing one goes from a member to another one that is
  not this participant.\<close>

definition in_ok :: "(frost_id \<times> public_key) list \<Rightarrow> frost_id \<Rightarrow> (frost_id \<times> 'v) list \<Rightarrow> bool" where
  "in_ok M me m \<longleftrightarrow> bt_ok m \<and> dom (map_of m) \<subseteq> ids M - {me}"

definition out_ok :: "(frost_id \<times> public_key) list \<Rightarrow> frost_id \<Rightarrow> ((frost_id \<times> frost_id) \<times> 'v) list \<Rightarrow> bool" where
  "out_ok M me m \<longleftrightarrow> bt_ok m \<and> dom (map_of m) \<subseteq> {(i, to). i \<in> ids M \<and> to \<in> ids M \<and> to \<noteq> me \<and> i \<noteq> to}"

definition session_form :: "crypto \<Rightarrow> transcript \<Rightarrow> bool" where
  "session_form C t \<longleftrightarrow> (\<exists>nonce ms. t = fold (\<lambda>(l, m) t. tr_append C t l m) ms (session_transcript C SESSION_CONTEXT nonce))"

text \<open>The digest that the members sign: a challenge on a transcript of some session of this protocol that
  ends with the public keys.\<close>

definition key_digest :: "crypto \<Rightarrow> bytes \<Rightarrow> bytes \<Rightarrow> bool" where
  "key_digest C public_key_package digest \<longleftrightarrow> (\<exists>t bytes. session_form C t \<and>
     pubkeys_serialize C public_key_package = Some bytes \<and>
     digest = fst (tr_challenge C (tr_append C t ''round3_package'' bytes) ''round3_commit''))"

fun state_ok :: "(frost_id \<Rightarrow> signature \<Rightarrow> bool) \<Rightarrow> crypto \<Rightarrow> (frost_id \<times> public_key) list \<Rightarrow> frost_id \<Rightarrow> frost_id \<Rightarrow> stage_state \<Rightarrow> bool" where
  "state_ok R C M me coord (InRoundOne r) \<longleftrightarrow> in_ok M me (r1_in r) \<and> out_ok M me (r1_out r) \<and>
     map_of (hs_fed_members (r1_auth r)) \<subseteq>\<^sub>m map_of M \<and> hs_my_frost_id (r1_auth r) = me \<and>
     session_form C (hs_transcript (r1_auth r))"
| "state_ok R C M me coord (InRoundTwo r) \<longleftrightarrow> in_ok M me (r2_in1 r) \<and> in_ok M me (r2_in r) \<and> out_ok M me (r2_out r) \<and>
     map_of (ch_fed_members (r2_auth r)) \<subseteq>\<^sub>m map_of M \<and> dom (map_of (symmetric_keys (r2_auth r))) \<subseteq> ids M - {me} \<and>
     session_form C (ch_transcript (r2_auth r)) \<and> (r2_pending r \<longrightarrow> me \<noteq> coord)"
| "state_ok R C M me coord (InRoundThree r) \<longleftrightarrow> in_ok M me (r3_in1 r) \<and> in_ok M me (r3_in2 r) \<and> in_ok M me (r3_in r) \<and>
     out_ok M me (r3_out r) \<and> map_of (kv_fed_members (r3_auth r)) \<subseteq>\<^sub>m map_of M \<and>
     (r3_pending r \<longrightarrow> me \<noteq> coord) \<and>
     (\<exists>digest. challenge (r3_auth r) = Some digest \<and> key_digest C (r3_public r) digest \<and>
        (\<forall>i sig. map_of (r3_in r) i = Some sig \<longrightarrow> R i sig \<and> (\<exists>pk. map_of M i = Some pk \<and> verify_ecdsa C pk digest sig)))"
| "state_ok R C M me coord (IsFinalized secret_package public_key_package) \<longleftrightarrow>
     (\<exists>digest. key_digest C public_key_package digest \<and>
        (\<forall>i pk. map_of M i = Some pk \<longrightarrow> i \<noteq> me \<longrightarrow> (\<exists>sig. R i sig \<and> verify_ecdsa C pk digest sig)))"
| "state_ok R C M me coord _ \<longleftrightarrow> True"

definition dkg_ok :: "(frost_id \<Rightarrow> signature \<Rightarrow> bool) \<Rightarrow> crypto \<Rightarrow> dkg \<Rightarrow> bool" where
  "dkg_ok R C s \<longleftrightarrow> bt_ok (dk_members s) \<and> dk_my_frost_id s \<in> ids (dk_members s) \<and> dk_coordinator s \<in> ids (dk_members s) \<and>
     state_ok R C (dk_members s) (dk_my_frost_id s) (dk_coordinator s) (dk_state s)"

text \<open>What no operation changes, and states that differ from \<open>s\<close> in other fields than its stage.\<close>

definition same_dkg :: "dkg \<Rightarrow> dkg \<Rightarrow> bool" where
  "same_dkg s s' \<longleftrightarrow> dk_members s' = dk_members s \<and> dk_my_frost_id s' = dk_my_frost_id s \<and>
     dk_coordinator s' = dk_coordinator s"

lemma in_ok_insert [intro]: "in_ok M me m \<Longrightarrow> i \<in> ids M \<Longrightarrow> i \<noteq> me \<Longrightarrow> in_ok M me (bt_insert i v m)"
  by (auto simp: in_ok_def alist_simps)

lemma in_ok_Nil [simp]: "in_ok M me []"
  by (simp add: in_ok_def)

lemma out_ok_insert [intro]:
  "out_ok M me m \<Longrightarrow> i \<in> ids M \<Longrightarrow> to \<in> ids M \<Longrightarrow> to \<noteq> me \<Longrightarrow> i \<noteq> to \<Longrightarrow> out_ok M me (bt_insert (i, to) v m)"
  by (auto simp: out_ok_def alist_simps)

lemma in_ok_single [simp]: "in_ok M me [(i, v)] \<longleftrightarrow> i \<in> ids M \<and> i \<noteq> me"
  by (auto simp: in_ok_def)

lemma out_ok_single [simp]: "out_ok M me [((i, to), v)] \<longleftrightarrow> i \<in> ids M \<and> to \<in> ids M \<and> to \<noteq> me \<and> i \<noteq> to"
  by (auto simp: out_ok_def)

lemma out_ok_delete [intro]: "out_ok M me m \<Longrightarrow> out_ok M me (AList.delete k m)"
  by (auto simp: out_ok_def alist_simps)

lemma out_ok_Nil [simp]: "out_ok M me []"
  by (simp add: out_ok_def)

lemma out_ok_update: "out_ok M me m \<Longrightarrow> map_of m k \<noteq> None \<Longrightarrow> out_ok M me (bt_insert k v m)"
  by (auto simp: out_ok_def alist_simps)

lemma out_ok_fold:
  assumes "out_ok M me out" and "\<And>i to o'. (i, to) \<in> set ps \<Longrightarrow> out_ok M me o' \<Longrightarrow> out_ok M me (f (i, to) o')"
  shows "out_ok M me (fold f ps out)"
  using assms
proof (induction ps arbitrary: out)
  case (Cons p ps)
  then show ?case by (cases p) auto
qed simp

lemma coordinator_table_ok: "out_ok M me (coordinator_table me (map fst M) e)"
  unfolding coordinator_table_def
  by (rule out_ok_fold) (auto intro!: out_ok_insert dest: weak_map_of_SomeI)

lemma forwarded_entries_ok: "out_ok M me out \<Longrightarrow> out_ok M me (forwarded_entries me (map fst M) out)"
  unfolding forwarded_entries_def
  by (rule out_ok_fold) (auto intro!: out_ok_insert dest: weak_map_of_SomeI)

lemma session_form_append: "session_form C t \<Longrightarrow> session_form C (tr_append C t l m)"
proof -
  assume "session_form C t"
  then obtain nonce ms where "t = fold (\<lambda>(l, m) t. tr_append C t l m) ms (session_transcript C SESSION_CONTEXT nonce)"
    by (auto simp: session_form_def)
  then have "tr_append C t l m = fold (\<lambda>(l, m) t. tr_append C t l m) (ms @ [(l, m)]) (session_transcript C SESSION_CONTEXT nonce)"
    by simp
  then show ?thesis unfolding session_form_def by blast
qed

lemma session_form_fold: "session_form C t \<Longrightarrow> session_form C (fold (\<lambda>c t. tr_append C t l (g c)) cs t)"
  by (induction cs arbitrary: t) (auto intro: session_form_append)

lemma session_form_new: "session_form C (session_transcript C SESSION_CONTEXT nonce)"
  unfolding session_form_def by (rule exI, rule exI [of _ "[]"]) simp

section \<open>The authentication layers\<close>

definition hs_ok :: "crypto \<Rightarrow> (frost_id \<times> public_key) list \<Rightarrow> frost_id \<Rightarrow> handshake \<Rightarrow> bool" where
  "hs_ok C M me h \<longleftrightarrow> map_of (hs_fed_members h) \<subseteq>\<^sub>m map_of M \<and> hs_my_frost_id h = me \<and> session_form C (hs_transcript h)"

definition ch_ok :: "crypto \<Rightarrow> (frost_id \<times> public_key) list \<Rightarrow> frost_id \<Rightarrow> channel \<Rightarrow> bool" where
  "ch_ok C M me c \<longleftrightarrow> map_of (ch_fed_members c) \<subseteq>\<^sub>m map_of M \<and> dom (map_of (symmetric_keys c)) \<subseteq> ids M - {me} \<and>
     session_form C (ch_transcript c)"

definition kv_ok :: "crypto \<Rightarrow> (frost_id \<times> public_key) list \<Rightarrow> bytes \<Rightarrow> bytes \<Rightarrow> key_verification \<Rightarrow> bool" where
  "kv_ok C M public_key_package digest k \<longleftrightarrow> map_of (kv_fed_members k) \<subseteq>\<^sub>m map_of M \<and> challenge k = Some digest \<and>
     key_digest C public_key_package digest"

lemma commit_round1_ok: "hs_ok C M me h \<Longrightarrow> wep (commit_round1 C p) (\<lambda>_. hs_ok C M me) (hs_ok C M me) h"
  by (auto simp: commit_round1_def wep_simps hs_ok_def split: result.split)

lemma validate_round1_ok: "hs_ok C M me h \<Longrightarrow> wep (validate_round1 C i e sig p) (\<lambda>_. hs_ok C M me) (hs_ok C M me) h"
  by (auto simp: validate_round1_def wep_simps hs_ok_def split: result.split)

lemma channel_keys_dom:
  assumes "channel_keys C h t fs keys = Ok keys'"
  shows "dom (map_of keys') \<subseteq> dom (map_of keys) \<union> (fst ` set fs - {hs_my_frost_id h})"
  using assms
proof (induction C h t fs keys arbitrary: keys' rule: channel_keys.induct)
  case (2 C h t fed_id fed_static rest keys)
  show ?case
  proof (cases "fed_id = hs_my_frost_id h")
    case True
    with 2 show ?thesis by fastforce
  next
    case False
    with 2 obtain e where "map_of (eph_keys h) fed_id = Some e" by (auto simp: result_simps)
    with 2 False show ?thesis by (fastforce simp: alist_simps)
  qed
qed simp

lemma map_le_fst: "map_of f \<subseteq>\<^sub>m map_of M \<Longrightarrow> fst ` set f \<subseteq> ids M"
  by (metis dom_map_of_conv_image_fst map_le_implies_dom_le)

lemma finalize_handshake_ok:
  assumes "hs_ok C M me h"
  shows "wep (finalize_handshake C) (\<lambda>ch h'. hs_ok C M me h' \<and> ch_ok C M me ch) (hs_ok C M me) h"
proof -
  let ?t = "fold (\<lambda>c t. tr_append C t ''round1_commit'' (snd c)) (round1_commits h) (hs_transcript h)"
  let ?h = "h\<lparr>round1_commits := [], hs_transcript := ?t\<rparr>"
  have t: "session_form C ?t" using assms by (intro session_form_fold) (simp add: hs_ok_def)
  have "dom (map_of keys) \<subseteq> ids M - {me}" if "channel_keys C ?h ?t (hs_fed_members h) [] = Ok keys" for keys
  proof -
    have "dom (map_of keys) \<subseteq> fst ` set (hs_fed_members h) - {hs_my_frost_id h}"
      using channel_keys_dom [OF that] by simp
    moreover have "fst ` set (hs_fed_members h) \<subseteq> ids M" "hs_my_frost_id h = me"
      using assms map_le_fst by (simp_all add: hs_ok_def)
    ultimately show ?thesis by blast
  qed
  then show ?thesis
    using assms t
    by (auto simp: finalize_handshake_def wep_simps hs_ok_def ch_ok_def split: result.split)
qed

lemma commit_round2_ok:
  "ch_ok C M me c \<Longrightarrow> wep (commit_round2 C t p) (\<lambda>_ c'. ch_ok C M me c' \<and> t \<in> ids M - {me}) (ch_ok C M me) c"
  by (auto simp: commit_round2_def wep_simps ch_ok_def alist_simps result_simps split: result.split)

lemma validate_round2_ok: "ch_ok C M me c \<Longrightarrow> wep (validate_round2 C i n p) (\<lambda>_. ch_ok C M me) (ch_ok C M me) c"
  by (auto simp: validate_round2_def wep_simps ch_ok_def split: result.split)

lemma finalize_channel_ok:
  "ch_ok C M me c \<Longrightarrow> wep (finalize_channel C) (\<lambda>k c'. ch_ok C M me c' \<and> map_of (kv_fed_members k) \<subseteq>\<^sub>m map_of M \<and>
     session_form C (kv_transcript k)) (ch_ok C M me) c"
  by (auto simp: finalize_channel_def wep_simps ch_ok_def intro: session_form_append)

lemma commit_round3_ok:
  assumes "map_of (kv_fed_members k) \<subseteq>\<^sub>m map_of M" and "session_form C (kv_transcript k)"
  shows "wep (commit_round3 C p) (\<lambda>_ k'. \<exists>digest. kv_ok C M p digest k') (\<lambda>_. True) k"
  using assms by (auto simp: commit_round3_def wep_simps kv_ok_def key_digest_def result_simps split: result.split prod.split)

lemma map_leD: "m \<subseteq>\<^sub>m m' \<Longrightarrow> m k = Some v \<Longrightarrow> m' k = Some v"
  by (metis domI map_le_def)

lemma validate_round3_ok:
  assumes "kv_ok C M p digest k"
  shows "wep (validate_round3 C i sig) (\<lambda>_ k'. kv_ok C M p digest k' \<and>
    (\<exists>pk. map_of M i = Some pk \<and> verify_ecdsa C pk digest sig)) (kv_ok C M p digest) k"
  using assms by (auto simp: validate_round3_def wep_simps kv_ok_def result_simps map_leD split: result.split)

lemma finalize_verification_ok:
  "kv_ok C M p digest k \<Longrightarrow> wep (finalize_verification C) (\<lambda>_. kv_ok C M p digest) (kv_ok C M p digest) k"
  by (auto simp: finalize_verification_def wep_simps kv_ok_def split: prod.split)

section \<open>The operations\<close>

text \<open>A well-formed state of the same participant.\<close>

definition dkg_inv :: "(frost_id \<Rightarrow> signature \<Rightarrow> bool) \<Rightarrow> crypto \<Rightarrow> dkg \<Rightarrow> dkg \<Rightarrow> bool" where
  "dkg_inv R C s0 s \<longleftrightarrow> dkg_ok R C s \<and> same_dkg s0 s"

abbreviation keeps_dkg :: "(frost_id \<Rightarrow> signature \<Rightarrow> bool) \<Rightarrow> crypto \<Rightarrow> dkg \<Rightarrow> (dkg, 'e, 'a) eff \<Rightarrow> dkg \<Rightarrow> bool" where
  "keeps_dkg R C s0 m s \<equiv> wep m (\<lambda>_. dkg_inv R C s0) (dkg_inv R C s0) s"

lemma dkg_ok_fields [simp]:
  "dkg_inv R C s0 (s\<lparr>dk_queue := q\<rparr>) = dkg_inv R C s0 s"
  "dkg_inv R C s0 (s\<lparr>session_nonce := n\<rparr>) = dkg_inv R C s0 s"
  "dkg_inv R C s0 (s\<lparr>session_activated := a\<rparr>) = dkg_inv R C s0 s"
  by (simp_all add: dkg_inv_def dkg_ok_def same_dkg_def)

definition stage_ok :: "(frost_id \<Rightarrow> signature \<Rightarrow> bool) \<Rightarrow> crypto \<Rightarrow> dkg \<Rightarrow> stage_state \<Rightarrow> bool" where
  "stage_ok R C s st = state_ok R C (dk_members s) (dk_my_frost_id s) (dk_coordinator s) st"

lemma stage_ok_inv: "dkg_inv R C s0 s \<Longrightarrow> stage_ok R C s st = stage_ok R C s0 st"
  by (simp add: stage_ok_def dkg_inv_def same_dkg_def)

lemma dkg_inv_stage: "dkg_inv R C s0 s \<Longrightarrow> stage_ok R C s0 (dk_state s)"
  by (auto simp: stage_ok_def dkg_inv_def same_dkg_def dkg_ok_def)

lemma dkg_inv_set: "dkg_inv R C s0 s \<Longrightarrow> dkg_inv R C s0 (s\<lparr>dk_state := st\<rparr>) = stage_ok R C s0 st"
  by (auto simp: dkg_inv_def dkg_ok_def same_dkg_def stage_ok_def)

lemma dkg_keeps_bind:
  "keeps_dkg R C s0 m s \<Longrightarrow> (\<And>x s'. dkg_inv R C s0 s' \<Longrightarrow> keeps_dkg R C s0 (f x) s') \<Longrightarrow> keeps_dkg R C s0 (bind_eff m f) s"
  unfolding wep_bind by (rule wep_mono)

lemma dkg_keeps_push: "dkg_inv R C s0 s \<Longrightarrow> keeps_dkg R C s0 (push to m) s"
  by (simp add: push_def wep_simps)

lemma dkg_keeps_acks:
  assumes "dkg_inv R C s0 s"
  shows "keeps_dkg R C s0 (send_round1_ack i to) s" "keeps_dkg R C s0 (send_round2_ack i to t) s" "keeps_dkg R C s0 (send_round3_ack i to) s"
  using assms by (simp_all add: send_round1_ack_def send_round2_ack_def send_round3_ack_def dkg_keeps_push)

lemma dkg_keeps_set_state: "dkg_inv R C s0 s \<Longrightarrow> stage_ok R C s0 st \<Longrightarrow> keeps_dkg R C s0 (set_state st) s"
  by (simp add: set_state_def wep_simps dkg_inv_set)

lemma dkg_keeps_push_each:
  assumes "dkg_inv R C s0 s" and "\<And>x s. x \<in> set xs \<Longrightarrow> dkg_inv R C s0 s \<Longrightarrow> keeps_dkg R C s0 (f x) s"
  shows "keeps_dkg R C s0 (for_each f xs) s"
  using assms by (rule wep_for_each)

lemma dkg_keeps_with_auth1:
  assumes s: "dkg_inv R C s0 s" and m: "wep m Q A (r1_auth r)"
    and A: "\<And>a. A a \<Longrightarrow> stage_ok R C s0 (InRoundOne (r\<lparr>r1_auth := a\<rparr>))"
    and Q: "\<And>x a s. Q x a \<Longrightarrow> A a \<and> (dkg_inv R C s0 s \<longrightarrow> keeps_dkg R C s0 (k x (r\<lparr>r1_auth := a\<rparr>)) s)"
  shows "keeps_dkg R C s0 (with_auth1 r m k) s"
proof -
  obtain res a where run: "m (r1_auth r) = (res, a)" by fastforce
  have "A a" using m Q by (auto simp: wep_def run split: result.splits)
  then have s': "dkg_inv R C s0 (s\<lparr>dk_state := InRoundOne (r\<lparr>r1_auth := a\<rparr>)\<rparr>)" using A s by (simp add: dkg_inv_set)
  show ?thesis
  proof (cases res)
    case (Ok x)
    then have "Q x a" using m by (simp add: wep_def run)
    then show ?thesis using Q s' by (simp add: with_auth1_def run Ok set_state_def wep_simps)
  qed (use s' in \<open>simp_all add: with_auth1_def run set_state_def wep_simps\<close>)
qed

lemma dkg_keeps_with_auth2:
  assumes s: "dkg_inv R C s0 s" and m: "wep m Q A (r2_auth r)"
    and A: "\<And>a. A a \<Longrightarrow> stage_ok R C s0 (InRoundTwo (r\<lparr>r2_auth := a\<rparr>))"
    and Q: "\<And>x a s. Q x a \<Longrightarrow> A a \<and> (dkg_inv R C s0 s \<longrightarrow> keeps_dkg R C s0 (k x (r\<lparr>r2_auth := a\<rparr>)) s)"
  shows "keeps_dkg R C s0 (with_auth2 r m k) s"
proof -
  obtain res a where run: "m (r2_auth r) = (res, a)" by fastforce
  have "A a" using m Q by (auto simp: wep_def run split: result.splits)
  then have s': "dkg_inv R C s0 (s\<lparr>dk_state := InRoundTwo (r\<lparr>r2_auth := a\<rparr>)\<rparr>)" using A s by (simp add: dkg_inv_set)
  show ?thesis
  proof (cases res)
    case (Ok x)
    then have "Q x a" using m by (simp add: wep_def run)
    then show ?thesis using Q s' by (simp add: with_auth2_def run Ok set_state_def wep_simps)
  qed (use s' in \<open>simp_all add: with_auth2_def run set_state_def wep_simps\<close>)
qed

lemma dkg_keeps_with_auth3:
  assumes s: "dkg_inv R C s0 s" and m: "wep m Q A (r3_auth r)"
    and A: "\<And>a. A a \<Longrightarrow> stage_ok R C s0 (InRoundThree (r\<lparr>r3_auth := a\<rparr>))"
    and Q: "\<And>x a s. Q x a \<Longrightarrow> A a \<and> (dkg_inv R C s0 s \<longrightarrow> keeps_dkg R C s0 (k x (r\<lparr>r3_auth := a\<rparr>)) s)"
  shows "keeps_dkg R C s0 (with_auth3 r m k) s"
proof -
  obtain res a where run: "m (r3_auth r) = (res, a)" by fastforce
  have "A a" using m Q by (auto simp: wep_def run split: result.splits)
  then have s': "dkg_inv R C s0 (s\<lparr>dk_state := InRoundThree (r\<lparr>r3_auth := a\<rparr>)\<rparr>)" using A s by (simp add: dkg_inv_set)
  show ?thesis
  proof (cases res)
    case (Ok x)
    then have "Q x a" using m by (simp add: wep_def run)
    then show ?thesis using Q s' by (simp add: with_auth3_def run Ok set_state_def wep_simps)
  qed (use s' in \<open>simp_all add: with_auth3_def run set_state_def wep_simps\<close>)
qed

lemma stage_ok_simps:
  "stage_ok R C s (InRoundOne r) \<longleftrightarrow> in_ok (dk_members s) (dk_my_frost_id s) (r1_in r) \<and>
     out_ok (dk_members s) (dk_my_frost_id s) (r1_out r) \<and> hs_ok C (dk_members s) (dk_my_frost_id s) (r1_auth r)"
  "stage_ok R C s AwatingInit" "stage_ok R C s IsAborted"
  by (auto simp: stage_ok_def hs_ok_def)

lemma stage_ok_two:
  "stage_ok R C s (InRoundTwo r) \<longleftrightarrow> in_ok (dk_members s) (dk_my_frost_id s) (r2_in1 r) \<and>
     in_ok (dk_members s) (dk_my_frost_id s) (r2_in r) \<and> out_ok (dk_members s) (dk_my_frost_id s) (r2_out r) \<and>
     ch_ok C (dk_members s) (dk_my_frost_id s) (r2_auth r) \<and> (r2_pending r \<longrightarrow> dk_my_frost_id s \<noteq> dk_coordinator s)"
  by (auto simp: stage_ok_def ch_ok_def)

lemma stage_ok_three:
  "stage_ok R C s (InRoundThree r) \<longleftrightarrow> in_ok (dk_members s) (dk_my_frost_id s) (r3_in1 r) \<and>
     in_ok (dk_members s) (dk_my_frost_id s) (r3_in2 r) \<and> in_ok (dk_members s) (dk_my_frost_id s) (r3_in r) \<and>
     out_ok (dk_members s) (dk_my_frost_id s) (r3_out r) \<and> (r3_pending r \<longrightarrow> dk_my_frost_id s \<noteq> dk_coordinator s) \<and>
     (\<exists>digest. kv_ok C (dk_members s) (r3_public r) digest (r3_auth r) \<and>
        (\<forall>i sig. map_of (r3_in r) i = Some sig \<longrightarrow> R i sig \<and> (\<exists>pk. map_of (dk_members s) i = Some pk \<and> verify_ecdsa C pk digest sig)))"
  by (auto simp: stage_ok_def kv_ok_def)

lemma dkg_inv_fixed:
  assumes "dkg_inv R C s0 s"
  shows "dk_members s = dk_members s0" "dk_my_frost_id s = dk_my_frost_id s0" "dk_coordinator s = dk_coordinator s0"
    "is_coordinator s = is_coordinator s0" "bt_ok (dk_members s0)" "dk_my_frost_id s0 \<in> ids (dk_members s0)"
    "dk_coordinator s0 \<in> ids (dk_members s0)"
  using assms by (auto simp: dkg_inv_def dkg_ok_def same_dkg_def is_coordinator_def)

lemma dkg_keeps_return: "dkg_inv R C s0 s \<Longrightarrow> keeps_dkg R C s0 (return_eff x) s"
  by (simp add: wep_simps)

lemma new_handshake_ok: "new_handshake C eph SESSION_CONTEXT nonce me sec M = Ok h \<Longrightarrow> hs_ok C M me h"
  by (auto simp: new_handshake_def hs_ok_def session_form_new Let_def split: if_splits)

lemma run_auth_ok:
  assumes "wep m (\<lambda>x a. Q x a) P a"
  shows "run_auth m a = Ok (x, a') \<Longrightarrow> Q x a'"
  using assms by (auto simp: run_auth_def wep_def split: prod.splits result.splits)

lemma dkg_keeps_gets: "keeps_dkg R C s0 (k (g s)) s \<Longrightarrow> keeps_dkg R C s0 (bind_eff (gets g) k) s"
  by (simp add: wep_simps)

lemma dkg_keeps_lift:
  "dkg_inv R C s0 s \<Longrightarrow> (\<And>x. r = Ok x \<Longrightarrow> keeps_dkg R C s0 (k x) s) \<Longrightarrow> keeps_dkg R C s0 (bind_eff (lift_result r) k) s"
  by (simp add: wep_simps split: result.split)

lemma dkg_keeps_modify:
  "dkg_inv R C s0 (f s) \<Longrightarrow> keeps_dkg R C s0 (k ()) (f s) \<Longrightarrow> keeps_dkg R C s0 (bind_eff (modify f) k) s"
  by (simp add: wep_simps)

lemma map_err_Ok [simp]: "map_err f r = Ok x \<longleftrightarrow> r = Ok x"
  by (cases r) (simp_all add: result_simps)

lemma dkg_keeps_init_new_session:
  assumes s: "dkg_inv R C s0 s"
  shows "keeps_dkg R C s0 (init_new_session C rnd nonce) s"
  unfolding init_new_session_def Let_def case_prod_unfold
proof (rule dkg_keeps_modify, goal_cases)
  case 2
  let ?s = "s\<lparr>session_activated := None, session_nonce := Some nonce, dk_queue := []\<rparr>"
  have inv: "dkg_inv R C s0 ?s" using s by simp
  show ?case
  proof (rule dkg_keeps_gets, rule dkg_keeps_lift, rule inv, rule dkg_keeps_lift, rule inv, rule dkg_keeps_lift, rule inv, goal_cases)
    case (1 part1 auth commit)
    have "hs_ok C (dk_members s0) (dk_my_frost_id s0) auth"
      using 1(2) by (auto simp: dkg_inv_fixed [OF s] intro: new_handshake_ok)
    then have "hs_ok C (dk_members s0) (dk_my_frost_id s0) (snd commit)"
      using run_auth_ok [OF commit_round1_ok, of C _ _ _ _ "fst commit" "snd commit"] 1(3) by simp
    then show ?case
      by (intro dkg_keeps_bind dkg_keeps_push_each dkg_keeps_push inv dkg_keeps_set_state)
        (simp_all add: stage_ok_simps coordinator_table_ok dkg_inv_fixed [OF s])
  qed
qed (use s in simp)

lemma dkg_keeps_resend:
  assumes "dkg_inv R C s0 s"
  shows "keeps_dkg R C s0 (resend now) s"
  unfolding resend_def
  by (rule dkg_keeps_gets)
    (auto split: stage_state.split option.split intro!: dkg_keeps_push_each dkg_keeps_push dkg_keeps_return assms)

lemma dkg_keeps_on_timeout:
  assumes "dkg_inv R C s0 s"
  shows "keeps_dkg R C s0 (on_timeout C rnd now) s"
  unfolding on_timeout_def
proof (rule dkg_keeps_gets, rule dkg_keeps_bind)
  show "keeps_dkg R C s0 (case session_deadline s of
      Some deadline \<Rightarrow> if now \<ge> deadline
        then bind_eff (lift_result (expect (session_nonce s))) (\<lambda>nonce. expect_eff (init_new_session C rnd (nonce + 1)))
        else return_eff ()
    | None \<Rightarrow> return_eff ()) s"
    using assms by (auto split: option.split intro!: dkg_keeps_lift dkg_keeps_return dkg_keeps_init_new_session simp: wep_expect)
qed (rule dkg_keeps_resend)

lemma send_from_inv: "dkg_inv R C s0 s \<Longrightarrow> dkg_inv R C s0 (snd (send_from now s q))"
proof (induction now s q rule: send_from.induct)
  case (2 now s payload queue)
  have st: "stage_ok R C s0 (dk_state s)" using 2 by (simp add: dkg_inv_stage)
  show ?case
  proof (cases "msg payload")
    case (Round1 i c n e sg p)
    with 2 st show ?thesis
      by (auto split: stage_state.split option.split simp: dkg_inv_set stage_ok_simps out_ok_update)
  next
    case (Round2 i t n c)
    with 2 st show ?thesis
      by (auto split: stage_state.split option.split simp: dkg_inv_set stage_ok_two out_ok_update)
  next
    case (Round3 i sg)
    with 2 st show ?thesis
      by (auto split: stage_state.split option.split simp: dkg_inv_set stage_ok_three out_ok_update)
  qed (use 2 in auto)
qed simp

subsection \<open>The handlers\<close>

lemma dkg_keeps_ack_handlers:
  assumes "dkg_inv R C s0 s"
  shows "keeps_dkg R C s0 (on_dkg_msg_ack_round1 i from_id) s" "keeps_dkg R C s0 (on_dkg_msg_ack_round2 i t) s"
    "keeps_dkg R C s0 (on_dkg_msg_ack_round3 i from_id) s"
  using dkg_inv_stage [OF assms] assms
  by (auto simp: on_dkg_msg_ack_round1_def on_dkg_msg_ack_round2_def on_dkg_msg_ack_round3_def
      stage_ok_simps stage_ok_two stage_ok_three out_ok_delete
      split: stage_state.split intro!: dkg_keeps_gets dkg_keeps_return dkg_keeps_set_state)

lemma dkg_keeps_accept_session:
  assumes s: "dkg_inv R C s0 s" and coord: "\<not> is_coordinator s"
    and i: "i \<in> ids (dk_members s0)" "i \<noteq> dk_my_frost_id s0"
    and auth: "hs_ok C (dk_members s0) (dk_my_frost_id s0) auth"
  shows "keeps_dkg R C s0 (accept_session C rnd i ctx nonce p auth) s"
  unfolding accept_session_def Let_def case_prod_unfold
proof (rule dkg_keeps_modify, goal_cases)
  case 2
  let ?s = "s\<lparr>session_activated := None, session_nonce := Some nonce, dk_queue := []\<rparr>"
  have inv: "dkg_inv R C s0 ?s" using s by simp
  have ne: "dk_my_frost_id s0 \<noteq> dk_coordinator s0"
    using coord dkg_inv_fixed [OF s] by (simp add: is_coordinator_def)
  show ?case
  proof (rule dkg_keeps_gets, rule dkg_keeps_bind, rule dkg_keeps_acks, rule inv, rule dkg_keeps_lift, assumption, rule dkg_keeps_lift,
      assumption, goal_cases)
    case (1 x s' part1 commit)
    have "hs_ok C (dk_members s0) (dk_my_frost_id s0) (snd commit)"
      using run_auth_ok [OF commit_round1_ok [OF auth], of _ "fst commit" "snd commit"] 1(3) by simp
    then show ?case
      by (intro dkg_keeps_bind dkg_keeps_push 1 dkg_keeps_set_state dkg_keeps_return)
        (use i ne dkg_inv_fixed [OF s] in \<open>auto simp: stage_ok_simps domIff\<close>)
  qed
qed (use s in simp)

lemma dkg_keeps_validate_new_session_init:
  assumes s: "dkg_inv R C s0 s" and i: "i \<in> ids (dk_members s0)" "i \<noteq> dk_my_frost_id s0"
  shows "keeps_dkg R C s0 (validate_new_session_init C rnd i ctx nonce e sg p) s"
proof -
  have "keeps_dkg R C s0 (accept_session C rnd i ctx nonce p auth') s"
    if "\<not> is_coordinator s" "run_auth (validate_round1 C i e sg p) auth = Ok (u, auth')"
      "new_handshake C (snd rnd) SESSION_CONTEXT nonce (dk_my_frost_id s) (dk_my_static_sec s) (dk_members s) = Ok auth"
    for auth u auth'
  proof (rule dkg_keeps_accept_session)
    have "hs_ok C (dk_members s0) (dk_my_frost_id s0) auth"
      using that by (auto simp: dkg_inv_fixed [OF s] intro: new_handshake_ok)
    then show "hs_ok C (dk_members s0) (dk_my_frost_id s0) auth'"
      using run_auth_ok [OF validate_round1_ok] that by metis
  qed (use that s i in auto)
  then show ?thesis
    using s unfolding validate_new_session_init_def
    by (auto split: option.split intro!: dkg_keeps_gets dkg_keeps_return dkg_keeps_lift)
qed

lemma dkg_keeps_forward_round1:
  assumes "dkg_inv R C s0 s" and "stage_ok R C s0 (InRoundOne r)"
    and "\<And>r s. dkg_inv R C s0 s \<Longrightarrow> stage_ok R C s0 (InRoundOne r) \<Longrightarrow> keeps_dkg R C s0 (k r) s"
  shows "keeps_dkg R C s0 (bind_eff (forward_round1 i e sg p r tos) k) s"
  using assms(1,2)
proof (induction tos arbitrary: r s)
  case (Cons to rest)
  let ?r = "r\<lparr>r1_out := bt_insert (i, to)
    (Some \<lparr>o1_package = p, o1_ephemeral_pub = e, o1_signature = sg, o1_timer = None, o1_attempts = 0\<rparr>) (r1_out r)\<rparr>"
  have "keeps_dkg R C s0 (bind_eff (forward_round1 i e sg p ?r rest) k) s'" if "map_of (r1_out r) (i, to) \<noteq> None" "dkg_inv R C s0 s'" for s'
    using Cons.prems that by (intro Cons.IH) (auto simp: stage_ok_simps out_ok_update)
  moreover have "keeps_dkg R C s0 (bind_eff (forward_round1 i e sg p r rest) k) s" using Cons by blast
  ultimately show ?case
    using Cons.prems(1) by (auto simp: push_def wep_simps)
qed (simp add: wep_simps assms(3))

lemma dkg_keeps_store_tail:
  assumes "dkg_inv R C s0 s" and "stage_ok R C s0 (InRoundOne r)"
  shows "keeps_dkg R C s0 (bind_eff (set_state (InRoundOne r)) (\<lambda>_.
    bind_eff (send_round1_ack i from_id) (\<lambda>_. bind_eff (gets (\<lambda>s. s)) (\<lambda>s.
    if is_coordinator s then bind_eff (forward_round1 i e sg p r (tos s)) (\<lambda>r. set_state (InRoundOne r))
    else return_eff ())))) s"
  using assms
  by (intro dkg_keeps_bind dkg_keeps_set_state dkg_keeps_acks dkg_keeps_gets) (auto intro: dkg_keeps_forward_round1 dkg_keeps_set_state dkg_keeps_return)

lemma dkg_keeps_store_round1:
  assumes s: "dkg_inv R C s0 s" and i: "i \<in> ids (dk_members s0)" "i \<noteq> dk_my_frost_id s0"
    and r: "stage_ok R C s0 (InRoundOne r)"
  shows "keeps_dkg R C s0 (store_round1 C i e sg p from_id r) s"
proof -
  have "in_ok (dk_members s0) (dk_my_frost_id s0) (bt_insert i p (r1_in r))"
    using r i by (auto simp: stage_ok_simps)
  then show ?thesis
    unfolding store_round1_def Let_def using r s
    by (auto intro!: dkg_keeps_acks dkg_keeps_with_auth1 [OF s validate_round1_ok] dkg_keeps_store_tail simp: stage_ok_simps)
qed

lemma dkg_keeps_if:
  "(c \<Longrightarrow> keeps_dkg R C s0 a s) \<Longrightarrow> (\<not> c \<Longrightarrow> keeps_dkg R C s0 b s) \<Longrightarrow> keeps_dkg R C s0 (if c then a else b) s"
  by simp

lemma dkg_keeps_on_dkg_msg_round1:
  assumes s: "dkg_inv R C s0 s"
  shows "keeps_dkg R C s0 (on_dkg_msg_round1 C rnd i ctx nonce e sg p from_id) s"
  unfolding on_dkg_msg_round1_def
proof (rule dkg_keeps_gets, intro dkg_keeps_if dkg_keeps_bind dkg_keeps_return s, goal_cases)
  case 1
  then show ?case using s dkg_inv_fixed [OF s] by (intro dkg_keeps_validate_new_session_init) (auto simp: domIff)
next
  case (2 accepted s')
  then show ?case
    using dkg_inv_stage [OF s] dkg_inv_fixed [OF s]
    by (auto split: stage_state.split intro!: dkg_keeps_return dkg_keeps_acks dkg_keeps_store_round1)
next
  case (3 accepted s')
  then show ?case
    using dkg_inv_stage [OF s] dkg_inv_fixed [OF s]
    by (auto split: stage_state.split intro!: dkg_keeps_return dkg_keeps_acks dkg_keeps_store_round1)
qed

lemma dkg_keeps_round2_tail:
  assumes "dkg_inv R C s0 s" and "stage_ok R C s0 (InRoundTwo r)"
  shows "keeps_dkg R C s0 (bind_eff (send_round2_ack i from_id t) (\<lambda>_.
    bind_eff (if r2_pending r
       then for_each (\<lambda>((i, t), entry). case entry of
           Some e \<Rightarrow> push (coord) (Round2 i t (o2_ciphernonce e) (o2_ciphertext e))
         | None \<Rightarrow> return_eff ()) (r2_out r)
       else return_eff ()) (\<lambda>_.
    set_state (InRoundTwo (r\<lparr>r2_pending := False\<rparr>))))) s"
  using assms
  by (intro dkg_keeps_bind dkg_keeps_acks dkg_keeps_if dkg_keeps_return dkg_keeps_push_each dkg_keeps_set_state)
    (auto split: option.split intro!: dkg_keeps_push dkg_keeps_return simp: stage_ok_two)

lemma dkg_keeps_on_dkg_msg_round2:
  assumes s: "dkg_inv R C s0 s"
  shows "keeps_dkg R C s0 (on_dkg_msg_round2 C i t n c from_id) s"
proof (cases "\<exists>r. dk_state s = InRoundTwo r")
  case True
  then obtain r where r: "dk_state s = InRoundTwo r" by blast
  have ok: "stage_ok R C s0 (InRoundTwo r)" using dkg_inv_stage [OF s] r by simp
  have out: "keeps_dkg R C s0 (bind_eff (set_state (InRoundTwo (r\<lparr>r2_out := bt_insert (i, t) e (r2_out r)\<rparr>))) (\<lambda>_.
      bind_eff (send_round2_ack i from_id t) (\<lambda>_. push t m))) s" if "map_of (r2_out r) (i, t) \<noteq> None" for e m
    using that ok by (intro dkg_keeps_bind dkg_keeps_set_state dkg_keeps_acks dkg_keeps_push s) (auto simp: stage_ok_two out_ok_update)
  show ?thesis
    unfolding on_dkg_msg_round2_def Let_def
  proof (rule dkg_keeps_gets, simp only: r stage_state.case, intro dkg_keeps_if dkg_keeps_return dkg_keeps_acks s out
      dkg_keeps_with_auth2 [OF s validate_round2_ok [of C "dk_members s0" "dk_my_frost_id s0"]], goal_cases)
    case (3 x a s')
    then have "in_ok (dk_members s0) (dk_my_frost_id s0) (bt_insert i x (r2_in r))"
      using ok dkg_inv_fixed [OF s] by (auto simp: stage_ok_two)
    with 3 ok show ?case by (intro conjI impI dkg_keeps_round2_tail) (auto simp: stage_ok_two)
  qed (use ok in \<open>auto simp: stage_ok_two\<close>)
qed (use s in \<open>auto simp: on_dkg_msg_round2_def split: stage_state.split intro!: dkg_keeps_gets dkg_keeps_if dkg_keeps_return dkg_keeps_acks\<close>)

lemma dkg_keeps_forward_round3:
  assumes "dkg_inv R C s0 s" and "stage_ok R C s0 (InRoundThree r)"
    and "\<And>r s. dkg_inv R C s0 s \<Longrightarrow> stage_ok R C s0 (InRoundThree r) \<Longrightarrow> keeps_dkg R C s0 (k r) s"
  shows "keeps_dkg R C s0 (bind_eff (forward_round3 i sg r tos) k) s"
  using assms(1,2)
proof (induction tos arbitrary: r s)
  case (Cons to rest)
  let ?r = "r\<lparr>r3_out := bt_insert (i, to) (Some \<lparr>o3_signature = sg, o3_timer = None, o3_attempts = 0\<rparr>) (r3_out r)\<rparr>"
  have "keeps_dkg R C s0 (bind_eff (forward_round3 i sg ?r rest) k) s'" if "map_of (r3_out r) (i, to) \<noteq> None" "dkg_inv R C s0 s'" for s'
    using Cons.prems that by (intro Cons.IH) (auto simp: stage_ok_three out_ok_update)
  moreover have "keeps_dkg R C s0 (bind_eff (forward_round3 i sg r rest) k) s" using Cons by blast
  ultimately show ?case
    using Cons.prems(1) by (auto simp: push_def wep_simps)
qed (simp add: wep_simps assms(3))

lemma dkg_keeps_round3_tail:
  assumes "dkg_inv R C s0 s" and "stage_ok R C s0 (InRoundThree r)"
  shows "keeps_dkg R C s0 (bind_eff (send_round3_ack i from_id) (\<lambda>_.
    bind_eff (if r3_pending r
       then for_each (\<lambda>((i, to), entry). case entry of
           Some e \<Rightarrow> push to (Round3 i (o3_signature e)) | None \<Rightarrow> return_eff ()) (r3_out r)
       else return_eff ()) (\<lambda>_.
    bind_eff (if coord then forward_round3 i sg (r\<lparr>r3_pending := False\<rparr>) tos else return_eff (r\<lparr>r3_pending := False\<rparr>)) (\<lambda>r.
    set_state (InRoundThree r))))) s"
proof -
  have "stage_ok R C s0 (InRoundThree (r\<lparr>r3_pending := False\<rparr>))" using assms(2) by (simp add: stage_ok_three)
  then have fwd: "keeps_dkg R C s0 (bind_eff (if coord then forward_round3 i sg (r\<lparr>r3_pending := False\<rparr>) tos
      else return_eff (r\<lparr>r3_pending := False\<rparr>)) (\<lambda>r. set_state (InRoundThree r))) s'" if "dkg_inv R C s0 s'" for s'
    using that dkg_keeps_forward_round3 [of R C s0 s' "r\<lparr>r3_pending := False\<rparr>" "\<lambda>r. set_state (InRoundThree r)" i sg tos]
    by (cases coord) (auto intro!: dkg_keeps_set_state simp: wep_return wep_bind)
  show ?thesis
    by (rule dkg_keeps_bind [OF dkg_keeps_acks(3) [OF assms(1)]], rule dkg_keeps_bind [OF _ fwd], rule dkg_keeps_if)
      (auto intro!: dkg_keeps_return dkg_keeps_push_each dkg_keeps_push split: option.split)
qed

lemma dkg_keeps_on_dkg_msg_round3:
  assumes s: "dkg_inv R C s0 s" and R: "R i sg"
  shows "keeps_dkg R C s0 (on_dkg_msg_round3 C i sg from_id) s"
proof (cases "\<exists>r. dk_state s = InRoundThree r")
  case True
  then obtain r where r: "dk_state s = InRoundThree r" by blast
  have ok: "stage_ok R C s0 (InRoundThree r)" using dkg_inv_stage [OF s] r by simp
  then obtain digest where kv: "kv_ok C (dk_members s0) (r3_public r) digest (r3_auth r)"
    and signed: "\<forall>i sig. map_of (r3_in r) i = Some sig \<longrightarrow> R i sig \<and> (\<exists>pk. map_of (dk_members s0) i = Some pk \<and> verify_ecdsa C pk digest sig)"
    by (auto simp: stage_ok_three)
  show ?thesis
    unfolding on_dkg_msg_round3_def Let_def
  proof (rule dkg_keeps_gets, simp only: r stage_state.case, intro dkg_keeps_if dkg_keeps_return dkg_keeps_acks s
      dkg_keeps_with_auth3 [OF s validate_round3_ok [OF kv]], goal_cases)
    case (1 a)
    with ok signed show ?case by (auto simp: stage_ok_three)
  next
    case (2 x a s')
    then have "in_ok (dk_members s0) (dk_my_frost_id s0) (bt_insert i sg (r3_in r))"
      using ok dkg_inv_fixed [OF s] by (auto simp: stage_ok_three)
    moreover have "\<forall>j sig. map_of (bt_insert i sg (r3_in r)) j = Some sig \<longrightarrow>
        R j sig \<and> (\<exists>pk. map_of (dk_members s0) j = Some pk \<and> verify_ecdsa C pk digest sig)"
      using 2 signed R by (simp add: alist_simps)
    ultimately have "stage_ok R C s0 (InRoundThree (r\<lparr>r3_auth := a, r3_in := bt_insert i sg (r3_in r)\<rparr>))"
      using 2 ok by (auto simp: stage_ok_three)
    with 2 show ?case by (intro conjI impI dkg_keeps_round3_tail) auto
  qed
qed (use s in \<open>auto simp: on_dkg_msg_round3_def split: stage_state.split intro!: dkg_keeps_gets dkg_keeps_if dkg_keeps_return dkg_keeps_acks\<close>)

subsection \<open>The transitions\<close>

lemma dkg_keeps_commit_shares:
  assumes "dkg_inv R C s0 s" and "ch_ok C (dk_members s0) (dk_my_frost_id s0) auth"
    and "out_ok (dk_members s0) (dk_my_frost_id s0) out"
    and k: "\<And>auth out s. dkg_inv R C s0 s \<Longrightarrow> ch_ok C (dk_members s0) (dk_my_frost_id s0) auth \<Longrightarrow>
      out_ok (dk_members s0) (dk_my_frost_id s0) out \<Longrightarrow> keeps_dkg R C s0 (k (auth, out)) s"
  shows "keeps_dkg R C s0 (bind_eff (commit_shares C (dk_my_frost_id s0) coord shares auth out) k) s"
  using assms(1-3)
proof (induction shares arbitrary: auth out s)
  case (Cons share rest)
  obtain t p where share: "share = (t, p)" by fastforce
  have me: "dk_my_frost_id s0 \<in> ids (dk_members s0)" using dkg_inv_fixed [OF Cons.prems(1)] by simp
  have rest: "keeps_dkg R C s0 (bind_eff (commit_shares C (dk_my_frost_id s0) coord rest auth'
      (bt_insert (dk_my_frost_id s0, t) e out)) k) s'"
    if "run_auth (commit_round2 C t p) auth = Ok (x, auth')" "dkg_inv R C s0 s'" for x auth' e s'
  proof (rule Cons.IH [OF that(2)])
    have "ch_ok C (dk_members s0) (dk_my_frost_id s0) auth' \<and> t \<in> ids (dk_members s0) - {dk_my_frost_id s0}"
      using run_auth_ok [OF commit_round2_ok [OF Cons.prems(2)] that(1)] .
    then show "ch_ok C (dk_members s0) (dk_my_frost_id s0) auth'"
      "out_ok (dk_members s0) (dk_my_frost_id s0) (bt_insert (dk_my_frost_id s0, t) e out)"
      using Cons.prems(3) me by auto
  qed
  show ?case
    using Cons.prems(1) rest
    by (auto simp: share wep_bind wep_lift wep_return push_def wep_modify split: result.split)
qed (simp add: wep_simps k)

lemma dkg_keeps_transition_stage2:
  assumes s: "dkg_inv R C s0 s"
  shows "keeps_dkg R C s0 (transition_stage2_checked C) s"
proof (cases "\<exists>r. dk_state s = InRoundOne r")
  case True
  then obtain r where r: "dk_state s = InRoundOne r" by blast
  let ?M = "dk_members s0" and ?me = "dk_my_frost_id s0"
  have ok: "stage_ok R C s0 (InRoundOne r)" using dkg_inv_stage [OF s] r by simp
  then have hs: "hs_ok C ?M ?me (r1_auth (r\<lparr>r1_in := []\<rparr>))" by (simp add: stage_ok_simps)
  show ?thesis
    unfolding transition_stage2_checked_def
  proof (rule dkg_keeps_gets, simp only: r stage_state.case dkg_inv_fixed [OF s], rule dkg_keeps_if, goal_cases)
    case 2
    show ?case
    proof (cases "frost_part2 C (r1_secret r) (r1_in r)")
      case (Some sh)
      show ?thesis
        unfolding Some option.case case_prod_unfold
      proof (rule dkg_keeps_with_auth1 [OF s finalize_handshake_ok [OF hs]], goal_cases)
        case (2 auth a s')
        show ?case
        proof (intro conjI impI dkg_keeps_commit_shares dkg_keeps_set_state, goal_cases)
          case (6 ch out s'')
          then show ?case
            using ok by (auto simp: stage_ok_two stage_ok_simps forwarded_entries_ok is_coordinator_def)
        qed (use 2 in auto)
      qed (use ok in \<open>auto simp: stage_ok_simps\<close>)
    qed (use s in \<open>auto intro!: dkg_keeps_set_state simp: stage_ok_simps\<close>)
  qed (rule dkg_keeps_return [OF s])
qed (use s in \<open>auto simp: transition_stage2_checked_def split: stage_state.split intro!: dkg_keeps_gets dkg_keeps_return\<close>)

lemma dkg_keeps_transition_stage3:
  assumes s: "dkg_inv R C s0 s"
  shows "keeps_dkg R C s0 (transition_stage3_checked C) s"
proof (cases "\<exists>r. dk_state s = InRoundTwo r")
  case True
  then obtain r where r: "dk_state s = InRoundTwo r" by blast
  let ?M = "dk_members s0" and ?me = "dk_my_frost_id s0"
  have ok: "stage_ok R C s0 (InRoundTwo r)" using dkg_inv_stage [OF s] r by simp
  then have ch: "ch_ok C ?M ?me (r2_auth (r\<lparr>r2_in1 := [], r2_in := []\<rparr>))" by (simp add: stage_ok_two)
  show ?thesis
    unfolding transition_stage3_checked_def
  proof (rule dkg_keeps_gets, simp only: r stage_state.case dkg_inv_fixed [OF s], rule dkg_keeps_if, goal_cases)
    case 2
    show ?case
    proof (cases "frost_part3 C (r2_secret r) (r2_in1 r) (r2_in r)")
      case (Some packages)
      show ?thesis
        unfolding Some option.case case_prod_unfold Let_def
      proof (rule dkg_keeps_with_auth2 [OF s finalize_channel_ok [OF ch]], goal_cases)
        case (2 auth a s')
        show ?case
        proof (intro conjI impI dkg_keeps_lift)
          fix x assume s': "dkg_inv R C s0 s'" and x: "run_auth (commit_round3 C (snd packages)) auth = Ok x"
          have "\<exists>digest. kv_ok C ?M (snd packages) digest (snd x)"
            using run_auth_ok [OF commit_round3_ok, of auth ?M C "snd packages" "fst x" "snd x"] 2 x by simp
          then have "stage_ok R C s0 (InRoundThree \<lparr>r3_pending = (\<not> is_coordinator s0), r3_auth = snd x, r3_secret = fst packages,
              r3_public = snd packages, r3_in1 = r2_in1 r, r3_in2 = r2_in r, r3_in = [],
              r3_out = (if is_coordinator s0 then coordinator_table ?me (map fst ?M) e
                else bt_insert (?me, dk_coordinator s0) (Some e) [])\<rparr>)" for e
            using ok dkg_inv_fixed [OF s] by (auto simp: stage_ok_two stage_ok_three coordinator_table_ok is_coordinator_def)
          with s' show "keeps_dkg R C s0 (bind_eff
              (if is_coordinator s0 then for_each (\<lambda>to. push to (Round3 ?me (fst x))) (filter (\<lambda>to. to \<noteq> ?me) (map fst ?M))
               else return_eff ()) (\<lambda>_.
              set_state (InRoundThree \<lparr>r3_pending = (\<not> is_coordinator s0), r3_auth = snd x, r3_secret = fst packages,
                r3_public = snd packages, r3_in1 = r2_in1 r, r3_in2 = r2_in r, r3_in = [],
                r3_out = (if is_coordinator s0
                  then coordinator_table ?me (map fst ?M) \<lparr>o3_signature = fst x, o3_timer = None, o3_attempts = 0\<rparr>
                  else bt_insert (?me, dk_coordinator s0) (Some \<lparr>o3_signature = fst x, o3_timer = None, o3_attempts = 0\<rparr>) [])\<rparr>))) s'"
            by (intro dkg_keeps_bind dkg_keeps_if dkg_keeps_return dkg_keeps_push_each dkg_keeps_push dkg_keeps_set_state)
        qed (use 2 in auto)
      qed (use ok in \<open>auto simp: stage_ok_two\<close>)
    qed (use s ok in \<open>auto intro!: dkg_keeps_set_state simp: stage_ok_two\<close>)
  qed (rule dkg_keeps_return [OF s])
qed (use s in \<open>auto simp: transition_stage3_checked_def split: stage_state.split intro!: dkg_keeps_gets dkg_keeps_return\<close>)

lemma full_in_ok:
  assumes "in_ok M me m" and "bt_ok M" and "me \<in> ids M" and "length m = length M - 1"
  shows "dom (map_of m) = ids M - {me}"
proof (rule full_map)
  show "wf_map m" using assms by (simp add: in_ok_def bt_ok_wf)
  have "length M = card (ids M)" using assms(2) by (intro length_wf_map bt_ok_wf)
  then show "length m = card (ids M - {me})" using assms(3,4) by (simp add: finite_dom_map_of)
qed (use assms in \<open>auto simp: in_ok_def finite_dom_map_of\<close>)

lemma dkg_keeps_transition_final:
  assumes s: "dkg_inv R C s0 s"
  shows "keeps_dkg R C s0 (transition_final_checked C) s"
proof (cases "\<exists>r. dk_state s = InRoundThree r")
  case True
  then obtain r where r: "dk_state s = InRoundThree r" by blast
  let ?M = "dk_members s0" and ?me = "dk_my_frost_id s0"
  have ok: "stage_ok R C s0 (InRoundThree r)" using dkg_inv_stage [OF s] r by simp
  then obtain digest where kv: "kv_ok C ?M (r3_public r) digest (r3_auth r)"
    and signed: "\<forall>i sig. map_of (r3_in r) i = Some sig \<longrightarrow> R i sig \<and> (\<exists>pk. map_of ?M i = Some pk \<and> verify_ecdsa C pk digest sig)"
    by (auto simp: stage_ok_three)
  show ?thesis
    unfolding transition_final_checked_def
  proof (rule dkg_keeps_gets, simp only: r stage_state.case dkg_inv_fixed [OF s], rule dkg_keeps_if, goal_cases)
    case 2
    then have "dom (map_of (r3_in r)) = ids ?M - {?me}"
      using ok dkg_inv_fixed [OF s] by (intro full_in_ok) (auto simp: stage_ok_three)
    then have "\<exists>sig. R i sig \<and> verify_ecdsa C pk digest sig" if "map_of ?M i = Some pk" "i \<noteq> ?me" for i pk
    proof -
      have "i \<in> dom (map_of (r3_in r))" using that \<open>dom (map_of (r3_in r)) = ids ?M - {?me}\<close> by blast
      then obtain sig where "map_of (r3_in r) i = Some sig" by blast
      then show ?thesis using signed that(1) by fastforce
    qed
    moreover have "key_digest C (r3_public r) digest" using kv by (simp add: kv_ok_def)
    ultimately have fin: "stage_ok R C s0 (IsFinalized sec (r3_public r))" for sec
      unfolding stage_ok_def state_ok.simps by blast
    show ?case
    proof (rule dkg_keeps_with_auth3 [OF s finalize_verification_ok [OF kv]], goal_cases)
      case (1 a)
      then have "\<exists>digest. kv_ok C ?M (r3_public r) digest a \<and>
          (\<forall>i sig. map_of (r3_in r) i = Some sig \<longrightarrow> R i sig \<and> (\<exists>pk. map_of ?M i = Some pk \<and> verify_ecdsa C pk digest sig))"
        using signed by blast
      with ok show ?case by (simp add: stage_ok_three)
    next
      case (2 x a s')
      then show ?case using fin by (simp add: wep_simps set_state_def dkg_inv_set)
    qed
  qed (rule dkg_keeps_return [OF s])
qed (use s in \<open>auto simp: transition_final_checked_def split: stage_state.split intro!: dkg_keeps_gets dkg_keeps_return\<close>)

lemma dkg_keeps_recv:
  assumes "dkg_inv R C s0 s" and "\<And>i sg. msg payload = Round3 i sg \<Longrightarrow> R i sg"
  shows "keeps_dkg R C s0 (recv C rnd payload) s"
  unfolding recv_def using assms
  by (cases "msg payload", simp_all only: dkg_message.case)
    (intro dkg_keeps_gets dkg_keeps_if dkg_keeps_return dkg_keeps_bind dkg_keeps_ack_handlers dkg_keeps_on_dkg_msg_round1
      dkg_keeps_on_dkg_msg_round2 dkg_keeps_on_dkg_msg_round3 dkg_keeps_transition_stage2 dkg_keeps_transition_stage3
      dkg_keeps_transition_final; (assumption | simp))+

section \<open>Runs\<close>

text \<open>What a participant does, with the messages it was given: it is created, gets messages from anyone,
  whatever they say, looks at its timers and takes messages from its queue. The members are a
  \<open>BTreeMap\<close>.\<close>

inductive dkg_run :: "crypto \<Rightarrow> dkg_payload list \<Rightarrow> dkg \<Rightarrow> bool" for C where
  run_new: "bt_ok members \<Longrightarrow> new_dkg C rnd me sec coordinator members config nonce = Ok s \<Longrightarrow> dkg_run C [] s"
| run_recv: "dkg_run C tr s \<Longrightarrow> dkg_run C (payload # tr) (snd (recv C rnd payload s))"
| run_timeout: "dkg_run C tr s \<Longrightarrow> dkg_run C tr (snd ((on_timeout C rnd now :: (dkg, dkg_error, unit) eff) s))"
| run_send: "dkg_run C tr s \<Longrightarrow> dkg_run C tr (snd (send now s))"

definition received3 :: "dkg_payload list \<Rightarrow> frost_id \<Rightarrow> signature \<Rightarrow> bool" where
  "received3 tr i sig \<longleftrightarrow> (\<exists>p \<in> set tr. msg p = Round3 i sig)"

lemma state_ok_mono: "state_ok R C M me coord st \<Longrightarrow> (\<And>i sig. R i sig \<Longrightarrow> R' i sig) \<Longrightarrow> state_ok R' C M me coord st"
  by (cases st) (fastforce+)

lemma dkg_inv_self: "dkg_inv R C s s \<longleftrightarrow> dkg_ok R C s"
  by (simp add: dkg_inv_def same_dkg_def)

lemma new_dkg_ok:
  assumes "bt_ok members" and "new_dkg C rnd me sec coordinator members config nonce = Ok s"
  shows "dkg_ok R C s \<and> dk_members s = members \<and> dk_my_frost_id s = me"
proof -
  let ?s = "\<lparr>dk_config = config, dk_my_frost_id = me, dk_my_static_sec = sec, dk_coordinator = coordinator,
    dk_members = members, dk_queue = [], dk_state = AwatingInit, session_nonce = None, session_activated = None\<rparr>"
  have "map_of members me \<noteq> None" "map_of members coordinator \<noteq> None"
    using assms(2) by (auto simp: new_dkg_def split: if_splits)
  then have "dkg_inv R C ?s ?s" using assms(1) by (auto simp: dkg_inv_self dkg_ok_def)
  moreover have "dkg_inv R C ?s (snd (init_new_session C rnd n ?s))" for n
    using dkg_keeps_init_new_session [OF calculation] by (simp add: wep_snd)
  moreover have "s = ?s \<or> (\<exists>n. s = snd (init_new_session C rnd n ?s))"
    using assms(2) by (auto simp: new_dkg_def Let_def result_simps case_prod_unfold split: if_splits option.splits result.splits)
  ultimately have "dkg_inv R C ?s s" by metis
  then show ?thesis by (simp add: dkg_inv_def same_dkg_def)
qed

lemma dkg_run_ok: "dkg_run C tr s \<Longrightarrow> dkg_ok (received3 tr) C s"
proof (induction rule: dkg_run.induct)
  case (run_recv tr s payload rnd)
  have "dkg_ok (received3 (payload # tr)) C s"
    using run_recv.IH unfolding dkg_ok_def by (auto elim!: state_ok_mono simp: received3_def)
  then have "keeps_dkg (received3 (payload # tr)) C s (recv C rnd payload) s"
    by (intro dkg_keeps_recv) (auto simp: dkg_inv_self received3_def)
  then show ?case by (simp add: wep_snd dkg_inv_def)
next
  case (run_timeout tr s rnd now)
  then have "keeps_dkg (received3 tr) C s (on_timeout C rnd now :: (dkg, dkg_error, unit) eff) s"
    by (intro dkg_keeps_on_timeout) (simp add: dkg_inv_self)
  then show ?case by (simp add: wep_snd dkg_inv_def)
next
  case (run_send tr s now)
  then have "dkg_inv (received3 tr) C s (snd (send now s))"
    unfolding send_def by (intro send_from_inv) (simp add: dkg_inv_self)
  then show ?case by (simp add: dkg_inv_def)
qed (simp add: new_dkg_ok)

subsection \<open>Sessions\<close>

text \<open>The nonce of the session does not go back below \<open>n\<close>.\<close>

named_theorems advances_intros

definition nonce_from :: "u64 \<Rightarrow> dkg \<Rightarrow> bool" where
  "nonce_from n s \<longleftrightarrow> (\<exists>n'. session_nonce s = Some n' \<and> n \<le> n')"

definition advances :: "(dkg, 'e, 'a) eff \<Rightarrow> bool" where
  "advances m \<longleftrightarrow> (\<forall>n s. nonce_from n s \<longrightarrow> nonce_from n (snd (m s)))"

lemma advances_wep: "advances m \<longleftrightarrow> (\<forall>n s. nonce_from n s \<longrightarrow> wep m (\<lambda>_. nonce_from n) (nonce_from n) s)"
  by (simp add: advances_def wep_snd)

lemma advances_bind [advances_intros]: "advances m \<Longrightarrow> (\<And>x. advances (f x)) \<Longrightarrow> advances (bind_eff m f)"
  unfolding advances_wep wep_bind by (blast intro: wep_mono)

lemma advances_leaves [advances_intros]:
  "advances (return_eff x)" "advances (lift_result r)" "advances (push to m)" "advances (set_state st)"
  "advances (send_round1_ack i to)" "advances (send_round2_ack i to t)" "advances (send_round3_ack i to)"
  by (auto simp: advances_wep wep_simps push_def set_state_def send_round1_ack_def send_round2_ack_def send_round3_ack_def
      nonce_from_def split: result.split)

lemma advances_gets [advances_intros]: "advances (gets g)"
  by (simp add: advances_wep wep_simps)

lemma advances_for_each [advances_intros]: "(\<And>x. advances (f x)) \<Longrightarrow> advances (for_each f xs)"
  by (induction xs) (auto intro: advances_intros)

lemma advances_with_auth [advances_intros]:
  "(\<And>x r. advances (k x r)) \<Longrightarrow> advances (with_auth1 r1 m1 k)"
  "(\<And>x r. advances (k' x r)) \<Longrightarrow> advances (with_auth2 r2 m2 k')"
  "(\<And>x r. advances (k'' x r)) \<Longrightarrow> advances (with_auth3 r3 m3 k'')"
  unfolding with_auth1_def with_auth2_def with_auth3_def case_prod_unfold by (intro advances_intros; simp)+

lemma advances_if [advances_intros]: "advances a \<Longrightarrow> advances b \<Longrightarrow> advances (if c then a else b)"
  by simp

lemma advances_ack_handlers [advances_intros]:
  "advances (on_dkg_msg_ack_round1 i from_id)" "advances (on_dkg_msg_ack_round2 i t)" "advances (on_dkg_msg_ack_round3 i from_id)"
  unfolding on_dkg_msg_ack_round1_def on_dkg_msg_ack_round2_def on_dkg_msg_ack_round3_def
  by (auto intro!: advances_intros split: stage_state.split)

lemma advances_forward [advances_intros]:
  "advances (forward_round1 i e sg p r tos)" "advances (forward_round3 i sg r3 tos)"
  by (induction tos arbitrary: r r3) (auto intro!: advances_intros)

lemma advances_commit_shares [advances_intros]: "advances (commit_shares C me coord shares auth out)"
  by (induction shares arbitrary: auth out) (auto intro!: advances_intros split: prod.split)

lemma advances_store_round1 [advances_intros]: "advances (store_round1 C i e sg p from_id r)"
  unfolding store_round1_def Let_def by (intro advances_intros)

lemma advances_round2 [advances_intros]: "advances (on_dkg_msg_round2 C i t n c from_id)"
  unfolding on_dkg_msg_round2_def Let_def
  by (intro advances_intros) (auto split: stage_state.split option.split intro!: advances_intros)

lemma advances_round3 [advances_intros]: "advances (on_dkg_msg_round3 C i sg from_id)"
  unfolding on_dkg_msg_round3_def Let_def
  by (intro advances_intros) (auto split: stage_state.split option.split intro!: advances_intros)

lemma advances_transitions [advances_intros]:
  "advances (transition_stage2_checked C)" "advances (transition_stage3_checked C)"
  unfolding transition_stage2_checked_def transition_stage3_checked_def Let_def
  by (intro advances_intros; auto split: stage_state.split option.split prod.split intro!: advances_intros)+

lemma accept_session_nonce:
  "n \<le> nonce \<Longrightarrow> wep (accept_session C rnd i ctx nonce p auth) (\<lambda>_. nonce_from n) (nonce_from n) s"
  unfolding accept_session_def Let_def wep_snd
  by (auto simp: case_prod_unfold wep_snd [symmetric] wep_simps send_round1_ack_def push_def set_state_def nonce_from_def
      split: result.split)

lemma advances_validate_new_session_init [advances_intros]:
  "advances (validate_new_session_init C rnd i ctx nonce e sg p)"
  unfolding advances_wep validate_new_session_init_def
  by (auto simp: wep_simps nonce_from_def case_prod_unfold split: option.split result.split
      intro!: accept_session_nonce)

lemma advances_round1 [advances_intros]: "advances (on_dkg_msg_round1 C rnd i ctx nonce e sg p from_id)"
  unfolding on_dkg_msg_round1_def
  by (intro advances_intros) (auto split: stage_state.split intro!: advances_intros)

lemma transition_final_nonce:
  "nonce_from n s \<Longrightarrow> wep (transition_final_checked C) (\<lambda>_ s. nonce_from n s \<or> stage_of (dk_state s) = Finalized) (nonce_from n) s"
  unfolding transition_final_checked_def
  by (auto simp: wep_simps with_auth3_def set_state_def case_prod_unfold nonce_from_def split: stage_state.split result.split)

lemma recv_nonce:
  assumes "nonce_from n s"
  shows "wep (recv C rnd payload) (\<lambda>_ s. nonce_from n s \<or> stage_of (dk_state s) = Finalized) (nonce_from n) s"
proof -
  have adv: "wep m (\<lambda>_ s. nonce_from n s \<or> stage_of (dk_state s) = Finalized) (nonce_from n) s" if "advances m"
    for m :: "(dkg, dkg_error, unit) eff"
    using that assms unfolding advances_wep by (blast intro: wep_mono)
  have fin: "wep (bind_eff m (\<lambda>_. transition_final_checked C))
      (\<lambda>_ s. nonce_from n s \<or> stage_of (dk_state s) = Finalized) (nonce_from n) s" if "advances m"
    for m :: "(dkg, dkg_error, unit) eff"
    using that assms unfolding advances_wep wep_bind by (blast intro: wep_mono transition_final_nonce)
  show ?thesis
    unfolding recv_def wep_bind wep_gets
    by (auto split: dkg_message.split intro!: adv fin advances_intros)
qed

lemma recv_finalized:
  assumes "dk_state s = IsFinalized a b"
  shows "dk_state (snd (recv C rnd payload s)) = IsFinalized a b"
proof -
  have "wep (recv C rnd payload) (\<lambda>_ s. dk_state s = IsFinalized a b) (\<lambda>s. dk_state s = IsFinalized a b) s"
    using assms
    by (auto simp: recv_def wep_simps on_dkg_msg_round1_def validate_new_session_init_def
        on_dkg_msg_round2_def on_dkg_msg_round3_def on_dkg_msg_ack_round1_def on_dkg_msg_ack_round2_def
        on_dkg_msg_ack_round3_def transition_stage2_checked_def transition_stage3_checked_def transition_final_checked_def
        send_round1_ack_def send_round2_ack_def send_round3_ack_def push_def split: dkg_message.split option.split)
  then show ?thesis by (simp add: wep_snd)
qed

subsection \<open>Channels\<close>

lemma channel_keys_other:
  "channel_keys C h t fs keys = Ok keys' \<Longrightarrow> j \<notin> fst ` set fs \<Longrightarrow> map_of keys' j = map_of keys j"
proof (induction C h t fs keys rule: channel_keys.induct)
  case (2 C h t fed_id fed_static rest keys)
  then show ?case
    by (cases "map_of (eph_keys h) fed_id") (auto simp: result_simps alist_simps split: if_splits)
qed simp

lemma channel_keys_value:
  assumes "channel_keys C h t fs keys = Ok keys'" and "wf_map fs" and "map_of fs i = Some pk" and "i \<noteq> hs_my_frost_id h"
  shows "\<exists>eph. map_of (eph_keys h) i = Some eph \<and> map_of keys' i =
    Some (derive_keys C t (hs_my_frost_id h) (hs_my_static_sec h) (hs_my_eph_sec h) i pk eph)"
  using assms
proof (induction C h t fs keys rule: channel_keys.induct)
  case (2 C h t fed_id fed_static rest keys)
  show ?case
  proof (cases "fed_id = i")
    case True
    with 2 obtain eph where eph: "map_of (eph_keys h) i = Some eph" by (auto simp: result_simps)
    have "i \<notin> fst ` set rest" using 2 True by (auto simp: wf_map_def)
    then show ?thesis
      using 2 True eph by (auto simp: alist_simps dest!: channel_keys_other)
  next
    case False
    then show ?thesis
      using 2 by (cases "map_of (eph_keys h) fed_id") (auto simp: result_simps alist_simps wf_map_def split: if_splits)
  qed
qed simp

lemma derive_keys_agree:
  assumes "\<And>a b. shared_secret C (pk_of C a) b = shared_secret C (pk_of C b) a" and "a \<noteq> b"
  shows "sending (derive_keys C t a sa ea b (pk_of C sb) (pk_of C eb)) =
    receiving (derive_keys C t b sb eb a (pk_of C sa) (pk_of C ea))"
proof (cases "a < b")
  case True
  then have "\<not> b < a" by (simp add: not_less less_imp_le)
  then show ?thesis
    using True by (simp add: derive_keys_def Let_def case_prod_unfold assms(1) [of sa eb] assms(1) [of sb ea])
next
  case False
  then have "b < a" using assms(2) by simp
  then show ?thesis
    using False by (simp add: derive_keys_def Let_def case_prod_unfold assms(1) [of sa eb] assms(1) [of sb ea])
qed

lemma finalize_handshake_keys:
  assumes "finalize_handshake C h = (Ok ch, h')" and "wf_map (hs_fed_members h)" and "map_of (hs_fed_members h) i = Some pk"
    and "i \<noteq> hs_my_frost_id h" and "map_of (eph_keys h) i = Some eph"
  shows "map_of (symmetric_keys ch) i = Some (derive_keys C
    (fold (\<lambda>c t. tr_append C t ''round1_commit'' (snd c)) (round1_commits h) (hs_transcript h))
    (hs_my_frost_id h) (hs_my_static_sec h) (hs_my_eph_sec h) i pk eph)"
proof -
  let ?t = "fold (\<lambda>c t. tr_append C t ''round1_commit'' (snd c)) (round1_commits h) (hs_transcript h)"
  let ?h = "h\<lparr>round1_commits := [], hs_transcript := ?t\<rparr>"
  have "channel_keys C ?h ?t (hs_fed_members ?h) [] = Ok (symmetric_keys ch)"
    using assms(1)
    by (auto simp: finalize_handshake_def bind_eff_def gets_def modify_def return_eff_def raise_eff_def
        split: if_splits result.splits)
  from channel_keys_value [OF this, of i pk] show ?thesis using assms by auto
qed

lemma commit_round2_sending:
  "map_option sending (map_of (symmetric_keys (snd (commit_round2 C t q c))) i) =
   map_option sending (map_of (symmetric_keys c) i)"
proof -
  let ?P = "\<lambda>c'. map_option sending (map_of (symmetric_keys c') i) = map_option sending (map_of (symmetric_keys c) i)"
  have "wep (commit_round2 C t q) (\<lambda>_. ?P) ?P c"
    by (auto simp: commit_round2_def wep_simps alist_simps result_simps split: result.split)
  then show ?thesis by (simp add: wep_snd)
qed

lemma commits_sending:
  "map_option sending (map_of (symmetric_keys (fold (\<lambda>(t, q) c. snd (commit_round2 C t q c)) ps c)) i) =
   map_option sending (map_of (symmetric_keys c) i)"
  by (induction ps arbitrary: c) (auto simp: commit_round2_sending)

lemma commit_round2_result:
  assumes "commit_round2 C t p c = (Ok (enc_package, n), c')" and "map_option sending (map_of (symmetric_keys c) t) = Some k"
  shows "\<exists>plain. round2_serialize C p = Some plain \<and> aead_encrypt C k (integer_to_serialized_nonce n) plain = Some enc_package"
proof -
  obtain e where e: "map_of (symmetric_keys c) t = Some e" "k = sending e" using assms(2) by auto
  show ?thesis
  proof (cases "round2_serialize C p")
    case (Some plain)
    then show ?thesis
      using assms(1) e
      by (cases "aead_encrypt C k (integer_to_serialized_nonce (sk_nonce e)) plain")
        (auto simp: commit_round2_def bind_eff_def gets_def modify_def return_eff_def lift_result_def)
  qed (use assms(1) e in \<open>auto simp: commit_round2_def bind_eff_def gets_def modify_def lift_result_def\<close>)
qed

lemma validate_round2_result:
  assumes "map_of (symmetric_keys c) i = Some e" and "aead_decrypt C (receiving e) (integer_to_serialized_nonce n) enc = Some plain"
    and "round2_deserialize C plain = Some p"
  shows "fst (validate_round2 C i n enc c) = Ok p"
  using assms by (simp add: validate_round2_def bind_eff_def gets_def modify_def return_eff_def lift_result_def)

section \<open>Properties\<close>

text \<open>(C3) A participant that has finished the key generation, whatever messages it was given and in whatever
  order, has received from every other member a signature, valid under that member's static key, of a
  digest that binds the public keys it ends with to a transcript that starts with the context of the
  protocol and the nonce of a session; the state of a finished participant no longer holds its nonce.\<close>

theorem dkg_key_is_signed_by_all:
  assumes "dkg_run C tr s" and "aggregate_key_packages s = Some (secret_package, public_key_package)"
  shows "\<exists>digest. key_digest C public_key_package digest \<and>
    (\<forall>i pk. map_of (dk_members s) i = Some pk \<and> i \<noteq> dk_my_frost_id s \<longrightarrow>
      (\<exists>p sig. p \<in> set tr \<and> msg p = Round3 i sig \<and> verify_ecdsa C pk digest sig))"
proof -
  have "dk_state s = IsFinalized secret_package public_key_package"
    using assms(2) by (auto simp: aggregate_key_packages_def split: stage_state.splits)
  then show ?thesis
    using dkg_run_ok [OF assms(1)] by (fastforce simp: dkg_ok_def received3_def)
qed

text \<open>(C12) A message never takes a participant back to an older session: the nonce of its session stays or
  grows, unless the message finishes the key generation. A participant that has finished keeps its key
  whatever it is given, a new session of the coordinator included.\<close>

theorem dkg_session_only_moves_forward:
  "let s' = snd (recv C rnd payload s) in
     (case session_nonce s of None \<Rightarrow> True
      | Some n \<Rightarrow> stage_of (dk_state s') = Finalized \<or> (\<exists>n'. session_nonce s' = Some n' \<and> n \<le> n')) \<and>
     (case aggregate_key_packages s of None \<Rightarrow> True | Some packages \<Rightarrow> aggregate_key_packages s' = Some packages)"
proof -
  let ?s' = "snd (recv C rnd payload s)"
  have "stage_of (dk_state ?s') = Finalized \<or> nonce_from n ?s'" if "session_nonce s = Some n" for n
    using recv_nonce [of n s C rnd payload] that
    by (auto simp: wep_def nonce_from_def split: prod.splits result.splits)
  moreover have "aggregate_key_packages ?s' = Some k" if "aggregate_key_packages s = Some k" for k
    using that recv_finalized [of s _ _ C rnd payload] by (auto simp: aggregate_key_packages_def split: stage_state.splits)
  ultimately show ?thesis by (auto simp: Let_def nonce_from_def split: option.split)
qed

text \<open>(C10) The channels of round two deliver the shares: when two members have finished the handshake of the same
  session, with the same commitments and each other's keys, the share that one encrypts for the other,
  after any number of earlier shares, is what the other decrypts. The hypotheses on the libraries are the
  symmetry of the shared secret and that decryption and parsing undo encryption and serialization.\<close>

theorem round2_share_is_delivered:
  assumes ecdh: "\<And>a b. shared_secret C (pk_of C a) b = shared_secret C (pk_of C b) a"
    and aead: "\<And>k n plain enc. aead_encrypt C k n plain = Some enc \<Longrightarrow> aead_decrypt C k n enc = Some plain"
    and serde: "\<And>p plain. round2_serialize C p = Some plain \<Longrightarrow> round2_deserialize C plain = Some p"
    and session: "hs_transcript hA = hs_transcript hB" "round1_commits hA = round1_commits hB"
      "hs_fed_members hA = hs_fed_members hB" "wf_map (hs_fed_members hA)" "hs_my_frost_id hA \<noteq> hs_my_frost_id hB"
    and static: "map_of (hs_fed_members hA) (hs_my_frost_id hA) = Some (pk_of C (hs_my_static_sec hA))"
      "map_of (hs_fed_members hA) (hs_my_frost_id hB) = Some (pk_of C (hs_my_static_sec hB))"
    and eph: "map_of (eph_keys hA) (hs_my_frost_id hB) = Some (pk_of C (hs_my_eph_sec hB))"
      "map_of (eph_keys hB) (hs_my_frost_id hA) = Some (pk_of C (hs_my_eph_sec hA))"
    and channels: "finalize_handshake C hA = (Ok chA, hA')" "finalize_handshake C hB = (Ok chB, hB')"
    and sent: "commit_round2 C (hs_my_frost_id hB) p (fold (\<lambda>(t, q) c. snd (commit_round2 C t q c)) earlier chA) = (Ok (enc, n), chA')"
  shows "fst (validate_round2 C (hs_my_frost_id hA) n enc chB) = Ok p"
proof -
  let ?t = "fold (\<lambda>c t. tr_append C t ''round1_commit'' (snd c)) (round1_commits hA) (hs_transcript hA)"
  let ?A = "derive_keys C ?t (hs_my_frost_id hA) (hs_my_static_sec hA) (hs_my_eph_sec hA) (hs_my_frost_id hB)
    (pk_of C (hs_my_static_sec hB)) (pk_of C (hs_my_eph_sec hB))"
  let ?B = "derive_keys C ?t (hs_my_frost_id hB) (hs_my_static_sec hB) (hs_my_eph_sec hB) (hs_my_frost_id hA)
    (pk_of C (hs_my_static_sec hA)) (pk_of C (hs_my_eph_sec hA))"
  have A: "map_of (symmetric_keys chA) (hs_my_frost_id hB) = Some ?A"
    using finalize_handshake_keys [OF channels(1)] session static eph by simp
  have B: "map_of (symmetric_keys chB) (hs_my_frost_id hA) = Some ?B"
    using finalize_handshake_keys [OF channels(2)] session static eph by simp
  have "sending ?A = receiving ?B" by (rule derive_keys_agree) (rule ecdh, rule session)
  moreover obtain plain where "round2_serialize C p = Some plain"
    "aead_encrypt C (sending ?A) (integer_to_serialized_nonce n) plain = Some enc"
    using commit_round2_result [OF sent] A by (auto simp: commits_sending)
  ultimately show ?thesis
    using B by (intro validate_round2_result) (auto intro: aead serde)
qed

text \<open>(C21) In every state a participant can reach, whatever it was given, each table has the keys its type
  promises: it is sorted without repetition, packages in it come from other members, and packages to be
  sent go from a member to another one that is not this participant.\<close>

theorem dkg_tables_are_well_formed:
  assumes "dkg_run C tr s"
  shows "case dk_state s of
      InRoundOne r \<Rightarrow> in_ok (dk_members s) (dk_my_frost_id s) (r1_in r) \<and> out_ok (dk_members s) (dk_my_frost_id s) (r1_out r)
    | InRoundTwo r \<Rightarrow> in_ok (dk_members s) (dk_my_frost_id s) (r2_in1 r) \<and> in_ok (dk_members s) (dk_my_frost_id s) (r2_in r) \<and>
        out_ok (dk_members s) (dk_my_frost_id s) (r2_out r) \<and>
        dom (map_of (symmetric_keys (r2_auth r))) \<subseteq> dom (map_of (dk_members s)) - {dk_my_frost_id s}
    | InRoundThree r \<Rightarrow> in_ok (dk_members s) (dk_my_frost_id s) (r3_in1 r) \<and> in_ok (dk_members s) (dk_my_frost_id s) (r3_in2 r) \<and>
        in_ok (dk_members s) (dk_my_frost_id s) (r3_in r) \<and> out_ok (dk_members s) (dk_my_frost_id s) (r3_out r)
    | _ \<Rightarrow> True"
  using dkg_run_ok [OF assms] by (cases "dk_state s") (auto simp: dkg_ok_def)

section \<open>An example\<close>

text \<open>Two members with identifiers 1 and 2, and libraries simple enough to compute with: a transcript is
  a checksum, a signature the checksum with the secret key, and a ciphertext carries its key and nonce.\<close>

definition example_crypto :: crypto where
  "example_crypto = \<lparr>
     tr_new = (\<lambda>_. [7]), tr_append = (\<lambda>t _ m. [hd t + sum_list m]), tr_append_u64 = (\<lambda>t _ n. [hd t + ucast n]),
     tr_challenge = (\<lambda>t _. (t, [hd t + 1])), pk_of = (\<lambda>s. s), pk_serialize = (\<lambda>p. p), id_serialize = (\<lambda>i. [ucast i]),
     sign_ecdsa = (\<lambda>s d. [hd s + hd d]), verify_ecdsa = (\<lambda>p d s. s = [hd p + hd d]), serialize_compact = (\<lambda>s. s),
     shared_secret = (\<lambda>p s. [hd p + hd s]), aead_encrypt = (\<lambda>k n m. Some (k @ n @ m)),
     aead_decrypt = (\<lambda>k n c. if take (length (k @ n)) c = k @ n then Some (drop (length (k @ n)) c) else None),
     round1_serialize = Some, round2_serialize = Some, round2_deserialize = Some, pubkeys_serialize = Some,
     frost_part1 = (\<lambda>r i _ _. Some (r, [ucast i])), frost_part2 = (\<lambda>s ps. Some (s, map (\<lambda>(i, p). (i, s)) ps)),
     frost_part3 = (\<lambda>s _ _. Some (s, [9]))\<rparr>"

definition example_config :: dkg_config where
  "example_config = \<lparr>max_signers = 2, min_signers = 2, round1_package_timeout = 10, round2_package_timeout = 10,
     round3_package_timeout = 10, pending_session_timeout = None\<rparr>"

definition example_start :: "frost_id \<Rightarrow> secret_key \<Rightarrow> secret_key \<Rightarrow> (dkg_error, dkg) result" where
  "example_start me sec eph = new_dkg example_crypto ([ucast me + 40], eph) me sec 1 [(1, [11]), (2, [12])] example_config (Some 5)"

text \<open>The second member takes part in a session of the first, who is the coordinator.\<close>

definition example_rnd :: "bytes \<times> secret_key" where
  "example_rnd = ([42], [22])"

definition example_messages :: "dkg_payload list" where
  "example_messages = map (\<lambda>m. \<lparr>sender = 1, recipient = 2, msg = m\<rparr>)
     [Round1 1 SESSION_CONTEXT 5 [21] [124] [1], AckRound1 2, Round2 1 2 0 [129, 0, 0, 0, 0, 0, 0, 0, 0, 0, 0, 0, 0, 41],
      AckRound2 2 1, Round3 1 [83], AckRound3 2]"

definition example_after :: "nat \<Rightarrow> dkg" where
  "example_after k = (case example_start 2 [12] [22] of
       Ok s \<Rightarrow> fold (\<lambda>p s. snd (recv example_crypto example_rnd p s)) (take k example_messages) s
     | _ \<Rightarrow> undefined)"

lemma dkg_run_fold: "dkg_run C tr s \<Longrightarrow> dkg_run C (rev ps @ tr) (fold (\<lambda>p s. snd (recv C rnd p s)) ps s)"
  by (induction ps arbitrary: tr s) (auto dest: run_recv)

lemma example_start_ok: "case example_start 2 [12] [22] of Ok _ \<Rightarrow> True | _ \<Rightarrow> False"
  by code_simp

lemma example_run: "dkg_run example_crypto (rev (take k example_messages)) (example_after k)"
proof -
  obtain s where s: "example_start 2 [12] [22] = Ok s" using example_start_ok by (auto split: result.splits)
  have "dkg_run example_crypto [] s"
    using s unfolding example_start_def by (intro run_new) (auto simp: bt_ok_def)
  from dkg_run_fold [OF this] show ?thesis by (simp add: example_after_def s)
qed

lemma example_finishes: "aggregate_key_packages (example_after 6) = Some ([42], [9])"
  by code_simp

lemma example_members: "map_of (dk_members (example_after 6)) 1 = Some [11] \<and> dk_my_frost_id (example_after 6) = 2"
  by code_simp

theorem dkg_key_is_signed_by_all_witness:
  "aggregate_key_packages (example_after 6) = Some ([42], [9]) \<and>
   (\<exists>digest. key_digest example_crypto [9] digest \<and>
     (\<exists>p sig. p \<in> set (rev (take 6 example_messages)) \<and> msg p = Round3 1 sig \<and> verify_ecdsa example_crypto [11] digest sig))"
proof -
  have "(1 :: frost_id) \<noteq> 2" by code_simp
  then show ?thesis
    using dkg_key_is_signed_by_all [OF example_run example_finishes] example_members example_finishes by metis
qed

theorem dkg_tables_are_well_formed_witness:
  "dkg_run example_crypto (rev (take 3 example_messages)) (example_after 3) \<and>
   (case dk_state (example_after 3) of
      InRoundTwo r \<Rightarrow> in_ok (dk_members (example_after 3)) (dk_my_frost_id (example_after 3)) (r2_in r) | _ \<Rightarrow> False)"
proof -
  have "case dk_state (example_after 3) of InRoundTwo _ \<Rightarrow> True | _ \<Rightarrow> False" by code_simp
  then show ?thesis
    using dkg_tables_are_well_formed [OF example_run, of 3] example_run by (auto split: stage_state.splits)
qed

text \<open>The handshakes of the two members once they have exchanged their keys.\<close>

definition example_handshake :: "frost_id \<Rightarrow> secret_key \<Rightarrow> secret_key \<Rightarrow> handshake" where
  "example_handshake me sec eph = \<lparr>hs_transcript = [90], hs_my_frost_id = me, hs_my_static_sec = sec, hs_my_eph_sec = eph,
     hs_my_eph_pub = eph, hs_fed_members = [(1, [11]), (2, [12])], eph_keys = [(1, [21]), (2, [22])],
     round1_commits = [(1, [113]), (2, [116])]\<rparr>"

definition example_channel :: "handshake \<Rightarrow> channel" where
  "example_channel h = (case fst (finalize_handshake example_crypto h) of Ok ch \<Rightarrow> ch | _ \<Rightarrow> undefined)"

lemma example_channel_eq:
  "(case fst (finalize_handshake example_crypto h) of Ok _ \<Rightarrow> True | _ \<Rightarrow> False) \<Longrightarrow>
   finalize_handshake example_crypto h = (Ok (example_channel h), snd (finalize_handshake example_crypto h))"
  unfolding example_channel_def by (auto split: result.splits prod.splits intro: prod_eqI)

theorem round2_share_is_delivered_witness:
  "fst (commit_round2 example_crypto 2 [41, 5] (snd (commit_round2 example_crypto 2 [3] (example_channel (example_handshake 1 [11] [21]))))) =
     Ok ([129, 1, 0, 0, 0, 0, 0, 0, 0, 0, 0, 0, 0, 41, 5], 1) \<and>
   fst (validate_round2 example_crypto 1 1 [129, 1, 0, 0, 0, 0, 0, 0, 0, 0, 0, 0, 0, 41, 5]
     (example_channel (example_handshake 2 [12] [22]))) = Ok [41, 5]"
proof -
  let ?A = "example_handshake 1 [11] [21]" and ?B = "example_handshake 2 [12] [22]"
  let ?c = "snd (commit_round2 example_crypto 2 [3] (example_channel ?A))"
  have ne: "(1 :: frost_id) \<noteq> 2" by code_simp
  have sent: "fst (commit_round2 example_crypto 2 [41, 5] ?c) = Ok ([129, 1, 0, 0, 0, 0, 0, 0, 0, 0, 0, 0, 0, 41, 5], 1)"
    by code_simp
  have ch: "finalize_handshake example_crypto ?A = (Ok (example_channel ?A), snd (finalize_handshake example_crypto ?A))"
    "finalize_handshake example_crypto ?B = (Ok (example_channel ?B), snd (finalize_handshake example_crypto ?B))"
    by (rule example_channel_eq, code_simp)+
  have "fst (validate_round2 example_crypto (hs_my_frost_id ?A) 1 [129, 1, 0, 0, 0, 0, 0, 0, 0, 0, 0, 0, 0, 41, 5]
      (example_channel ?B)) = Ok [41, 5]"
  proof (rule round2_share_is_delivered [OF _ _ _ _ _ _ _ _ _ _ _ _ ch, where earlier = "[(2, [3])]"])
    show "commit_round2 example_crypto (hs_my_frost_id ?B) [41, 5]
        (fold (\<lambda>(t, q) c. snd (commit_round2 example_crypto t q c)) [(2, [3])] (example_channel ?A)) =
      (Ok ([129, 1, 0, 0, 0, 0, 0, 0, 0, 0, 0, 0, 0, 41, 5], 1), snd (commit_round2 example_crypto 2 [41, 5] ?c))"
      using sent by (auto simp: example_handshake_def intro: prod_eqI)
  qed (use ne in \<open>auto simp: example_handshake_def example_crypto_def wf_map_def add.commute split: if_splits\<close>)
  with sent show ?thesis by (simp add: example_handshake_def)
qed

end
