(* ===== verification/PegContract.thy ===== *)
theory PegContract
  imports PegoutIdCodec
begin

text \<open>
  Proofs of deposits (\<open>botanix-authority-peg/src/peg_contract.rs\<close>, \<open>utils.rs\<close>, and the scripts of
  \<open>btc-server/src/wallet/address.rs\<close>): the metadata of a pegin with its encoding, the validation of the
  proofs against a Bitcoin checkpoint, and the data of a pegout. A \<open>U256\<close> is a 256-bit word, an
  \<open>Address\<close> the list of its 20 bytes. The crates bitcoin, secp256k1 and frost are the record \<open>peg_lib\<close>
  of the functions the code calls and \<open>peg_codec\<close> of their encodings; their opaque values are byte
  strings, and a function that may fail returns an option.
\<close>

section \<open>Amounts\<close>

type_synonym u256 = "256 word"

definition SATOSHI_IN_WEI :: u256 where
  "SATOSHI_IN_WEI = 10000000000"

definition MAX_SATOSHI :: u256 where
  "MAX_SATOSHI = 18446744073709551615"

definition to_wei :: "amount \<Rightarrow> ('e, u256) result" where
  "to_wei a = expect (checked_mul (ucast a) SATOSHI_IN_WEI)"

definition from_wei_floor :: "u256 \<Rightarrow> amount option" where
  "from_wei_floor wei = (let sat = wei div SATOSHI_IN_WEI in if sat \<le> MAX_SATOSHI then Some (ucast sat) else None)"

definition from_wei :: "u256 \<Rightarrow> ('e, amount option) result" where
  "from_wei wei = (case from_wei_floor wei of None \<Rightarrow> Ok None
     | Some ret \<Rightarrow> bind_result (to_wei ret) (\<lambda>w. Ok (if w = wei then Some ret else None)))"

section \<open>Data\<close>

type_synonym eth_addr = "u8 list"
type_synonym pubkey = "u8 list"
type_synonym merkle_tree = "u8 list"

definition PEGIN_META_VERSION_V0 :: u32 where
  "PEGIN_META_VERSION_V0 = 0"

definition PEGIN_META_VERSION_V1 :: u32 where
  "PEGIN_META_VERSION_V1 = 1"

definition BITCOIN_HEADER_SIZE :: nat where
  "BITCOIN_HEADER_SIZE = 80"

definition MAX_BITCOIN_BLOCK_HEADERS :: u64 where
  "MAX_BITCOIN_BLOCK_HEADERS = 2016"

text \<open>The constant of the bitcoin crate.\<close>

definition COINBASE_MATURITY :: u32 where
  "COINBASE_MATURITY = 100"

record pegin_meta_v0 =
  pm_version :: u32
  merkle_proof :: merkle_tree
  pm_outpoint :: out_point
  pm_address :: eth_addr
  aggregate_publickey :: pubkey
  block_headers :: "header list"
  pm_tx :: transaction

record pegin_meta_v1 =
  pm_inner :: pegin_meta_v0
  pm_ref_block_hash :: "u8 list"

datatype pegin_meta = MetaV0 pegin_meta_v0 | MetaV1 pegin_meta_v1

record pegin_data =
  pd_account :: eth_addr
  pd_amount :: u256
  bitcoin_block_height :: u32
  pd_meta :: "pegin_meta list"

datatype pegin_data_error =
    InvalidFormat
  | Invalid string
  | InvalidPublicKey
  | InvalidBitcoinBlockHeight
  | InvalidTweak
  | PegFrostError
  | InvalidLength u64 nat
  | InvalidMerkleBlock
  | TooManyBlockHeaders u64

fun meta_v0 :: "pegin_meta \<Rightarrow> pegin_meta_v0" where
  "meta_v0 (MetaV0 m) = m"
| "meta_v0 (MetaV1 m) = pm_inner m"

definition meta_version :: "pegin_meta \<Rightarrow> u32" where
  "meta_version m = pm_version (meta_v0 m)"

definition meta_outpoint :: "pegin_meta \<Rightarrow> out_point" where
  "meta_outpoint m = pm_outpoint (meta_v0 m)"

fun ref_block_hash :: "pegin_meta \<Rightarrow> u8 list option" where
  "ref_block_hash (MetaV0 _) = None"
| "ref_block_hash (MetaV1 m) = Some (pm_ref_block_hash m)"

definition meta_txout :: "pegin_meta \<Rightarrow> ('e, tx_out) result" where
  "meta_txout m = (let p = meta_v0 m; i = unat (op_vout (pm_outpoint p)) in
     if i < length (tx_output (pm_tx p)) then Ok (tx_output (pm_tx p) ! i) else Panic)"

section \<open>Libraries\<close>

record peg_lib =
  lib_block_hash :: "header \<Rightarrow> block_hash"
  lib_compute_txid :: "transaction \<Rightarrow> txid"
  lib_is_coinbase :: "transaction \<Rightarrow> bool"
  lib_extract_matches :: "merkle_tree \<Rightarrow> (256 word \<times> txid list) option"
  lib_pk_serialize :: "pubkey \<Rightarrow> u8 list"
  lib_pk_from_slice :: "u8 list \<Rightarrow> pubkey option"
  lib_vk_deserialize :: "u8 list \<Rightarrow> u8 list option"
  lib_vk_serialize :: "u8 list \<Rightarrow> u8 list option"
  lib_vk_tweak :: "u8 list \<Rightarrow> u8 list \<Rightarrow> u8 list"
  lib_p2tr_tweaked :: "pubkey \<Rightarrow> script"

type_synonym 'a decoder = "u8 list \<Rightarrow> ('a \<times> u8 list) option"

record peg_codec =
  enc_u32 :: "u32 \<Rightarrow> u8 list"
  dec_u32 :: "u32 decoder"
  enc_outpoint :: "out_point \<Rightarrow> u8 list"
  dec_outpoint :: "out_point decoder"
  enc_varint :: "u64 \<Rightarrow> u8 list"
  dec_varint :: "u64 decoder"
  enc_header :: "header \<Rightarrow> u8 list"
  dec_header :: "header decoder"
  enc_merkle :: "merkle_tree \<Rightarrow> u8 list"
  dec_merkle :: "merkle_tree decoder"
  enc_tx :: "transaction \<Rightarrow> u8 list"
  dec_tx :: "transaction decoder"

section \<open>Scripts\<close>

text \<open>\<open>to_secp_pk\<close>, and the address tweaked with an Ethereum address.\<close>

definition to_secp_pk :: "peg_lib \<Rightarrow> u8 list \<Rightarrow> pubkey option" where
  "to_secp_pk L vk = Option.bind (lib_vk_serialize L vk) (lib_pk_from_slice L)"

definition generate_tweaked_public_key :: "peg_lib \<Rightarrow> u8 list \<Rightarrow> eth_addr \<Rightarrow> pubkey option" where
  "generate_tweaked_public_key L verifying_key eth = to_secp_pk L (lib_vk_tweak L verifying_key eth)"

definition generate_taproot_scriptpubkey :: "peg_lib \<Rightarrow> pubkey \<Rightarrow> script" where
  "generate_taproot_scriptpubkey L tpk = lib_p2tr_tweaked L tpk"

section \<open>Validation\<close>

text \<open>The headers follow one another.\<close>

fun header_sequence :: "peg_lib \<Rightarrow> header list \<Rightarrow> bool" where
  "header_sequence L (h # h' # hs) \<longleftrightarrow> prev_blockhash h' = lib_block_hash L h \<and> header_sequence L (h' # hs)"
| "header_sequence L _ \<longleftrightarrow> True"

text \<open>How many headers come before the checkpoint, at its last place in the list.\<close>

definition commitment_depth :: "peg_lib \<Rightarrow> block_hash \<Rightarrow> header list \<Rightarrow> nat" where
  "commitment_depth L commit_hash hs = length (dropWhile (\<lambda>h. lib_block_hash L h \<noteq> commit_hash) (rev hs)) - 1"

definition validate_proof ::
    "peg_lib \<Rightarrow> header \<times> u32 \<Rightarrow> pubkey \<Rightarrow> pegin_data \<Rightarrow> u256 \<Rightarrow> pegin_meta \<Rightarrow> (pegin_data_error, u256) result" where
  "validate_proof L bitcoin_commitment aggregate_pk d aggregate_value meta =
     (let commit_hash = lib_block_hash L (fst bitcoin_commitment); pegin = meta_v0 meta in
      if meta_version meta \<notin> {PEGIN_META_VERSION_V0, PEGIN_META_VERSION_V1}
      then Err (Invalid ''invalid meta version: only accepting version 0 or 1'')
      else if \<not> list_ex (\<lambda>h. lib_block_hash L h = commit_hash) (block_headers pegin)
      then Err (Invalid ''recent block hash mismatch'')
      else bind_result (ok_or InvalidMerkleBlock (lib_extract_matches L (merkle_proof pegin))) (\<lambda>(root, txids).
      if op_txid (pm_outpoint pegin) \<notin> set txids then Err (Invalid ''invalid merkle proof: inclusion'')
      else bind_result (if block_headers pegin = [] then Panic else Ok (hd (block_headers pegin))) (\<lambda>first.
      if hd_merkle_root first \<noteq> root then Err (Invalid ''merkle proof and block header mismatch'')
      else if lib_compute_txid L (pm_tx pegin) \<noteq> op_txid (pm_outpoint pegin)
      then Err (Invalid ''invalid tx or outpoint: txid'')
      else if length (tx_output (pm_tx pegin)) < unat (op_vout (pm_outpoint pegin))
      then Err (Invalid ''invalid tx or outpoint: output idx'')
      else bind_result (ok_or PegFrostError (lib_vk_deserialize L (lib_pk_serialize L aggregate_pk))) (\<lambda>vk.
      bind_result (ok_or InvalidTweak (generate_tweaked_public_key L vk (pd_account d))) (\<lambda>tpk.
      let gateway_script = generate_taproot_scriptpubkey L tpk; i = unat (op_vout (pm_outpoint pegin)) in
      bind_result (if i < length (tx_output (pm_tx pegin)) then Ok (tx_output (pm_tx pegin) ! i) else Panic) (\<lambda>output.
      if gateway_script \<noteq> script_pubkey output then Err (Invalid ''invalid script pubkey'')
      else bind_result (to_wei (txo_value output)) (\<lambda>output_value.
      bind_result (expect (checked_add aggregate_value output_value)) (\<lambda>aggregate_value.
      if \<not> header_sequence L (block_headers pegin) then Err (Invalid ''invalid block header sequence'')
      else let diff = commitment_depth L commit_hash (block_headers pegin) in
      if snd bitcoin_commitment - of_nat diff \<noteq> bitcoin_block_height d then Err InvalidBitcoinBlockHeight
      else if lib_is_coinbase L (pm_tx pegin) \<and> (of_nat diff :: u32) < COINBASE_MATURITY
      then Err (Invalid ''spending non-mature coinbase'')
      else Ok aggregate_value))))))))"

definition validate_pegin ::
    "peg_lib \<Rightarrow> pegin_data \<Rightarrow> header \<times> u32 \<Rightarrow> pubkey \<Rightarrow> (pegin_data_error, u256) result" where
  "validate_pegin L d bitcoin_commitment aggregate_pk =
     fold_result (validate_proof L bitcoin_commitment aggregate_pk d) 0 (pd_meta d)"

section \<open>Encoding\<close>

definition serialize_v0 :: "peg_codec \<Rightarrow> peg_lib \<Rightarrow> pegin_meta_v0 \<Rightarrow> u8 list" where
  "serialize_v0 K L m = enc_u32 K (pm_version m) @ enc_outpoint K (pm_outpoint m) @ pm_address m @
     lib_pk_serialize L (aggregate_publickey m) @ enc_varint K (of_nat (length (block_headers m))) @
     concat (map (enc_header K) (block_headers m)) @ enc_merkle K (merkle_proof m) @ enc_tx K (pm_tx m)"

text \<open>\<open>read_slice\<close> of a number of bytes.\<close>

definition read_slice :: "nat \<Rightarrow> u8 list decoder" where
  "read_slice n bs = (if n \<le> length bs then Some (take n bs, drop n bs) else None)"

fun decode_headers :: "peg_codec \<Rightarrow> nat \<Rightarrow> header list decoder" where
  "decode_headers K 0 bs = Some ([], bs)"
| "decode_headers K (Suc n) bs = (case dec_header K bs of None \<Rightarrow> None
     | Some (h, bs) \<Rightarrow> (case decode_headers K n bs of None \<Rightarrow> None | Some (hs, bs) \<Rightarrow> Some (h # hs, bs)))"

definition deserialize_v0 :: "peg_codec \<Rightarrow> peg_lib \<Rightarrow> u8 list \<Rightarrow> (pegin_data_error, pegin_meta_v0 \<times> nat) result" where
  "deserialize_v0 K L bytes =
     (let proofs_size = length bytes in
      bind_result (ok_or InvalidFormat (dec_u32 K bytes)) (\<lambda>(version, bytes).
      bind_result (ok_or InvalidFormat (dec_outpoint K bytes)) (\<lambda>(outpoint, bytes).
      bind_result (ok_or InvalidFormat (read_slice 20 bytes)) (\<lambda>(address, bytes).
      bind_result (ok_or InvalidFormat (read_slice 33 bytes)) (\<lambda>(pk_bytes, bytes).
      bind_result (ok_or InvalidPublicKey (lib_pk_from_slice L pk_bytes)) (\<lambda>pk.
      bind_result (ok_or InvalidFormat (dec_varint K bytes)) (\<lambda>(len, bytes).
      if len > MAX_BITCOIN_BLOCK_HEADERS then Err (TooManyBlockHeaders len)
      else if unat len > length bytes div BITCOIN_HEADER_SIZE then Err (InvalidLength len (length bytes))
      else bind_result (ok_or InvalidFormat (decode_headers K (unat len) bytes)) (\<lambda>(headers, bytes).
      bind_result (ok_or InvalidFormat (dec_merkle K bytes)) (\<lambda>(merkle, bytes).
      bind_result (ok_or InvalidFormat (dec_tx K bytes)) (\<lambda>(tx, bytes).
      Ok (\<lparr>pm_version = version, merkle_proof = merkle, pm_outpoint = outpoint, pm_address = address,
           aggregate_publickey = pk, block_headers = headers, pm_tx = tx\<rparr>, proofs_size - length bytes)))))))))))"

definition serialize_v1 :: "peg_codec \<Rightarrow> peg_lib \<Rightarrow> pegin_meta_v1 \<Rightarrow> u8 list" where
  "serialize_v1 K L m = serialize_v0 K L (pm_inner m) @ pm_ref_block_hash m"

definition deserialize_v1 :: "peg_codec \<Rightarrow> peg_lib \<Rightarrow> u8 list \<Rightarrow> (pegin_data_error, pegin_meta_v1 \<times> nat) result" where
  "deserialize_v1 K L bytes =
     (let proofs_size = length bytes in
      bind_result (deserialize_v0 K L bytes) (\<lambda>(inner, inner_size).
      let bytes = drop inner_size bytes in
      bind_result (ok_or InvalidFormat (read_slice 32 bytes)) (\<lambda>(hash, bytes).
      Ok (\<lparr>pm_inner = inner, pm_ref_block_hash = hash\<rparr>, proofs_size - length bytes))))"

fun serialize_meta :: "peg_codec \<Rightarrow> peg_lib \<Rightarrow> pegin_meta \<Rightarrow> u8 list" where
  "serialize_meta K L (MetaV0 m) = serialize_v0 K L m"
| "serialize_meta K L (MetaV1 m) = serialize_v1 K L m"

definition deserialize_meta :: "peg_codec \<Rightarrow> peg_lib \<Rightarrow> u8 list \<Rightarrow> (pegin_data_error, pegin_meta \<times> nat) result" where
  "deserialize_meta K L bytes =
     bind_result (ok_or InvalidFormat (dec_u32 K bytes)) (\<lambda>(version, _).
     if version = PEGIN_META_VERSION_V0
     then bind_result (deserialize_v0 K L bytes) (\<lambda>(meta, size). Ok (MetaV0 meta, size))
     else if version = PEGIN_META_VERSION_V1
     then bind_result (deserialize_v1 K L bytes) (\<lambda>(meta, size). Ok (MetaV1 meta, size))
     else Err (Invalid ''Invalid pegin meta version''))"

section \<open>Pegouts\<close>

text \<open>Addresses of the bitcoin crate are byte strings, networks its enumeration.\<close>

datatype network = Bitcoin | Testnet | Signet | Regtest

record pegout_data =
  po_amount :: amount
  destination :: "u8 list"
  po_network :: network

record pegout_with_id =
  pw_data :: pegout_data
  pw_id :: pegout_id

datatype pegout_data_error = InvalidPegout string u256

definition pegout_data_version :: u8 where
  "pegout_data_version = 0"

definition new_pegout_data ::
    "(string \<Rightarrow> u8 list option) \<Rightarrow> (u8 list \<Rightarrow> network \<Rightarrow> bool) \<Rightarrow> amount \<Rightarrow> u256 \<Rightarrow> string \<Rightarrow> network \<Rightarrow>
     (pegout_data_error, pegout_data) result" where
  "new_pegout_data address_from_str valid_for_network amount eth_amount address btc_network =
     bind_result (ok_or (InvalidPegout ''Invalid Bitcoin Address'' eth_amount) (address_from_str address)) (\<lambda>dest.
     if \<not> valid_for_network dest btc_network then Err (InvalidPegout ''Address not valid for network'' eth_amount)
     else Ok \<lparr>po_amount = amount, destination = dest, po_network = btc_network\<rparr>)"

end
