(* ===== verification/MintChecks.thy ===== *)
theory MintChecks
  imports PegContract
begin

text \<open>
  The events of the minting contract (\<open>botanix-authority-peg/src/mint_validation.rs\<close>) and the checks on a
  transaction that the block executor makes with them (\<open>botanix_mint_contract_checks\<close> of
  \<open>ethereum/evm/src/execute.rs\<close>). The decoder of the ABI and the hash Keccak are parameters, as are the
  chain database and the consensus package of a block; a formatted error text is the value of its
  arguments. The loop over the metadata is a partial function, since it ends only when each decoded
  proof has a positive size.
\<close>

section \<open>Events\<close>

record evm_log =
  log_address :: eth_addr
  log_topics :: "u8 list list"
  log_data :: "u8 list"

datatype param_type = ParamUint nat | ParamBytes | ParamString | ParamAddress

datatype abi_token = TokenUint u256 | TokenBytes "u8 list" | TokenString string | TokenAddress eth_addr

fun into_uint :: "abi_token \<Rightarrow> u256 option" where
  "into_uint (TokenUint w) = Some w"
| "into_uint _ = None"

fun into_bytes :: "abi_token \<Rightarrow> u8 list option" where
  "into_bytes (TokenBytes b) = Some b"
| "into_bytes _ = None"

fun into_string :: "abi_token \<Rightarrow> string option" where
  "into_string (TokenString s) = Some s"
| "into_string _ = None"

fun into_address :: "abi_token \<Rightarrow> eth_addr option" where
  "into_address (TokenAddress a) = Some a"
| "into_address _ = None"

text \<open>The libraries: the ABI decoder, Keccak, and the addresses of the bitcoin crate.\<close>

record mint_lib =
  abi_decode :: "param_type list \<Rightarrow> u8 list \<Rightarrow> abi_token list option"
  keccak256 :: "string \<Rightarrow> u8 list"
  address_from_str :: "string \<Rightarrow> u8 list option"
  valid_for_network :: "u8 list \<Rightarrow> network \<Rightarrow> bool"

definition MINT_TOPIC :: "mint_lib \<Rightarrow> u8 list" where
  "MINT_TOPIC E = keccak256 E ''Mint(address,uint256,uint32,bytes)''"

definition BURN_TOPIC :: "mint_lib \<Rightarrow> u8 list" where
  "BURN_TOPIC E = keccak256 E ''Burn(address,uint256,bytes,bytes)''"

definition MINT_CONTRACT_ADDRESS :: eth_addr where
  "MINT_CONTRACT_ADDRESS = [0x0e, 0xa3, 0x20, 0x99, 0x0b, 0x44, 0x23, 0x6a, 0x0c, 0xed,
     0x0e, 0xcc, 0x0f, 0xd2, 0xb2, 0xdf, 0x33, 0x07, 0x1e, 0x78]"

datatype event_type = MintingEvent | BurnEvent

definition event_type_try_from :: "mint_lib \<Rightarrow> u8 list \<Rightarrow> (string, event_type) result" where
  "event_type_try_from E value = (if value = MINT_TOPIC E then Ok MintingEvent
     else if value = BURN_TOPIC E then Ok BurnEvent else Err ''Invalid topic'')"

datatype parse_mint_error = MintInvalidLog string | MintInvalidPeginData pegin_data_error eth_addr u256

datatype parse_burn_error = BurnInvalidLog string | BurnInvalidPegoutData pegout_data_error

datatype error_text =
    Text string
  | PeginText pegin_data_error
  | HeightAboveCheckpoint u32 u32
  | AmountNotBelowValue u256 u256
  | ValidationFailed pegin_data_error

datatype mint_contract_error =
    InvalidLog string string
  | InvalidPeginData error_text eth_addr u256
  | InvalidPegoutData pegout_data_error

fun mint_error_from :: "parse_mint_error \<Rightarrow> mint_contract_error" where
  "mint_error_from (MintInvalidLog e) = InvalidLog ''Mint'' e"
| "mint_error_from (MintInvalidPeginData e a w) = InvalidPeginData (PeginText e) a w"

fun burn_error_from :: "parse_burn_error \<Rightarrow> mint_contract_error" where
  "burn_error_from (BurnInvalidLog e) = InvalidLog ''Burn'' e"
| "burn_error_from (BurnInvalidPegoutData e) = InvalidPegoutData e"

definition topic_to_address :: "mint_lib \<Rightarrow> u8 list \<Rightarrow> eth_addr option" where
  "topic_to_address E t = Option.bind (abi_decode E [ParamAddress] t) (\<lambda>tokens.
     case tokens of [] \<Rightarrow> None | x # _ \<Rightarrow> into_address x)"

text \<open>\<open>U256::as_u32\<close> panics when the number does not fit.\<close>

definition as_u32 :: "u256 \<Rightarrow> ('e, u32) result" where
  "as_u32 w = (if w \<le> 4294967295 then Ok (ucast w) else Panic)"

text \<open>The loop over the proofs in the metadata; \<open>outpoints\<close> are those seen so far.\<close>

partial_function (option) parse_proofs ::
    "peg_codec \<Rightarrow> peg_lib \<Rightarrow> eth_addr \<Rightarrow> u256 \<Rightarrow> out_point list \<Rightarrow> pegin_meta list \<Rightarrow> u8 list \<Rightarrow>
     (parse_mint_error, pegin_meta list) result option" where
  "parse_proofs K L account amount outpoints proofs meta_bytes =
     (if meta_bytes = [] then Some (Ok proofs)
      else case deserialize_meta K L meta_bytes of
          Err e \<Rightarrow> Some (Err (MintInvalidPeginData e account amount))
        | Panic \<Rightarrow> Some Panic
        | Ok (proof, proof_size) \<Rightarrow>
            if meta_outpoint proof \<in> set outpoints
            then Some (Err (MintInvalidPeginData (Invalid ''Duplicate outpoints'') account amount))
            else parse_proofs K L account amount (meta_outpoint proof # outpoints) (proofs @ [proof])
                   (drop proof_size meta_bytes))"

definition mint_params ::
    "mint_lib \<Rightarrow> evm_log \<Rightarrow> (parse_mint_error, eth_addr \<times> u256 \<times> u32 \<times> u8 list) result" where
  "mint_params E log =
     (if length (log_topics log) \<noteq> 2 then Err (MintInvalidLog ''wrong number of topics'')
      else bind_result (ok_or (MintInvalidLog ''invalid destination encoding'') (topic_to_address E (log_topics log ! 1))) (\<lambda>account.
      bind_result (ok_or (MintInvalidLog ''invalid payload'') (abi_decode E [ParamUint 256, ParamUint 32, ParamBytes] (log_data log))) (\<lambda>params.
      if length params \<noteq> 3 then Err (MintInvalidLog ''wrong number of params'')
      else bind_result (ok_or (MintInvalidLog ''invalid mint amount params'') (into_uint (params ! 0))) (\<lambda>amount.
      bind_result (ok_or (MintInvalidLog ''parsing bitcoin block height param'') (into_uint (params ! 1))) (\<lambda>height.
      bind_result (as_u32 height) (\<lambda>height.
      bind_result (ok_or (MintInvalidLog ''converting metadata param to bytes'') (into_bytes (params ! 2))) (\<lambda>meta_bytes.
      Ok (account, amount, height, meta_bytes))))))))"

definition try_parse_mint_event ::
    "peg_codec \<Rightarrow> peg_lib \<Rightarrow> mint_lib \<Rightarrow> evm_log \<Rightarrow> (parse_mint_error, pegin_data option) result option" where
  "try_parse_mint_event K L E log =
     (if log_address log \<noteq> MINT_CONTRACT_ADDRESS then Some (Ok None)
      else if log_topics log = [] then Some (Ok None)
      else if log_topics log ! 0 \<noteq> MINT_TOPIC E then Some (Ok None)
      else case mint_params E log of
          Err e \<Rightarrow> Some (Err e)
        | Panic \<Rightarrow> Some Panic
        | Ok (account, amount, height, meta_bytes) \<Rightarrow>
            map_option (\<lambda>r. bind_result r (\<lambda>meta. Ok (Some \<lparr>pd_account = account, pd_amount = amount,
              bitcoin_block_height = height, pd_meta = meta\<rparr>))) (parse_proofs K L account amount [] [] meta_bytes))"

definition try_parse_burn_event ::
    "mint_lib \<Rightarrow> evm_log \<Rightarrow> network \<Rightarrow> (parse_burn_error, pegout_data option) result" where
  "try_parse_burn_event E log btc_network =
     (if log_address log \<noteq> MINT_CONTRACT_ADDRESS then Ok None
      else if log_topics log = [] then Ok None
      else if log_topics log ! 0 \<noteq> BURN_TOPIC E then Ok None
      else if length (log_topics log) \<noteq> 2 then Err (BurnInvalidLog ''wrong number of topics'')
      else bind_result (ok_or (BurnInvalidLog ''invalid payload'') (abi_decode E [ParamUint 256, ParamString, ParamBytes] (log_data log))) (\<lambda>params.
      if length params \<noteq> 3 then Err (BurnInvalidLog ''wrong number of params'')
      else bind_result (ok_or (BurnInvalidLog ''pegout amount'') (into_uint (params ! 0))) (\<lambda>amount.
      bind_result (ok_or (BurnInvalidLog ''invalid amount'') (from_wei_floor amount)) (\<lambda>btc_amount.
      bind_result (ok_or (BurnInvalidLog ''pegout destination'') (into_string (params ! 1))) (\<lambda>dest.
      bind_result (ok_or (BurnInvalidPegoutData (InvalidPegout ''invalid metadata'' amount)) (into_bytes (params ! 2))) (\<lambda>metadata.
      if length metadata \<noteq> 1 then Err (BurnInvalidPegoutData (InvalidPegout ''invalid metadata length'' amount))
      else bind_result (map_err BurnInvalidPegoutData
        (new_pegout_data (address_from_str E) (valid_for_network E) btc_amount amount dest btc_network)) (\<lambda>p. Ok (Some p))))))))"

section \<open>Checks on a transaction\<close>

record consensus_package =
  bitcoin_checkpoint :: "header \<times> u32"
  aggregate_public_key :: pubkey
  btc_network :: network

text \<open>The lookup of a block by its hash, and the checkpoint in the package of that block.\<close>

record 'blk chain_provider =
  find_block_by_hash :: "u8 list \<Rightarrow> (unit, 'blk option) result"
  block_checkpoint :: "'blk \<Rightarrow> (header \<times> u32) option"

definition reference_checkpoint ::
    "'blk chain_provider \<Rightarrow> pegin_data \<Rightarrow> header \<times> u32 \<Rightarrow> (mint_contract_error, header \<times> u32) result" where
  "reference_checkpoint V d checkpoint =
     (let fail = (\<lambda>text. Err (InvalidPeginData (Text text) (pd_account d) (pd_amount d))) in
      case pd_meta d of
        [] \<Rightarrow> fail ''No proofs found in pegin data''
      | meta # _ \<Rightarrow>
          if meta_version meta = 1
          then (case ref_block_hash meta of
              None \<Rightarrow> fail ''Reference block hash cannot be found''
            | Some hash \<Rightarrow> (case find_block_by_hash V hash of
                  Ok (Some block) \<Rightarrow> (case block_checkpoint V block of
                      Some checkpoint \<Rightarrow> Ok checkpoint
                    | None \<Rightarrow> fail ''Failed to get botanix consensus package'')
                | Ok None \<Rightarrow> fail ''No block found for reference block hash''
                | _ \<Rightarrow> Panic))
          else if meta_version meta = 0 \<and> ref_block_hash meta \<noteq> None
          then fail ''Not expecting reference block hash in proof version 0''
          else Ok checkpoint)"

definition check_versions :: "pegin_data \<Rightarrow> (mint_contract_error, unit) result" where
  "check_versions d = fold_result (\<lambda>_ meta.
       if meta_version meta \<noteq> meta_version (hd (pd_meta d))
       then Err (InvalidPeginData (Text ''Proofs have mismatching versions'') (pd_account d) (pd_amount d))
       else if ref_block_hash meta \<noteq> ref_block_hash (hd (pd_meta d))
       then Err (InvalidPeginData (Text ''Proofs have mismatching reference block hashes'') (pd_account d) (pd_amount d))
       else Ok ()) () (pd_meta d)"

definition check_pegin ::
    "peg_lib \<Rightarrow> 'blk chain_provider \<Rightarrow> consensus_package \<Rightarrow> pegin_data \<Rightarrow> (mint_contract_error, unit) result" where
  "check_pegin L V pkg d =
     (let fail = (\<lambda>text. Err (InvalidPeginData text (pd_account d) (pd_amount d))) in
      bind_result (reference_checkpoint V d (bitcoin_checkpoint pkg)) (\<lambda>checkpoint.
      bind_result (check_versions d) (\<lambda>_.
      if bitcoin_block_height d > snd checkpoint
      then fail (HeightAboveCheckpoint (bitcoin_block_height d) (snd checkpoint))
      else case validate_pegin L d checkpoint (aggregate_public_key pkg) of
          Ok aggregate_value \<Rightarrow>
            if pd_amount d \<ge> aggregate_value then fail (AmountNotBelowValue aggregate_value (pd_amount d)) else Ok ()
        | Err e \<Rightarrow> fail (ValidationFailed e)
        | Panic \<Rightarrow> Panic)))"

fun check_mints ::
    "peg_codec \<Rightarrow> peg_lib \<Rightarrow> mint_lib \<Rightarrow> 'blk chain_provider \<Rightarrow> consensus_package \<Rightarrow> evm_log list \<Rightarrow> pegin_data list \<Rightarrow>
     (mint_contract_error, pegin_data list) result option" where
  "check_mints K L E V pkg [] pegins = Some (Ok pegins)"
| "check_mints K L E V pkg (log # logs) pegins = (case try_parse_mint_event K L E log of
       None \<Rightarrow> None
     | Some (Err e) \<Rightarrow> Some (Err (mint_error_from e))
     | Some Panic \<Rightarrow> Some Panic
     | Some (Ok None) \<Rightarrow> check_mints K L E V pkg logs pegins
     | Some (Ok (Some d)) \<Rightarrow> (case check_pegin L V pkg d of
           Ok _ \<Rightarrow> check_mints K L E V pkg logs (pegins @ [d])
         | Err e \<Rightarrow> Some (Err e)
         | Panic \<Rightarrow> Some Panic))"

definition check_burns ::
    "mint_lib \<Rightarrow> consensus_package \<Rightarrow> u8 list \<Rightarrow> evm_log list \<Rightarrow> (mint_contract_error, pegout_with_id list) result" where
  "check_burns E pkg tx_hash logs = fold_result (\<lambda>pegouts (index, log).
     bind_result (map_err burn_error_from (try_parse_burn_event E log (btc_network pkg))) (\<lambda>p. Ok (case p of
         Some d \<Rightarrow> pegouts @ [\<lparr>pw_data = d, pw_id = new_pegout_id tx_hash (of_nat index)\<rparr>]
       | None \<Rightarrow> pegouts))) [] (enumerate 0 logs)"

definition botanix_mint_contract_checks ::
    "peg_codec \<Rightarrow> peg_lib \<Rightarrow> mint_lib \<Rightarrow> 'blk chain_provider \<Rightarrow> consensus_package \<Rightarrow> u8 list \<Rightarrow> evm_log list \<Rightarrow>
     (mint_contract_error, pegin_data list \<times> pegout_with_id list) result option" where
  "botanix_mint_contract_checks K L E V pkg tx_hash logs =
     map_option (\<lambda>r. bind_result r (\<lambda>pegins. bind_result (check_burns E pkg tx_hash logs) (\<lambda>pegouts.
       Ok (pegins, pegouts)))) (check_mints K L E V pkg logs [])"

end
