(* ===== verification/PegProps.thy ===== *)
theory PegProps
  imports MintChecks
begin

text \<open>
  Properties of deposits and withdrawals: accepted deposits are backed by Bitcoin outputs, their proofs
  survive encoding, parsing an event ends, an output index one past the end panics, and burns become
  pegouts with identifiers of their own.
\<close>

section \<open>Validation\<close>

text \<open>What a proof establishes: the block at the height of the deposit is \<open>k\<close> blocks below the checkpoint,
  its transactions include one that pays the address of the account, and a coinbase is mature.\<close>

definition deposit_output :: "pegin_meta \<Rightarrow> tx_out" where
  "deposit_output m = tx_output (pm_tx (meta_v0 m)) ! unat (op_vout (meta_outpoint m))"

definition deposit_proved :: "peg_lib \<Rightarrow> header \<times> u32 \<Rightarrow> pubkey \<Rightarrow> eth_addr \<Rightarrow> nat \<Rightarrow> pegin_meta \<Rightarrow> bool" where
  "deposit_proved L checkpoint pk account height m \<longleftrightarrow>
     (let hs = block_headers (meta_v0 m); tx = pm_tx (meta_v0 m) in
      (\<exists>k. k < length hs \<and> lib_block_hash L (hs ! k) = lib_block_hash L (fst checkpoint) \<and>
         height + k = unat (snd checkpoint) \<and> (lib_is_coinbase L tx \<longrightarrow> 100 \<le> k)) \<and>
      (\<forall>i. Suc i < length hs \<longrightarrow> prev_blockhash (hs ! Suc i) = lib_block_hash L (hs ! i)) \<and>
      (\<exists>txids. lib_extract_matches L (merkle_proof (meta_v0 m)) = Some (hd_merkle_root (hs ! 0), txids) \<and>
         lib_compute_txid L tx \<in> set txids) \<and>
      lib_compute_txid L tx = op_txid (meta_outpoint m) \<and>
      unat (op_vout (meta_outpoint m)) < length (tx_output tx) \<and>
      (\<exists>vk tpk. lib_vk_deserialize L (lib_pk_serialize L pk) = Some vk \<and>
         generate_tweaked_public_key L vk account = Some tpk \<and>
         script_pubkey (deposit_output m) = generate_taproot_scriptpubkey L tpk))"

lemma header_sequence_nth:
  "header_sequence L hs \<Longrightarrow> Suc i < length hs \<Longrightarrow> prev_blockhash (hs ! Suc i) = lib_block_hash L (hs ! i)"
proof (induction L hs arbitrary: i rule: header_sequence.induct)
  case (1 L h h' hs)
  then show ?case by (cases i) auto
qed auto

lemma commitment_depth_nth:
  assumes "list_ex (\<lambda>h. lib_block_hash L h = c) hs"
  shows "commitment_depth L c hs < length hs \<and> lib_block_hash L (hs ! commitment_depth L c hs) = c"
proof -
  let ?P = "\<lambda>h. lib_block_hash L h \<noteq> c"
  let ?n = "length (takeWhile ?P (rev hs))"
  have "\<exists>h \<in> set (rev hs). \<not> ?P h" using assms by (simp add: list_ex_iff)
  then have "takeWhile ?P (rev hs) \<noteq> rev hs" unfolding takeWhile_eq_all_conv by blast
  then have n: "?n < length hs"
    using takeWhile_eq_take [of ?P "rev hs"] length_takeWhile_le [of ?P "rev hs"]
    by (metis le_neq_implies_less length_rev order_refl take_all)
  then have "\<not> ?P (rev hs ! ?n)" using nth_length_takeWhile [of ?P "rev hs"] by simp
  moreover have "rev hs ! ?n = hs ! (length hs - Suc ?n)" using n by (simp add: rev_nth)
  moreover have "commitment_depth L c hs = length hs - Suc ?n"
    by (simp add: commitment_depth_def dropWhile_eq_drop)
  ultimately show ?thesis using n by simp
qed

lemma to_wei_Ok:
  assumes "to_wei a = Ok w"
  shows "unat w = unat a * 10000000000"
proof -
  have "unat a < 2 ^ 256" by (rule order.strict_trans2 [OF unsigned_less]) simp
  then have "unat (ucast a :: u256) = unat a" by (simp add: unsigned_ucast_eq take_bit_nat_eq_self)
  then show ?thesis using assms by (simp add: to_wei_def SATOSHI_IN_WEI_def result_simps uint_simps)
qed

lemma height_below_checkpoint:
  fixes h c :: u32
  assumes "c - of_nat k = h" and "h \<le> c" and "k < 2 ^ 32"
  shows "unat h + k = unat c"
proof -
  have k: "unat (of_nat k :: u32) = k" using assms(3) by (simp add: unsigned_of_nat take_bit_nat_eq_self)
  have c: "c = h + of_nat k" using assms(1) by auto
  have sum: "unat c = (unat h + k) mod 2 ^ 32" unfolding c by (simp add: unat_word_ariths k)
  show ?thesis
  proof (rule ccontr)
    assume "unat h + k \<noteq> unat c"
    then have "2 ^ 32 \<le> unat h + k" using sum by (metis mod_less not_le)
    moreover have "unat h < 2 ^ LENGTH(32)" by (rule unsigned_less)
    moreover have "unat h + k < 2 ^ 32 + 2 ^ 32" using assms(3) calculation(2) by simp
    ultimately have "unat c = unat h + k - 2 ^ 32" using sum by (simp add: mod_if)
    then show False using assms(2,3) \<open>2 ^ 32 \<le> unat h + k\<close> by (simp add: word_le_nat_alt)
  qed
qed

lemma validate_proof_Ok:
  assumes ok: "validate_proof L ck pk d acc m = Ok v" and short: "length (block_headers (meta_v0 m)) \<le> 2016"
    and height: "bitcoin_block_height d \<le> snd ck"
  shows "deposit_proved L ck pk (pd_account d) (unat (bitcoin_block_height d)) m \<and>
    unat v = unat acc + unat (txo_value (deposit_output m)) * 10000000000"
proof -
  let ?hs = "block_headers (meta_v0 m)" and ?c = "lib_block_hash L (fst ck)" and ?tx = "pm_tx (meta_v0 m)"
  let ?k = "commitment_depth L ?c ?hs" and ?i = "unat (op_vout (pm_outpoint (meta_v0 m)))"
  obtain root txids vk tpk w where
    has: "list_ex (\<lambda>h. lib_block_hash L h = ?c) ?hs"
    and merkle: "lib_extract_matches L (merkle_proof (meta_v0 m)) = Some (root, txids)"
      "op_txid (pm_outpoint (meta_v0 m)) \<in> set txids" "?hs \<noteq> []" "hd_merkle_root (hd ?hs) = root"
    and tx: "lib_compute_txid L ?tx = op_txid (pm_outpoint (meta_v0 m))" "?i < length (tx_output ?tx)"
    and key: "lib_vk_deserialize L (lib_pk_serialize L pk) = Some vk" "generate_tweaked_public_key L vk (pd_account d) = Some tpk"
      "generate_taproot_scriptpubkey L tpk = script_pubkey (tx_output ?tx ! ?i)"
    and wei: "to_wei (txo_value (tx_output ?tx ! ?i)) = (Ok w :: (pegin_data_error, u256) result)" "checked_add acc w = Some v"
    and chain: "header_sequence L ?hs" "snd ck - of_nat ?k = bitcoin_block_height d"
      "lib_is_coinbase L ?tx \<longrightarrow> \<not> (of_nat ?k :: u32) < COINBASE_MATURITY"
    using ok by (auto simp: validate_proof_def Let_def result_simps split: if_splits)
  note k = commitment_depth_nth [OF has]
  have k32: "?k < 2 ^ 32" using k short by simp
  then have "unat (of_nat ?k :: u32) = ?k" by (simp add: unsigned_of_nat take_bit_nat_eq_self)
  then have "lib_is_coinbase L ?tx \<longrightarrow> 100 \<le> ?k"
    using chain(3) by (auto simp: COINBASE_MATURITY_def word_less_nat_alt)
  moreover have "unat (bitcoin_block_height d) + ?k = unat (snd ck)"
    using chain(2) height k32 by (rule height_below_checkpoint)
  ultimately have "deposit_proved L ck pk (pd_account d) (unat (bitcoin_block_height d)) m"
    unfolding deposit_proved_def Let_def
    using k merkle tx key header_sequence_nth [OF chain(1)]
    by (intro conjI exI [of _ ?k] exI [of _ txids] exI [of _ vk] exI [of _ tpk])
      (auto simp: deposit_output_def meta_outpoint_def hd_conv_nth)
  moreover have "unat v = unat acc + unat (txo_value (deposit_output m)) * 10000000000"
    using to_wei_Ok [OF wei(1)] wei(2) by (simp add: uint_simps deposit_output_def meta_outpoint_def)
  ultimately show ?thesis by blast
qed

lemma validate_proofs_Ok:
  assumes "fold_result (validate_proof L ck pk d) acc ms = Ok v"
    and "\<And>m. m \<in> set ms \<Longrightarrow> length (block_headers (meta_v0 m)) \<le> 2016" and "bitcoin_block_height d \<le> snd ck"
  shows "(\<forall>m \<in> set ms. deposit_proved L ck pk (pd_account d) (unat (bitcoin_block_height d)) m) \<and>
    unat v = unat acc + (\<Sum>m\<leftarrow>ms. unat (txo_value (deposit_output m)) * 10000000000)"
  using assms(1,2)
proof (induction ms arbitrary: acc)
  case (Cons m ms)
  then obtain a where a: "validate_proof L ck pk d acc m = Ok a" "fold_result (validate_proof L ck pk d) a ms = Ok v"
    by (auto simp: result_simps)
  have "deposit_proved L ck pk (pd_account d) (unat (bitcoin_block_height d)) m \<and>
      unat a = unat acc + unat (txo_value (deposit_output m)) * 10000000000"
    using a(1) Cons.prems(2) assms(3) by (intro validate_proof_Ok) auto
  with Cons.IH [OF a(2)] Cons.prems(2) show ?case by simp
qed simp

section \<open>Events\<close>

lemma decode_headers_length: "decode_headers K n bs = Some (hs, bs') \<Longrightarrow> length hs = n"
  by (induction n arbitrary: bs hs) (auto split: option.splits prod.splits)

lemma deserialize_v0_short:
  assumes "deserialize_v0 K L bytes = Ok (m, n)"
  shows "length (block_headers m) \<le> 2016"
proof -
  obtain len bs bs' where "\<not> len > MAX_BITCOIN_BLOCK_HEADERS" "decode_headers K (unat len) bs = Some (block_headers m, bs')"
    using assms by (auto simp: deserialize_v0_def Let_def result_simps split: if_splits)
  then show ?thesis
    by (auto simp: MAX_BITCOIN_BLOCK_HEADERS_def word_less_nat_alt dest: decode_headers_length)
qed

lemma deserialize_meta_short:
  "deserialize_meta K L bytes = Ok (m, n) \<Longrightarrow> length (block_headers (meta_v0 m)) \<le> 2016"
  by (auto simp: deserialize_meta_def deserialize_v1_def Let_def result_simps split: if_splits dest: deserialize_v0_short)

lemma parse_proofs_result:
  assumes "parse_proofs K L account amount outpoints proofs bs = Some (Ok ms)"
    and "set outpoints = meta_outpoint ` set proofs" and "distinct (map meta_outpoint proofs)"
    and "\<And>m. m \<in> set proofs \<Longrightarrow> length (block_headers (meta_v0 m)) \<le> 2016"
  shows "distinct (map meta_outpoint ms) \<and> (\<forall>m \<in> set ms. length (block_headers (meta_v0 m)) \<le> 2016)"
proof -
  have "set outpoints = meta_outpoint ` set proofs \<longrightarrow> distinct (map meta_outpoint proofs) \<longrightarrow>
      (\<forall>m \<in> set proofs. length (block_headers (meta_v0 m)) \<le> 2016) \<longrightarrow> (\<forall>ms. r = Ok ms \<longrightarrow>
      distinct (map meta_outpoint ms) \<and> (\<forall>m \<in> set ms. length (block_headers (meta_v0 m)) \<le> 2016))"
    if "parse_proofs K L account amount outpoints proofs bs = Some r" for r
    using that
  proof (rule parse_proofs.raw_induct [rotated], goal_cases)
    case (1 parse_proofs K L account amount outpoints proofs bs r)
    show ?case
    proof (cases "bs = []")
      case False
      show ?thesis
      proof (cases "deserialize_meta K L bs")
        case (Ok x)
        obtain m n where x: "x = (m, n)" by fastforce
        have "length (block_headers (meta_v0 m)) \<le> 2016" using Ok x by (intro deserialize_meta_short) simp
        then show ?thesis
          using 1(1) [of K L account amount "meta_outpoint m # outpoints" "proofs @ [m]" "drop n bs" r] 1(2) False Ok x
          by (auto split: if_splits)
      qed (use 1(2) False in \<open>auto\<close>)
    qed (use 1(2) in auto)
  qed
  then show ?thesis using assms by blast
qed

lemma parse_mint_result:
  assumes "try_parse_mint_event K L E log = Some (Ok (Some d))"
  shows "distinct (map meta_outpoint (pd_meta d)) \<and> (\<forall>m \<in> set (pd_meta d). length (block_headers (meta_v0 m)) \<le> 2016)"
proof -
  obtain account amount bs where "parse_proofs K L account amount [] [] bs = Some (Ok (pd_meta d))"
    using assms by (auto simp: try_parse_mint_event_def result_simps split: if_splits result.splits prod.splits)
  then show ?thesis by (rule parse_proofs_result) simp_all
qed

section \<open>Checks on a transaction\<close>

text \<open>A deposit is backed: its proofs are of different outputs, each proved from the checkpoint \<open>ck\<close>, which
  together hold more than the amount that is minted.\<close>

definition backed :: "peg_lib \<Rightarrow> header \<times> u32 \<Rightarrow> pubkey \<Rightarrow> pegin_data \<Rightarrow> bool" where
  "backed L ck pk d \<longleftrightarrow> pd_meta d \<noteq> [] \<and> distinct (map meta_outpoint (pd_meta d)) \<and>
     (\<forall>m \<in> set (pd_meta d). deposit_proved L ck pk (pd_account d) (unat (bitcoin_block_height d)) m) \<and>
     unat (pd_amount d) < (\<Sum>m\<leftarrow>pd_meta d. unat (txo_value (deposit_output m)) * 10000000000)"

text \<open>The checkpoint a deposit is proved from: that of the block it refers to, or that of the block being
  executed when its version has no reference.\<close>

definition known_checkpoint :: "'blk chain_provider \<Rightarrow> consensus_package \<Rightarrow> pegin_data \<Rightarrow> header \<times> u32 \<Rightarrow> bool" where
  "known_checkpoint V pkg d ck \<longleftrightarrow>
     (if meta_version (hd (pd_meta d)) = 1
      then \<exists>hash block. ref_block_hash (hd (pd_meta d)) = Some hash \<and>
        find_block_by_hash V hash = Ok (Some block) \<and> block_checkpoint V block = Some ck
      else ck = bitcoin_checkpoint pkg)"

lemma reference_checkpoint_Ok:
  "reference_checkpoint V d (bitcoin_checkpoint pkg) = Ok ck \<Longrightarrow> pd_meta d \<noteq> [] \<and> known_checkpoint V pkg d ck"
  by (auto simp: reference_checkpoint_def known_checkpoint_def Let_def
      split: list.splits if_splits option.splits result.splits)

lemma check_pegin_Ok:
  assumes "check_pegin L V pkg d = Ok u" and "try_parse_mint_event K L E log = Some (Ok (Some d))"
  shows "\<exists>ck. known_checkpoint V pkg d ck \<and> backed L ck (aggregate_public_key pkg) d"
proof -
  obtain ck v where ck: "reference_checkpoint V d (bitcoin_checkpoint pkg) = Ok ck" "bitcoin_block_height d \<le> snd ck"
    and v: "validate_pegin L d ck (aggregate_public_key pkg) = Ok v" "\<not> v \<le> pd_amount d"
    using assms(1) by (auto simp: check_pegin_def Let_def result_simps split: if_splits result.splits)
  note parsed = parse_mint_result [OF assms(2)]
  have "(\<forall>m \<in> set (pd_meta d). deposit_proved L ck (aggregate_public_key pkg) (pd_account d) (unat (bitcoin_block_height d)) m) \<and>
      unat v = unat (0 :: u256) + (\<Sum>m\<leftarrow>pd_meta d. unat (txo_value (deposit_output m)) * 10000000000)"
    using v(1) parsed ck(2) unfolding validate_pegin_def by (intro validate_proofs_Ok) auto
  then show ?thesis
    using reference_checkpoint_Ok [OF ck(1)] parsed v(2)
    by (intro exI [of _ ck]) (simp add: backed_def word_le_nat_alt not_le)
qed

lemma check_mints_Ok:
  assumes "check_mints K L E V pkg logs acc = Some (Ok pegins)" and "d \<in> set pegins" and "d \<notin> set acc"
  shows "\<exists>ck. known_checkpoint V pkg d ck \<and> backed L ck (aggregate_public_key pkg) d"
  using assms
proof (induction K L E V pkg logs acc rule: check_mints.induct)
  case (2 K L E V pkg log logs acc)
  show ?case
  proof (cases "\<exists>x. try_parse_mint_event K L E log = Some (Ok (Some x)) \<and> check_pegin L V pkg x = Ok ()")
    case True
    then obtain x where x: "try_parse_mint_event K L E log = Some (Ok (Some x))" "check_pegin L V pkg x = Ok ()" by blast
    show ?thesis
    proof (cases "d = x")
      case False
      then show ?thesis using "2.IH"(2) [OF x(1) refl refl x(2)] "2.prems" x by simp
    qed (use check_pegin_Ok [OF x(2,1)] in blast)
  next
    case False
    then have "try_parse_mint_event K L E log = Some (Ok None)"
      using "2.prems"(1) by (auto split: option.splits result.splits)
    then show ?thesis using "2.IH"(1) "2.prems" by simp
  qed
qed simp

lemma enumerate_append: "enumerate n (xs @ ys) = enumerate n xs @ enumerate (n + length xs) ys"
  by (induction xs arbitrary: n) auto

text \<open>The pegouts of the burn events among the logs.\<close>

definition burn_pegouts :: "mint_lib \<Rightarrow> network \<Rightarrow> u8 list \<Rightarrow> (nat \<times> evm_log) list \<Rightarrow> pegout_with_id list" where
  "burn_pegouts E net tx_hash logs = List.map_filter (\<lambda>(index, log). case try_parse_burn_event E log net of
       Ok (Some d) \<Rightarrow> Some \<lparr>pw_data = d, pw_id = new_pegout_id tx_hash (of_nat index)\<rparr> | _ \<Rightarrow> None) logs"

lemma check_burns_fold:
  assumes "fold_result (\<lambda>pegouts (index, log).
     bind_result (map_err burn_error_from (try_parse_burn_event E log (btc_network pkg))) (\<lambda>p. Ok (case p of
         Some d \<Rightarrow> pegouts @ [\<lparr>pw_data = d, pw_id = new_pegout_id tx_hash (of_nat index)\<rparr>]
       | None \<Rightarrow> pegouts))) acc xs = Ok pegouts"
  shows "pegouts = acc @ burn_pegouts E (btc_network pkg) tx_hash xs"
  using assms
proof (induction xs arbitrary: acc)
  case (Cons x xs)
  obtain index log where x: "x = (index, log)" by fastforce
  obtain p where p: "try_parse_burn_event E log (btc_network pkg) = Ok p"
    using Cons.prems x by (cases "try_parse_burn_event E log (btc_network pkg)") auto
  show ?case
  proof (cases p)
    case (Some d)
    let ?w = "\<lparr>pw_data = d, pw_id = new_pegout_id tx_hash (of_nat index)\<rparr>"
    have "pegouts = (acc @ [?w]) @ burn_pegouts E (btc_network pkg) tx_hash xs"
      using Cons.prems x p Some by (intro Cons.IH) simp
    then show ?thesis using x p Some by (simp add: burn_pegouts_def List.map_filter_simps)
  qed (use Cons.prems Cons.IH x p in \<open>simp add: burn_pegouts_def List.map_filter_simps\<close>)
qed (simp add: burn_pegouts_def List.map_filter_simps)

lemma burn_ids:
  assumes "n + length logs \<le> 2 ^ 32"
  shows "pw_id ` set (burn_pegouts E net tx_hash (enumerate n logs)) \<subseteq>
      (\<lambda>k. new_pegout_id tx_hash (of_nat k)) ` {n..<n + length logs} \<and>
    distinct (map pw_id (burn_pegouts E net tx_hash (enumerate n logs)))"
  using assms
proof (induction logs arbitrary: n)
  case (Cons log logs)
  have IH: "pw_id ` set (burn_pegouts E net tx_hash (enumerate (Suc n) logs)) \<subseteq>
      (\<lambda>k. new_pegout_id tx_hash (of_nat k)) ` {Suc n..<Suc n + length logs}"
    "distinct (map pw_id (burn_pegouts E net tx_hash (enumerate (Suc n) logs)))"
    using Cons.IH [of "Suc n"] Cons.prems by simp_all
  have "(of_nat n :: u32) \<noteq> of_nat k" if "k \<in> {Suc n..<Suc n + length logs}" for k
  proof
    assume "(of_nat n :: u32) = of_nat k"
    then have "unat (of_nat n :: u32) = unat (of_nat k :: u32)" by simp
    then show False using that Cons.prems by (simp add: unsigned_of_nat take_bit_nat_eq_self)
  qed
  then have "new_pegout_id tx_hash (of_nat n) \<notin> (\<lambda>k. new_pegout_id tx_hash (of_nat k)) ` {Suc n..<Suc n + length logs}"
    unfolding new_pegout_id_def by (metis (no_types, lifting) imageE pegout_id.ext_inject)
  then have new: "new_pegout_id tx_hash (of_nat n) \<notin> pw_id ` set (burn_pegouts E net tx_hash (enumerate (Suc n) logs))"
    using IH(1) by blast
  have sub: "(\<lambda>k. new_pegout_id tx_hash (of_nat k)) ` {Suc n..<Suc n + length logs} \<subseteq>
      (\<lambda>k. new_pegout_id tx_hash (of_nat k)) ` {n..<n + length (log # logs)}"
    by (rule image_mono) auto
  show ?case
  proof (cases "\<exists>d. try_parse_burn_event E log net = Ok (Some d)")
    case True
    then obtain d where "try_parse_burn_event E log net = Ok (Some d)" by blast
    then have "burn_pegouts E net tx_hash (enumerate n (log # logs)) =
        \<lparr>pw_data = d, pw_id = new_pegout_id tx_hash (of_nat n)\<rparr> # burn_pegouts E net tx_hash (enumerate (Suc n) logs)"
      by (simp add: burn_pegouts_def List.map_filter_simps)
    then show ?thesis using IH new sub by auto
  next
    case False
    then have "burn_pegouts E net tx_hash (enumerate n (log # logs)) = burn_pegouts E net tx_hash (enumerate (Suc n) logs)"
      by (auto simp: burn_pegouts_def List.map_filter_simps split: result.split option.split)
    then show ?thesis using IH sub by auto
  qed
qed (simp add: burn_pegouts_def List.map_filter_simps)

lemma from_wei_floor_unat:
  assumes "from_wei_floor wei = Some a"
  shows "unat a = unat wei div 10000000000"
proof -
  have "unat (wei div SATOSHI_IN_WEI) = unat wei div 10000000000"
    by (simp add: SATOSHI_IN_WEI_def unat_div)
  moreover have "unat (wei div SATOSHI_IN_WEI) \<le> 18446744073709551615" "a = ucast (wei div SATOSHI_IN_WEI)"
    using assms by (auto simp: from_wei_floor_def Let_def MAX_SATOSHI_def word_le_nat_alt split: if_splits)
  ultimately show ?thesis by (simp add: unsigned_ucast_eq take_bit_nat_eq_self)
qed

lemma burn_event_amount:
  assumes "try_parse_burn_event E log net = Ok (Some d)"
  shows "\<exists>wei x y. abi_decode E [ParamUint 256, ParamString, ParamBytes] (log_data log) = Some [TokenUint wei, x, y] \<and>
    unat (po_amount d) = unat wei div 10000000000"
proof -
  obtain params wei a where p: "abi_decode E [ParamUint 256, ParamString, ParamBytes] (log_data log) = Some params"
      "length params = 3" "into_uint (params ! 0) = Some wei" "from_wei_floor wei = Some a" "po_amount d = a"
    using assms by (auto simp: try_parse_burn_event_def new_pegout_data_def result_simps split: if_splits)
  then obtain t x y where "params = [t, x, y]" by (auto simp: numeral_eq_Suc length_Suc_conv)
  moreover have "t = TokenUint wei" using p(3) calculation by (cases t) auto
  ultimately show ?thesis using p from_wei_floor_unat [OF p(4)] by blast
qed

lemma burn_pegouts_logs:
  "w \<in> set (burn_pegouts E net tx_hash (enumerate n logs)) \<Longrightarrow> \<exists>log \<in> set logs. try_parse_burn_event E log net = Ok (Some (pw_data w))"
  by (induction logs arbitrary: n) (auto simp: burn_pegouts_def List.map_filter_simps split: result.splits option.splits)

section \<open>Encoding\<close>

text \<open>The encodings of the crates: what was written is read back, whatever follows; a header takes 80 bytes
  and a compressed key 33.\<close>

definition reads :: "('a \<Rightarrow> u8 list) \<Rightarrow> 'a decoder \<Rightarrow> 'a \<Rightarrow> bool" where
  "reads enc dec x \<longleftrightarrow> (\<forall>rest. dec (enc x @ rest) = Some (x, rest))"

definition peg_codec_ok :: "peg_codec \<Rightarrow> peg_lib \<Rightarrow> pegin_meta_v0 \<Rightarrow> bool" where
  "peg_codec_ok K L m \<longleftrightarrow> reads (enc_u32 K) (dec_u32 K) (pm_version m) \<and> reads (enc_outpoint K) (dec_outpoint K) (pm_outpoint m) \<and>
     reads (enc_varint K) (dec_varint K) (of_nat (length (block_headers m))) \<and>
     (\<forall>h \<in> set (block_headers m). reads (enc_header K) (dec_header K) h \<and> length (enc_header K h) = 80) \<and>
     reads (enc_merkle K) (dec_merkle K) (merkle_proof m) \<and> reads (enc_tx K) (dec_tx K) (pm_tx m) \<and>
     length (lib_pk_serialize L (aggregate_publickey m)) = 33 \<and>
     lib_pk_from_slice L (lib_pk_serialize L (aggregate_publickey m)) = Some (aggregate_publickey m)"

text \<open>A well-formed proof: the version that its constructor says, an address of 20 bytes, at most 2016 headers
  and a reference hash of 32 bytes.\<close>

definition meta_v0_ok :: "pegin_meta_v0 \<Rightarrow> bool" where
  "meta_v0_ok m \<longleftrightarrow> length (pm_address m) = 20 \<and> length (block_headers m) \<le> 2016"

fun meta_ok :: "pegin_meta \<Rightarrow> bool" where
  "meta_ok (MetaV0 m) \<longleftrightarrow> pm_version m = 0 \<and> meta_v0_ok m"
| "meta_ok (MetaV1 m) \<longleftrightarrow> pm_version (pm_inner m) = 1 \<and> meta_v0_ok (pm_inner m) \<and> length (pm_ref_block_hash m) = 32"

lemma decode_headers_concat:
  assumes "\<And>h. h \<in> set hs \<Longrightarrow> reads (enc_header K) (dec_header K) h"
  shows "decode_headers K (length hs) (concat (map (enc_header K) hs) @ rest) = Some (hs, rest)"
  using assms by (induction hs) (simp_all add: reads_def)

lemma length_headers:
  "(\<And>h. h \<in> set hs \<Longrightarrow> length (enc_header K h) = 80) \<Longrightarrow> length (concat (map (enc_header K) hs)) = 80 * length hs"
  by (induction hs) auto

lemma read_slice_append: "length a = n \<Longrightarrow> read_slice n (a @ rest) = Some (a, rest)"
  by (simp add: read_slice_def)

lemma deserialize_v0_serialize:
  assumes "peg_codec_ok K L m" and "meta_v0_ok m"
  shows "deserialize_v0 K L (serialize_v0 K L m @ rest) = Ok (m, length (serialize_v0 K L m))"
proof -
  let ?n = "length (block_headers m)"
  have n: "unat (of_nat ?n :: u64) = ?n"
    using assms(2) by (simp add: meta_v0_ok_def unsigned_of_nat take_bit_nat_eq_self)
  have "\<not> (of_nat ?n :: u64) > MAX_BITCOIN_BLOCK_HEADERS"
    using assms(2) n by (simp add: MAX_BITCOIN_BLOCK_HEADERS_def meta_v0_ok_def word_less_nat_alt)
  moreover have "\<not> (length (concat (map (enc_header K) (block_headers m))) + k) div BITCOIN_HEADER_SIZE < ?n" for k
    using assms(1) by (simp add: BITCOIN_HEADER_SIZE_def peg_codec_ok_def length_headers)
  ultimately show ?thesis
    using assms decode_headers_concat [of "block_headers m" K]
    by (simp add: deserialize_v0_def serialize_v0_def Let_def peg_codec_ok_def reads_def meta_v0_ok_def read_slice_append n)
qed

lemma deserialize_v1_serialize:
  assumes "peg_codec_ok K L (pm_inner m)" and "meta_v0_ok (pm_inner m)" and "length (pm_ref_block_hash m) = 32"
  shows "deserialize_v1 K L (serialize_v1 K L m @ rest) = Ok (m, length (serialize_v1 K L m))"
  using assms deserialize_v0_serialize [OF assms(1,2), of "pm_ref_block_hash m @ rest"]
  by (simp add: deserialize_v1_def serialize_v1_def Let_def read_slice_append)

lemma deserialize_meta_serialize:
  assumes "peg_codec_ok K L (meta_v0 m)" and "meta_ok m"
  shows "deserialize_meta K L (serialize_meta K L m @ rest) = Ok (m, length (serialize_meta K L m))"
proof (cases m)
  case (MetaV0 x)
  have "dec_u32 K (serialize_v0 K L x @ rest) = Some (pm_version x, drop (length (enc_u32 K (pm_version x))) (serialize_v0 K L x @ rest))"
    using assms(1) MetaV0 by (simp add: peg_codec_ok_def reads_def serialize_v0_def)
  then show ?thesis
    using assms MetaV0 deserialize_v0_serialize [of K L x rest]
    by (simp add: deserialize_meta_def PEGIN_META_VERSION_V0_def)
next
  case (MetaV1 x)
  have "dec_u32 K (serialize_v1 K L x @ rest) =
      Some (pm_version (pm_inner x), drop (length (enc_u32 K (pm_version (pm_inner x)))) (serialize_v1 K L x @ rest))"
    using assms(1) MetaV1 by (simp add: peg_codec_ok_def reads_def serialize_v1_def serialize_v0_def)
  then show ?thesis
    using assms MetaV1 deserialize_v1_serialize [of K L x rest]
    by (simp add: deserialize_meta_def PEGIN_META_VERSION_V0_def PEGIN_META_VERSION_V1_def)
qed

lemma serialize_meta_nonempty: "peg_codec_ok K L (meta_v0 m) \<Longrightarrow> serialize_meta K L m \<noteq> []"
  by (cases m) (auto simp: peg_codec_ok_def serialize_v0_def serialize_v1_def)

lemma parse_proofs_serialized:
  assumes "\<And>m. m \<in> set ms \<Longrightarrow> peg_codec_ok K L (meta_v0 m) \<and> meta_ok m" and "distinct (map meta_outpoint ms)"
    and "set outpoints \<inter> meta_outpoint ` set ms = {}"
  shows "parse_proofs K L account amount outpoints proofs (concat (map (serialize_meta K L) ms)) = Some (Ok (proofs @ ms))"
  using assms
proof (induction ms arbitrary: outpoints proofs)
  case (Cons m ms)
  let ?rest = "concat (map (serialize_meta K L) ms)"
  have "deserialize_meta K L (serialize_meta K L m @ ?rest) = Ok (m, length (serialize_meta K L m))"
    using Cons.prems(1) by (simp add: deserialize_meta_serialize)
  then show ?case
    using Cons serialize_meta_nonempty [of K L m]
    by (subst parse_proofs.simps) auto
qed (subst parse_proofs.simps, simp)

text \<open>The decoders take bytes from the front of what they are given, and a version takes at least one.\<close>

definition consumes :: "'a decoder \<Rightarrow> nat \<Rightarrow> bool" where
  "consumes dec n \<longleftrightarrow> (\<forall>bs x rest. dec bs = Some (x, rest) \<longrightarrow> length rest + n \<le> length bs)"

definition peg_codec_consumes :: "peg_codec \<Rightarrow> bool" where
  "peg_codec_consumes K \<longleftrightarrow> consumes (dec_u32 K) 4 \<and> consumes (dec_outpoint K) 0 \<and> consumes (dec_varint K) 0 \<and>
     consumes (dec_header K) 0 \<and> consumes (dec_merkle K) 0 \<and> consumes (dec_tx K) 0"

lemma decode_headers_consumes: "consumes (dec_header K) 0 \<Longrightarrow> decode_headers K n bs = Some (hs, rest) \<Longrightarrow> length rest \<le> length bs"
  by (induction n arbitrary: bs hs) (fastforce simp: consumes_def split: option.splits prod.splits)+

lemma deserialize_v0_size:
  assumes "peg_codec_consumes K" and "deserialize_v0 K L bs = Ok (m, n)"
  shows "0 < n \<and> n \<le> length bs"
proof -
  obtain v b1 o' b2 a b3 p b4 l b5 hs b6 mt b7 tx b8 where
    "dec_u32 K bs = Some (v, b1)" "dec_outpoint K b1 = Some (o', b2)" "read_slice 20 b2 = Some (a, b3)"
    "read_slice 33 b3 = Some (p, b4)" "dec_varint K b4 = Some (l, b5)" "decode_headers K (unat l) b5 = Some (hs, b6)"
    "dec_merkle K b6 = Some (mt, b7)" "dec_tx K b7 = Some (tx, b8)" "n = length bs - length b8"
    using assms(2) by (auto simp: deserialize_v0_def Let_def result_simps split: if_splits)
  moreover from this have "length b3 \<le> length b2" "length b4 \<le> length b3"
    by (auto simp: read_slice_def split: if_splits)
  moreover from calculation have "length b6 \<le> length b5"
    using assms(1) by (auto simp: peg_codec_consumes_def intro: decode_headers_consumes)
  ultimately have "length b8 \<le> length b7" "length b7 \<le> length b6" "length b6 \<le> length b5" "length b5 \<le> length b4"
      "length b4 \<le> length b3" "length b3 \<le> length b2" "length b2 \<le> length b1" "length b1 + 4 \<le> length bs" "n = length bs - length b8"
    using assms(1) unfolding peg_codec_consumes_def
    by (auto simp: consumes_def)
  then show ?thesis by linarith
qed

lemma deserialize_meta_size:
  assumes "peg_codec_consumes K" and "deserialize_meta K L bs = Ok (m, n)"
  shows "0 < n \<and> n \<le> length bs"
proof -
  have "0 < n \<and> n \<le> length bs" if v1: "deserialize_v1 K L bs = Ok (x, n)" for x
  proof -
    obtain i k h b where "deserialize_v0 K L bs = Ok (i, k)" "read_slice 32 (drop k bs) = Some (h, b)" "n = length bs - length b"
      using v1 by (auto simp: deserialize_v1_def Let_def result_simps)
    then show ?thesis
      using deserialize_v0_size [OF assms(1), of L bs i k] by (auto simp: read_slice_def split: if_splits)
  qed
  then show ?thesis
    using assms(2) deserialize_v0_size [OF assms(1)]
    by (auto simp: deserialize_meta_def result_simps split: if_splits)
qed

lemma parse_proofs_returns:
  assumes "peg_codec_consumes K"
  shows "\<exists>r. parse_proofs K L account amount outpoints proofs bs = Some r"
proof (induction "length bs" arbitrary: outpoints proofs bs rule: less_induct)
  case less
  show ?case
  proof (cases "bs = [] \<or> (\<forall>x. deserialize_meta K L bs \<noteq> Ok x)")
    case True
    then show ?thesis by (subst parse_proofs.simps) (auto split: result.split)
  next
    case False
    then obtain m n where m: "deserialize_meta K L bs = Ok (m, n)" "bs \<noteq> []" by fastforce
    then have "length (drop n bs) < length bs" using deserialize_meta_size [OF assms] by fastforce
    then show ?thesis using less.hyps m by (subst parse_proofs.simps) auto
  qed
qed

section \<open>Properties\<close>

text \<open>(C1) A transaction is accepted only when the deposits it mints are backed: every mint event that passes
  the checks comes with proofs of different Bitcoin outputs, each in a transaction of the block at the
  claimed height, which hashes link to the checkpoint of this block or of the referenced one, each paying
  the address derived for the account, and together holding more than the amount that is minted.\<close>

theorem accepted_pegins_are_backed:
  assumes "botanix_mint_contract_checks K L E V pkg tx_hash logs = Some (Ok (pegins, pegouts))" and "d \<in> set pegins"
  shows "\<exists>checkpoint. known_checkpoint V pkg d checkpoint \<and> backed L checkpoint (aggregate_public_key pkg) d"
proof -
  have "check_mints K L E V pkg logs [] = Some (Ok pegins)"
    using assms(1) by (auto simp: botanix_mint_contract_checks_def result_simps)
  then show ?thesis using assms(2) by (rule check_mints_Ok) simp
qed

text \<open>(C16) Proofs survive the way to the chain: parsing the concatenated encodings of proofs of different
  outputs returns exactly these proofs. The hypotheses are that the encodings of the crates can be read
  back and that the proofs are within the limits of the format.\<close>

theorem mint_metadata_roundtrip:
  assumes "\<And>m. m \<in> set ms \<Longrightarrow> peg_codec_ok K L (meta_v0 m) \<and> meta_ok m" and "distinct (map meta_outpoint ms)"
    and "log_address log = MINT_CONTRACT_ADDRESS" and "log_topics log \<noteq> []" and "log_topics log ! 0 = MINT_TOPIC E"
    and "mint_params E log = Ok (account, amount, height, concat (map (serialize_meta K L) ms))"
  shows "try_parse_mint_event K L E log = Some (Ok (Some \<lparr>pd_account = account, pd_amount = amount,
    bitcoin_block_height = height, pd_meta = ms\<rparr>))"
  using assms(3-) parse_proofs_serialized [OF assms(1,2), of "[]" account amount "[]"]
  by (simp add: try_parse_mint_event_def)

text \<open>(C15) Checking a transaction always ends: when decoders only take bytes from the front, four for a version,
  the loop over the metadata of every mint event returns, whatever the metadata.\<close>

theorem mint_checks_return:
  assumes "peg_codec_consumes K"
  shows "\<exists>r. botanix_mint_contract_checks K L E V pkg tx_hash logs = Some r"
proof -
  have parse: "\<exists>r. try_parse_mint_event K L E log = Some r" for log
    using parse_proofs_returns [OF assms]
    by (auto simp: try_parse_mint_event_def split: result.split)
  have "\<exists>r. check_mints K L E V pkg logs pegins = Some r" for pegins
  proof (induction logs arbitrary: pegins)
    case (Cons log logs)
    then show ?case
      using parse [of log] by (auto split: result.split option.split)
  qed simp
  then show ?thesis by (auto simp: botanix_mint_contract_checks_def)
qed

text \<open>(C17) Burns become pegouts one for one: the accepted pegouts are those of the burn events in the order of
  the logs, their identifiers, the hash of the transaction and the index of the log, are all different, and
  each pays the burnt amount rounded down to a satoshi.\<close>

theorem burns_become_pegouts:
  assumes "botanix_mint_contract_checks K L E V pkg tx_hash logs = Some (Ok (pegins, pegouts))" and "length logs \<le> 2 ^ 32"
  shows "pegouts = burn_pegouts E (btc_network pkg) tx_hash (enumerate 0 logs) \<and> distinct (map pw_id pegouts) \<and>
    (\<forall>w \<in> set pegouts. \<exists>log \<in> set logs. \<exists>wei x y.
       abi_decode E [ParamUint 256, ParamString, ParamBytes] (log_data log) = Some [TokenUint wei, x, y] \<and>
       unat (po_amount (pw_data w)) = unat wei div 10000000000)"
proof -
  have eq: "pegouts = burn_pegouts E (btc_network pkg) tx_hash (enumerate 0 logs)"
    using assms(1) check_burns_fold [of E pkg tx_hash "[]" "enumerate 0 logs" pegouts]
    by (auto simp: botanix_mint_contract_checks_def check_burns_def result_simps)
  moreover have "distinct (map pw_id pegouts)"
    using eq burn_ids [of 0 logs E "btc_network pkg" tx_hash] assms(2) by simp
  moreover have "\<exists>log \<in> set logs. \<exists>wei x y.
       abi_decode E [ParamUint 256, ParamString, ParamBytes] (log_data log) = Some [TokenUint wei, x, y] \<and>
       unat (po_amount (pw_data w)) = unat wei div 10000000000" if w: "w \<in> set pegouts" for w
  proof -
    obtain log where "log \<in> set logs" "try_parse_burn_event E log (btc_network pkg) = Ok (Some (pw_data w))"
      using burn_pegouts_logs w eq by blast
    then show ?thesis using burn_event_amount by blast
  qed
  ultimately show ?thesis by blast
qed

text \<open>(C36) The check of the output index is off by one: a proof whose index is the number of outputs of its
  transaction passes it, and validation then panics instead of returning an error.\<close>

theorem pegin_output_index_panics:
  assumes "meta_version m \<in> {0, 1}" and "p = meta_v0 m"
    and "list_ex (\<lambda>h. lib_block_hash L h = lib_block_hash L (fst checkpoint)) (block_headers p)"
    and "lib_extract_matches L (merkle_proof p) = Some (hd_merkle_root (hd (block_headers p)), txids)"
    and "op_txid (pm_outpoint p) \<in> set txids" and "lib_compute_txid L (pm_tx p) = op_txid (pm_outpoint p)"
    and "lib_vk_deserialize L (lib_pk_serialize L pk) = Some vk"
    and "generate_tweaked_public_key L vk (pd_account d) = Some tpk"
    and "unat (op_vout (pm_outpoint p)) = length (tx_output (pm_tx p))" and "pd_meta d = m # rest"
  shows "validate_pegin L d checkpoint pk = Panic"
proof -
  have "block_headers p \<noteq> []" using assms(3) by auto
  then show ?thesis
    using assms by (simp add: validate_pegin_def validate_proof_def Let_def PEGIN_META_VERSION_V0_def PEGIN_META_VERSION_V1_def)
qed

section \<open>An example\<close>

text \<open>A chain of two blocks, whose hashes count up, with a deposit of 5000 satoshi in the first one.\<close>

definition example_tx :: transaction where
  "example_tx = \<lparr>tx_version = 2, lock_time = 0, tx_input = [],
     tx_output = [\<lparr>txo_value = 5000, script_pubkey = replicate 33 2 @ replicate 20 7\<rparr>]\<rparr>"

definition example_header :: "block_hash \<Rightarrow> header" where
  "example_header prev = \<lparr>hd_version = 0, prev_blockhash = prev, hd_merkle_root = 9, hd_time = 0, hd_bits = 0, hd_nonce = 0\<rparr>"

definition example_lib :: peg_lib where
  "example_lib = \<lparr>lib_block_hash = (\<lambda>h. prev_blockhash h + 1), lib_compute_txid = (\<lambda>_. 77), lib_is_coinbase = (\<lambda>_. False),
     lib_extract_matches = (\<lambda>_. Some (9, [77])), lib_pk_serialize = (\<lambda>pk. pk), lib_pk_from_slice = Some,
     lib_vk_deserialize = Some, lib_vk_serialize = Some, lib_vk_tweak = (\<lambda>vk eth. vk @ eth), lib_p2tr_tweaked = (\<lambda>pk. pk)\<rparr>"

definition example_codec :: peg_codec where
  "example_codec = \<lparr>enc_u32 = le_bytes_u32,
     dec_u32 = (\<lambda>bs. if length bs < 4 then None else map_option (\<lambda>w. (w, drop 4 bs)) (u32_from_le_bytes (take 4 bs))),
     enc_outpoint = (\<lambda>op. [ucast (op_vout op)]),
     dec_outpoint = (\<lambda>bs. case bs of [] \<Rightarrow> None | b # bs \<Rightarrow> Some (\<lparr>op_txid = 77, op_vout = ucast b\<rparr>, bs)),
     enc_varint = (\<lambda>n. [ucast n]), dec_varint = (\<lambda>bs. case bs of [] \<Rightarrow> None | b # bs \<Rightarrow> Some (ucast b, bs)),
     enc_header = (\<lambda>h. ucast (prev_blockhash h) # replicate 79 0),
     dec_header = (\<lambda>bs. case bs of [] \<Rightarrow> None | b # bs \<Rightarrow> Some (example_header (ucast b), drop 79 bs)),
     enc_merkle = (\<lambda>_. []), dec_merkle = (\<lambda>bs. Some ([], bs)), enc_tx = (\<lambda>_. []), dec_tx = (\<lambda>bs. Some (example_tx, bs))\<rparr>"

definition example_proof :: "u32 \<Rightarrow> pegin_meta" where
  "example_proof vout = MetaV0 \<lparr>pm_version = 0, merkle_proof = [], pm_outpoint = \<lparr>op_txid = 77, op_vout = vout\<rparr>,
     pm_address = replicate 20 7, aggregate_publickey = replicate 33 2,
     block_headers = [example_header 100, example_header 101], pm_tx = example_tx\<rparr>"

definition example_mint_lib :: mint_lib where
  "example_mint_lib = \<lparr>
     abi_decode = (\<lambda>types data. if types = [ParamAddress] then Some [TokenAddress (take 20 data)]
       else if types = [ParamUint 256, ParamUint 32, ParamBytes]
       then Some [TokenUint 40000000000000, TokenUint 799, TokenBytes data]
       else Some [TokenUint 25000000000, TokenString ''bc'', TokenBytes [0]]),
     keccak256 = (\<lambda>s. [of_nat (length s)]), address_from_str = (\<lambda>_. Some [1]), valid_for_network = (\<lambda>_ _. True)\<rparr>"

definition example_provider :: "unit chain_provider" where
  "example_provider = \<lparr>find_block_by_hash = (\<lambda>_. Ok None), block_checkpoint = (\<lambda>_. None)\<rparr>"

definition example_package :: consensus_package where
  "example_package = \<lparr>bitcoin_checkpoint = (example_header 101, 800), aggregate_public_key = replicate 33 2, btc_network = Regtest\<rparr>"

definition example_mint_log :: evm_log where
  "example_mint_log = \<lparr>log_address = MINT_CONTRACT_ADDRESS, log_topics = [MINT_TOPIC example_mint_lib, replicate 20 7],
     log_data = serialize_meta example_codec example_lib (example_proof 0)\<rparr>"

definition example_burn_log :: evm_log where
  "example_burn_log = \<lparr>log_address = MINT_CONTRACT_ADDRESS, log_topics = [BURN_TOPIC example_mint_lib, replicate 20 7], log_data = []\<rparr>"

definition example_pegin :: "u32 \<Rightarrow> pegin_data" where
  "example_pegin vout = \<lparr>pd_account = replicate 20 7, pd_amount = 40000000000000, bitcoin_block_height = 799,
     pd_meta = [example_proof vout]\<rparr>"

definition example_pegouts :: "pegout_with_id list" where
  "example_pegouts = [\<lparr>pw_data = \<lparr>po_amount = 2, destination = [1], po_network = Regtest\<rparr>,
     pw_id = \<lparr>pg_txid = [3], pg_idx = 1\<rparr>\<rparr>]"

lemma example_codec_ok:
  assumes "vout = 0 \<or> vout = 1"
  shows "peg_codec_ok example_codec example_lib (meta_v0 (example_proof vout)) \<and> meta_ok (example_proof vout)"
  using assms
  by (auto simp: peg_codec_ok_def reads_def meta_v0_ok_def example_codec_def example_lib_def example_proof_def example_header_def)

lemma example_codec_consumes: "peg_codec_consumes example_codec"
  by (auto simp: peg_codec_consumes_def consumes_def example_codec_def split: if_splits list.splits)

lemma example_params:
  "mint_params example_mint_lib example_mint_log = Ok (replicate 20 7, 40000000000000, 799,
     concat (map (serialize_meta example_codec example_lib) [example_proof 0]))"
  by code_simp

lemma example_wei: "to_wei 5000 = Ok 50000000000000"
  by (simp add: to_wei_def SATOSHI_IN_WEI_def checked_mul_def)

lemma example_valid:
  "validate_pegin example_lib (example_pegin 0) (example_header 101, 800) (replicate 33 2) = Ok 50000000000000"
  by (simp add: validate_pegin_def validate_proof_def example_pegin_def example_proof_def example_lib_def example_header_def
      example_tx_def meta_version_def PEGIN_META_VERSION_V0_def PEGIN_META_VERSION_V1_def generate_tweaked_public_key_def
      to_secp_pk_def generate_taproot_scriptpubkey_def example_wei checked_add_def commitment_depth_def)

lemma example_pegin_ok: "check_pegin example_lib example_provider example_package (example_pegin 0) = Ok ()"
  using example_valid
  by (simp add: check_pegin_def reference_checkpoint_def check_versions_def example_package_def example_pegin_def
      example_proof_def meta_version_def)

lemma example_burns: "check_burns example_mint_lib example_package [3] [example_mint_log, example_burn_log] = Ok example_pegouts"
  by code_simp

lemma example_topics: "MINT_TOPIC example_mint_lib \<noteq> BURN_TOPIC example_mint_lib"
  by code_simp

lemma example_checks:
  "botanix_mint_contract_checks example_codec example_lib example_mint_lib example_provider example_package [3]
     [example_mint_log, example_burn_log] = Some (Ok ([example_pegin 0], example_pegouts))"
proof -
  have "parse_proofs example_codec example_lib a w [] [] (concat (map (serialize_meta example_codec example_lib) [example_proof 0])) =
      Some (Ok [example_proof 0])" for a w
    using parse_proofs_serialized [of "[example_proof 0]" example_codec example_lib "[]" a w "[]"] example_codec_ok [of 0] by simp
  then have "try_parse_mint_event example_codec example_lib example_mint_lib example_mint_log = Some (Ok (Some (example_pegin 0)))"
    unfolding try_parse_mint_event_def example_params by (simp add: example_mint_log_def example_pegin_def)
  moreover have "try_parse_mint_event example_codec example_lib example_mint_lib example_burn_log = Some (Ok None)"
    using example_topics by (simp add: try_parse_mint_event_def example_burn_log_def)
  ultimately show ?thesis
    by (simp add: botanix_mint_contract_checks_def example_pegin_ok example_burns)
qed

theorem accepted_pegins_are_backed_witness:
  "\<exists>checkpoint. known_checkpoint example_provider example_package (example_pegin 0) checkpoint \<and>
     backed example_lib checkpoint (aggregate_public_key example_package) (example_pegin 0)"
  by (rule accepted_pegins_are_backed [OF example_checks]) simp

theorem mint_metadata_roundtrip_witness:
  "try_parse_mint_event example_codec example_lib example_mint_lib example_mint_log = Some (Ok (Some (example_pegin 0)))"
  unfolding example_pegin_def
  by (rule mint_metadata_roundtrip [OF _ _ _ _ _ example_params])
    (use example_codec_ok [of 0] in \<open>simp_all add: example_mint_log_def\<close>)

theorem mint_checks_return_witness:
  "\<exists>r. botanix_mint_contract_checks example_codec example_lib example_mint_lib example_provider example_package [3]
     [example_mint_log\<lparr>log_data := [0, 0, 0]\<rparr>] = Some r"
  by (rule mint_checks_return) (rule example_codec_consumes)

theorem burns_become_pegouts_witness:
  "example_pegouts = burn_pegouts example_mint_lib Regtest [3] (enumerate 0 [example_mint_log, example_burn_log]) \<and>
   distinct (map pw_id example_pegouts)"
  using burns_become_pegouts [OF example_checks] by (simp add: example_package_def)

theorem pegin_output_index_panics_witness:
  "validate_pegin example_lib (example_pegin 1) (example_header 101, 800) (replicate 33 2) = Panic"
  by (rule pegin_output_index_panics [of "example_proof 1" _ _ _ "[77]" _ "replicate 33 2" _ "replicate 33 2 @ replicate 20 7" "[]"])
    (auto simp: example_pegin_def example_proof_def example_lib_def example_header_def example_tx_def meta_version_def
      generate_tweaked_public_key_def to_secp_pk_def)

end
