(* ===== verification/Spec2Isabelle.thy ===== *)
theory Spec2Isabelle
  imports ActivationManager CheckpointSyncer CoinSelection SchedulerSync DkgProps PegProps
begin

text \<open>
  Verification of the bridge of Macbeth, a chain of CometBFT validators that mints coins against
  Bitcoin deposits and pays withdrawals from a wallet held by a federation.

  \<^bold>\<open>The program.\<close> A node executes blocks of the chain. A deposit (pegin) is a log of the minting
  contract that carries a proof of a Bitcoin output; the node checks the proof against a window of
  recent Bitcoin blocks, which a synchronizer keeps in step with a Bitcoin node. A withdrawal (pegout)
  is a burn log; it is sent to the Bitcoin server of each federation member, which stores it as pending.
  A server selects coins, builds a partially signed transaction that pays pending pegouts, signs it with
  the other members under a key that they generated together, and follows the transaction through the
  last blocks of the Bitcoin chain until it is final or rolled back. Changes of the rules of the chain
  are voted on by the validators and activated by the activation manager.

  \<^bold>\<open>Conventions.\<close> An unsigned integer of the source is a word of its width, so that \<open>+\<close> wraps as in
  the release profile; checked and saturating operations are defined in \<open>Prelude\<close>. \<open>result\<close> has the
  outcomes \<open>Ok\<close>, \<open>Err\<close> and \<open>Panic\<close>, the last for \<open>expect\<close>, \<open>unwrap\<close>, assertions and indexing out of
  range. \<open>Effects\<close> has operations on a state with these outcomes: an error half way keeps the writes made
  before it, and proofs use the weakest preconditions \<open>wp\<close> (no panic) and \<open>wlp\<close>. A \<open>HashMap\<close> is an
  association list with distinct keys, a \<open>BTreeMap\<close> a sorted one (\<open>SortedMaps\<close>). Locks are dropped: an
  operation runs alone. Logging and metrics are left out.

  \<^bold>\<open>Theories and the sources they model.\<close>
  \<^item> \<open>Prelude\<close>, \<open>Effects\<close>, \<open>SortedMaps\<close>: shared vocabulary. \<open>BitcoinTypes\<close>: the types of the bitcoin
    crate that the components exchange.
  \<^item> \<open>VoteTracker\<close>: \<open>botanix-storage/src/models/activation_manager.rs\<close> and
    \<open>botanix-activation-manager/src/vote_tracker.rs\<close>. The locale \<open>vote_ledger\<close> is what the manager needs
    of its store of votes; it is interpreted for the vote watcher.
  \<^item> \<open>ActivationManager\<close>: \<open>manager.rs\<close> and \<open>builder.rs\<close>, with the three hooks \<open>on_prepare_proposal\<close>,
    \<open>on_process_proposal\<close> and \<open>on_finalize_block\<close>. The client of the manager is the vote watcher.
  \<^item> \<open>CheckpointChain\<close>: \<open>botanix-bitcoin-checkpoint/src/chain.rs\<close>, \<open>checkpoint.rs\<close>, \<open>error.rs\<close>. The
    locale \<open>bounded_chain\<close> is the contract of a window of linked elements.
  \<^item> \<open>CheckpointSyncer\<close>: \<open>syncer.rs\<close>, with the loop of \<open>sync\<close> as a step relation.
  \<^item> \<open>PegoutIdCodec\<close>: \<open>btc-server/src/pegout_id.rs\<close> and the outpoint bytes of \<open>util.rs\<close>.
  \<^item> \<open>Psbt\<close>: \<open>wallet/psbt.rs\<close>, \<open>database/version.rs\<close>. The locale \<open>psbt_field\<close> is the contract of a
    proprietary field and \<open>two_psbt_fields\<close> that two of them are independent.
  \<^item> \<open>CoinSelection\<close>: \<open>wallet/coin_selection.rs\<close>, the weights of \<open>wallet/mod.rs\<close> and \<open>wallet/util.rs\<close>.
  \<^item> \<open>PegoutTypes\<close>, \<open>BtcDb\<close>: the data and operations of \<open>database/mod.rs\<close>. \<open>BtcDbTables\<close> reads the
    trees as tables of decoded rows; its locale \<open>row_table\<close> is interpreted for the four tables.
    \<open>BtcDbOps\<close> has the effect of each operation on the tables and \<open>BtcDbProps\<close> the properties.
  \<^item> \<open>KeyPackages\<close>: the keys and signing sessions of \<open>database/mod.rs\<close>.
  \<^item> \<open>PegoutScheduler\<close>: \<open>pegout_scheduler/mod.rs\<close>. \<open>SchedulerBlocks\<close> and \<open>SchedulerFinalize\<close> prove what
    rolling back and finalizing a block do; \<open>SchedulerSync\<close> models and verifies \<open>sync_until\<close>,
    \<open>track_mempool\<close> and \<open>is_syncing\<close>.
  \<^item> \<open>DkgCrypto\<close>: \<open>dkg/encryption.rs\<close>. \<open>DkgMachine\<close>: \<open>dkg/mod.rs\<close>. \<open>DkgProps\<close>: their properties.
  \<^item> \<open>PegContract\<close>: \<open>botanix-authority-peg/src/peg_contract.rs\<close>, \<open>utils.rs\<close> and scripts of
    \<open>wallet/address.rs\<close>. \<open>MintChecks\<close>: \<open>mint_validation.rs\<close>, \<open>consensus_package.rs\<close> and
    \<open>botanix_mint_contract_checks\<close> of \<open>ethereum/evm/src/execute.rs\<close>. \<open>PegProps\<close>: their properties.

  \<^bold>\<open>What is shown.\<close>
  \<^item> Deposits and withdrawals: an accepted mint is backed by proved outputs that pay the federation and
    by amounts that cover it; the metadata survives its encoding; the checks return; burns become pegouts
    with identifiers of their own; an output index one past the end panics.
  \<^item> Upgrades: activation needs a quorum of the votes inside the retention window, the counted vote of a
    validator is its latest, versions only grow, the hooks do not panic, and a proposed version is
    accepted by the validators in the same state.
  \<^item> Checkpoints: the window is linked and bounded; a successful synchronization against a consistent
    node leaves the window of its best chain, and a stale window recovers.
  \<^item> Wallet: a pegout transaction pays the fee that was computed and each pegout its share of it; change
    is affordable; fields of a partially signed transaction do not disturb each other.
  \<^item> Database and scheduler: the operations keep the rows decodable; batches of pegouts are the oldest;
    the stream of finalized pegouts is complete; pruning keeps the retention window; a rollback returns
    the pegouts of a block and finalizing settles them; finalized blocks form a chain; \<open>sync_until\<close> returns.
  \<^item> Key generation: tables stay well-formed, sessions only move forward, shares of round two arrive, and
    a finalized key was signed by every member.

  The scope of each property is in the text before it: several describe a successful run, since an error
  half way leaves the writes made before it.

  \<^bold>\<open>Parameters and hypotheses.\<close> Crates and services are arguments: \<open>store\<close> (sled, ciborium and hashes,
  with \<open>sled_ok\<close> and \<open>codecs_ok\<close>), \<open>rpc\<close> and \<open>node\<close> (Bitcoin nodes, whose answers may change between
  calls), \<open>bitcoin_lib\<close> (BDK selection, weights, dust and fees), \<open>crypto\<close> (merlin, secp256k1,
  chacha20poly1305 and frost), \<open>peg_lib\<close> and \<open>peg_codec\<close> (bitcoin, secp256k1, frost and their encodings),
  and the decoder of the ABI. Their hypotheses state documented behaviour and are named definitions; the
  witnesses satisfy them with concrete functions, for the storage engine with a red-black tree. Random
  numbers and times are arguments. A stream of finalized pegouts reads each row from the table at the
  time of that read.

  \<^bold>\<open>Loops.\<close> Loops over data are structural recursion. \<open>find_last\<close> ends because it shortens the window.
  \<open>find_start\<close>, \<open>walk_back\<close> and \<open>parse_proofs\<close> may run forever against some parameters; they are partial
  functions with value \<open>None\<close> then, and \<open>sync_until_returns\<close> and \<open>mint_checks_return\<close> show when they
  return. No definition has fuel. Sums are bounded by hypotheses on the amounts where the code relies on
  no overflow.

  \<^bold>\<open>Not modelled.\<close> The RPC handlers and start-up of the server and the ABCI application with its tasks are
  asynchronous services around the components above; concurrency between requests is outside the
  development. The coordinator and signer of a signature, \<open>validate_psbt\<close> and the wallet state commitment
  are not modelled. The node's MDBX storage, snapshots and state synchronization, the stream of block
  hashes, clients, command lines, configuration, telemetry, tools, the Solidity contract and the fork of
  reth (apart from the checks of the minting contract) are input and output, generated or upstream code.
\<close>

end
